(* ===== verification/Prelude.thy ===== *)
theory Prelude
  imports Main "HOL-Library.Sublist"
begin

text \<open>
  Shared vocabulary of the development: the JavaScript operations on arrays and strings
  that the panel's sources call, as total functions on lists, with the lemmas the
  components use. A JavaScript string is a sequence of UTF-16 code units. The validators
  (\<open>Reg_Exp\<close>, \<open>Form_Rules\<close>, \<open>Validate\<close>) work on lists of code units
  (\<open>jstr\<close>, lists of \<open>nat\<close>), because their patterns name units beyond Latin-1; the stores
  work on \<open>string\<close>, the strings whose units are below 256. \<open>units\<close> embeds the latter in
  the former.

  Nothing here is a definition of the program: these are the language's own operations.
\<close>

named_theorems js_defs \<open>definitions of the JavaScript array and string operations\<close>
named_theorems state_defs \<open>definitions of the operations of the stores\<close>

type_synonym jstr = "nat list"

definition units :: "string \<Rightarrow> jstr" where
  "units s = map of_char s"

lemma units_inj [simp]: "units a = units b \<longleftrightarrow> a = b"
  by (auto simp: units_def inj_map_eq_map [OF inj_of_char])

lemma units_Nil [simp]: "units [] = []" "units s = [] \<longleftrightarrow> s = []"
  by (simp_all add: units_def)

lemma units_append [simp]: "units (a @ b) = units a @ units b"
  by (simp add: units_def)

lemma units_Cons: "units (c # s) = of_char c # units s"
  by (simp add: units_def)


section \<open>Search and update in arrays\<close>

text \<open>\<open>Array.prototype.findIndex\<close>: the least index whose element satisfies the predicate, or -1.\<close>

fun findIndex :: "('a \<Rightarrow> bool) \<Rightarrow> 'a list \<Rightarrow> int" where
  "findIndex P [] = -1"
| "findIndex P (x # xs) =
     (if P x then 0 else (let i = findIndex P xs in if i = -1 then -1 else i + 1))"

lemma findIndex_ge: "-1 \<le> findIndex P xs"
  by (induction xs) (auto simp: Let_def)

lemma findIndex_none: "findIndex P xs = -1 \<longleftrightarrow> (\<forall>x \<in> set xs. \<not> P x)"
proof (induction xs)
  case (Cons x xs)
  then show ?case using findIndex_ge [of P xs] by (auto simp: Let_def)
qed simp

lemma findIndex_nonneg: "findIndex P xs \<noteq> -1 \<Longrightarrow> 0 \<le> findIndex P xs"
  using findIndex_ge [of P xs] by linarith

lemma findIndex_neg [simp]: "findIndex P xs < 0 \<longleftrightarrow> findIndex P xs = -1"
  using findIndex_ge [of P xs] by linarith

lemma findIndex_gt [simp]: "-1 < findIndex P xs \<longleftrightarrow> findIndex P xs \<noteq> -1"
  using findIndex_ge [of P xs] by linarith

text \<open>The index splits the array at the first hit.\<close>

lemma findIndex_split:
  assumes "findIndex P xs \<noteq> -1"
  obtains ys x zs where "xs = ys @ x # zs" "P x" "\<forall>y \<in> set ys. \<not> P y"
    "findIndex P xs = int (length ys)"
  using assms
proof (induction xs arbitrary: thesis)
  case (Cons x xs)
  show ?case
  proof (cases "P x")
    case True
    then show ?thesis using Cons.prems(1) [of "[]" x xs] by simp
  next
    case False
    with Cons.prems(2) have "findIndex P xs \<noteq> -1" by (auto simp: Let_def)
    then obtain ys y zs where "xs = ys @ y # zs" "P y" "\<forall>u \<in> set ys. \<not> P u"
      "findIndex P xs = int (length ys)"
      using Cons.IH by blast
    with False Cons.prems(1) [of "x # ys" y zs] show ?thesis by (auto simp: Let_def)
  qed
qed simp

lemma findIndex_less: "findIndex P xs \<noteq> -1 \<Longrightarrow> nat (findIndex P xs) < length xs"
  by (erule findIndex_split) auto

lemma findIndex_hit: "findIndex P xs \<noteq> -1 \<Longrightarrow> P (xs ! nat (findIndex P xs))"
  by (erule findIndex_split) (auto simp: nth_append)

text \<open>\<open>Array.prototype.splice (start, deleteCount)\<close> with its clamping; \<open>None\<close> is an
  omitted \<open>deleteCount\<close>, which deletes to the end.\<close>

definition spliceAt :: "'a list \<Rightarrow> int \<Rightarrow> int option \<Rightarrow> 'a list" where
  [js_defs]: "spliceAt xs start cnt =
     (let n = int (length xs);
          s = (if start < 0 then max (n + start) 0 else min start n);
          d = (case cnt of None \<Rightarrow> n - s | Some c \<Rightarrow> min (max c 0) (n - s))
      in take (nat s) xs @ drop (nat (s + d)) xs)"

lemma spliceAt_from:
  "0 \<le> i \<Longrightarrow> i \<le> int (length xs) \<Longrightarrow> spliceAt xs i None = take (nat i) xs"
  by (simp add: spliceAt_def Let_def)

lemma spliceAt_prefix:
  "i \<le> int (length xs) \<Longrightarrow> spliceAt xs 0 (Some i) = drop (nat i) xs"
  by (auto simp: spliceAt_def Let_def max_def)

lemma spliceAt_one:
  "0 \<le> i \<Longrightarrow> i < int (length xs) \<Longrightarrow>
   spliceAt xs i (Some 1) = take (nat i) xs @ drop (Suc (nat i)) xs"
  by (simp add: spliceAt_def Let_def nat_add_distrib)

lemma set_spliceAt: "set (spliceAt xs i c) \<subseteq> set xs"
  by (auto simp: spliceAt_def Let_def dest: in_set_takeD in_set_dropD split: if_splits option.splits)

lemma distinct_spliceAt: "distinct (map f xs) \<Longrightarrow> distinct (map f (spliceAt xs i c))"
proof -
  assume d: "distinct (map f xs)"
  have "distinct (map f (take a xs @ drop b xs))" if "a \<le> b" for a b
  proof -
    have "distinct (take a (map f xs))" "distinct (drop b (map f xs))" using d by simp_all
    moreover have "set (take a (map f xs)) \<inter> set (drop b (map f xs)) = {}"
      using d that by (rule set_take_disj_set_drop_if_distinct)
    ultimately show ?thesis by (simp add: take_map drop_map)
  qed
  then show ?thesis by (auto simp: spliceAt_def Let_def split: option.split)
qed

text \<open>\<open>const e = xs.find (P); if (e) mutate e\<close>: the first hit is changed in place.\<close>

fun updateFirst :: "('a \<Rightarrow> bool) \<Rightarrow> ('a \<Rightarrow> 'a) \<Rightarrow> 'a list \<Rightarrow> 'a list" where
  "updateFirst P f [] = []"
| "updateFirst P f (x # xs) = (if P x then f x # xs else x # updateFirst P f xs)"

lemma length_updateFirst [simp]: "length (updateFirst P f xs) = length xs"
  by (induction xs) auto

text \<open>Rows found by a key and edited without touching it: edits keep the keys, and an edit of
  one row is seen under its key alone.\<close>

locale keyed_edit =
  fixes key :: "'a \<Rightarrow> 'k"
    and edit :: "'a \<Rightarrow> 'a"
  assumes key_edit: "key (edit x) = key x"
begin

lemma map_key_updateFirst [simp]: "map key (updateFirst P edit xs) = map key xs"
  by (induction xs) (auto simp: key_edit)

lemma map_key_edit [simp]: "map key (map edit xs) = map key xs"
  by (simp add: key_edit)

lemma find_updateFirst:
  "find (\<lambda>x. key x = k) (updateFirst (\<lambda>x. key x = j) edit xs) =
     (if k = j then map_option edit (find (\<lambda>x. key x = k) xs) else find (\<lambda>x. key x = k) xs)"
  by (induction xs) (auto simp: key_edit)

end

text \<open>Collecting the first occurrence of each key, the loop
  \<open>if (seen.has (key)) continue; seen.add (key); result.push (item)\<close>.\<close>

fun dedupBy :: "('a \<Rightarrow> 'k) \<Rightarrow> 'k set \<Rightarrow> 'a list \<Rightarrow> 'a list" where
  "dedupBy f seen [] = []"
| "dedupBy f seen (x # xs) =
     (if f x \<in> seen then dedupBy f seen xs else x # dedupBy f (insert (f x) seen) xs)"

lemma dedupBy_set: "set (dedupBy f seen xs) \<subseteq> set xs"
  by (induction xs arbitrary: seen) (auto dest: subsetD)

lemma dedupBy_keys: "f ` set (dedupBy f seen xs) = f ` set xs - seen"
  by (induction xs arbitrary: seen) auto

lemma dedupBy_distinct: "distinct (map f (dedupBy f seen xs))"
proof (induction xs arbitrary: seen)
  case (Cons x xs)
  then show ?case using dedupBy_keys [of f "insert (f x) seen" xs] by auto
qed simp

lemma dedupBy_id:
  "distinct (map f xs) \<Longrightarrow> f ` set xs \<inter> seen = {} \<Longrightarrow> dedupBy f seen xs = xs"
  by (induction xs arbitrary: seen) auto

text \<open>\<open>[...new Set (xs)]\<close>: the distinct elements in order of first occurrence.\<close>

abbreviation nub :: "'a list \<Rightarrow> 'a list" where
  "nub xs \<equiv> dedupBy (\<lambda>x. x) {} xs"

lemma set_nub [simp]: "set (nub xs) = set xs"
  using dedupBy_keys [of "\<lambda>x. x" "{}" xs] by simp

lemma distinct_nub [simp]: "distinct (nub xs)"
  using dedupBy_distinct [of "\<lambda>x. x" "{}" xs] by simp


section \<open>Strings\<close>

text \<open>\<open>includes\<close>, \<open>startsWith\<close> and \<open>endsWith\<close>.\<close>

fun includesSub :: "'a list \<Rightarrow> 'a list \<Rightarrow> bool" where
  "includesSub [] p = (p = [])"
| "includesSub (x # xs) p = (prefix p (x # xs) \<or> includesSub xs p)"

lemma includesSub_iff: "includesSub s p \<longleftrightarrow> (\<exists>a b. s = a @ p @ b)"
proof (induction s)
  case (Cons x xs)
  note Cons_IH = Cons.IH
  show ?case
  proof
    assume "includesSub (x # xs) p"
    then consider "prefix p (x # xs)" | a b where "xs = a @ p @ b"
      using Cons.IH by auto
    then show "\<exists>a b. x # xs = a @ p @ b"
    proof cases
      case 1
      then show ?thesis by (metis append_Nil prefix_def)
    next
      case (2 a b)
      then have "x # xs = (x # a) @ p @ b" by simp
      then show ?thesis by blast
    qed
  next
    assume "\<exists>a b. x # xs = a @ p @ b"
    then obtain a b where eq: "x # xs = a @ p @ b" by blast
    show "includesSub (x # xs) p"
    proof (cases a)
      case Nil
      with eq show ?thesis unfolding includesSub.simps prefix_def by simp
    next
      case (Cons y ys)
      with eq have "xs = ys @ p @ b" by simp
      with Cons_IH show ?thesis by auto
    qed
  qed
qed auto

lemma includesSub_single [simp]: "includesSub s [c] \<longleftrightarrow> c \<in> set s"
  by (induction s) (auto simp: prefix_def)

text \<open>\<open>String.prototype.split\<close> by one code unit, and \<open>Array.prototype.join\<close> by one.\<close>

fun splitOn :: "'a \<Rightarrow> 'a list \<Rightarrow> 'a list list" where
  "splitOn c [] = [[]]"
| "splitOn c (x # xs) =
     (if x = c then [] # splitOn c xs
      else (case splitOn c xs of [] \<Rightarrow> [[x]] | w # ws \<Rightarrow> (x # w) # ws))"

fun joinWith :: "'a list \<Rightarrow> 'a list list \<Rightarrow> 'a list" where
  "joinWith sep [] = []"
| "joinWith sep [w] = w"
| "joinWith sep (w # v # ws) = w @ sep @ joinWith sep (v # ws)"

lemma splitOn_nonempty [simp]: "splitOn c s \<noteq> []"
  by (induction s) (auto split: list.splits)

lemma joinWith_Cons: "ws \<noteq> [] \<Longrightarrow> joinWith sep (w # ws) = w @ sep @ joinWith sep ws"
  by (cases ws) auto

lemma join_splitOn [simp]: "joinWith [c] (splitOn c s) = s"
proof (induction s)
  case (Cons x xs)
  obtain w ws where "splitOn c xs = w # ws" by (cases "splitOn c xs") auto
  with Cons show ?case by (cases ws) (auto simp: joinWith_Cons)
qed simp

lemma splitOn_no_sep: "w \<in> set (splitOn c s) \<Longrightarrow> c \<notin> set w"
proof (induction s arbitrary: w)
  case (Cons x xs)
  obtain v vs where "splitOn c xs = v # vs" by (cases "splitOn c xs") auto
  with Cons show ?case by (auto split: if_splits)
qed simp

lemma splitOn_append:
  "c \<notin> set w \<Longrightarrow> splitOn c (w @ c # s) = w # splitOn c s"
  by (induction w) auto

lemma splitOn_simple [simp]: "c \<notin> set w \<Longrightarrow> splitOn c w = [w]"
  by (induction w) auto

lemma splitOn_join:
  "ws \<noteq> [] \<Longrightarrow> \<forall>w \<in> set ws. c \<notin> set w \<Longrightarrow> splitOn c (joinWith [c] ws) = ws"
proof (induction ws)
  case (Cons w ws)
  then show ?case
    by (cases ws) (auto simp: splitOn_append)
qed simp

lemma joinWith_nonempty: "ws \<noteq> [] \<Longrightarrow> [] \<notin> set ws \<Longrightarrow> joinWith sep ws \<noteq> []"
  by (cases ws; cases "tl ws") auto

text \<open>Joining non-empty words that do not contain the separator loses nothing.\<close>

lemma joinWith_inj:
  assumes "\<forall>w \<in> set ws. w \<noteq> [] \<and> c \<notin> set w" "\<forall>w \<in> set vs. w \<noteq> [] \<and> c \<notin> set w"
    "joinWith [c] ws = joinWith [c] vs"
  shows "ws = vs"
proof (cases "ws = [] \<or> vs = []")
  case True
  with assms joinWith_nonempty [of ws "[c]"] joinWith_nonempty [of vs "[c]"] show ?thesis
    by (metis joinWith.simps(1))
next
  case False
  with assms splitOn_join [of ws c] splitOn_join [of vs c] show ?thesis by metis
qed

text \<open>\<open>String.prototype.trim\<close>: white space and line terminators below 256 are the units
  9 to 13, 32 and 160.\<close>

definition isSpace :: "char \<Rightarrow> bool" where
  [js_defs]: "isSpace c = (let n = (of_char c :: nat) in (9 \<le> n \<and> n \<le> 13) \<or> n = 32 \<or> n = 160)"

definition trim :: "string \<Rightarrow> string" where
  [js_defs]: "trim s = rev (dropWhile isSpace (rev (dropWhile isSpace s)))"

lemma trim_Nil [simp]: "trim [] = []"
  by (simp add: trim_def)

lemma trim_sub: "set (trim s) \<subseteq> set s"
  by (auto simp: trim_def dest!: set_dropWhileD)

lemma trim_empty_iff: "trim s = [] \<longleftrightarrow> (\<forall>c \<in> set s. isSpace c)"
proof -
  have "trim s = [] \<longleftrightarrow> (\<forall>c \<in> set (dropWhile isSpace s). isSpace c)"
    by (simp add: trim_def dropWhile_eq_Nil_conv)
  also have "\<dots> \<longleftrightarrow> (\<forall>c \<in> set s. isSpace c)"
    by (metis dropWhile_eq_Nil_conv hd_dropWhile hd_in_set set_dropWhileD)
  finally show ?thesis .
qed

lemma dropWhile_rev_dropWhile:
  "dropWhile P (rev (dropWhile P (rev (dropWhile P s)))) = rev (dropWhile P (rev (dropWhile P s)))"
proof (cases "dropWhile P s")
  case (Cons x xs)
  then have "\<not> P x" by (metis hd_dropWhile list.discI list.sel(1))
  with Cons show ?thesis
    by (simp add: dropWhile_append)
next
  case Nil
  then show ?thesis by (simp only: rev.simps dropWhile.simps)
qed

lemma trim_idem [simp]: "trim (trim s) = trim s"
  unfolding trim_def dropWhile_rev_dropWhile by (simp add: dropWhile_rev_dropWhile)

lemma dropWhile_none: "\<forall>x \<in> set xs. \<not> P x \<Longrightarrow> dropWhile P xs = xs"
  by (cases xs) auto

lemma trim_id: "\<forall>c \<in> set s. \<not> isSpace c \<Longrightarrow> trim s = s"
  by (simp add: trim_def dropWhile_none)

text \<open>\<open>String.prototype.toLowerCase\<close> on the units below 256.\<close>

definition lowerChar :: "char \<Rightarrow> char" where
  [js_defs]: "lowerChar c =
     (let n = (of_char c :: nat)
      in if (65 \<le> n \<and> n \<le> 90) \<or> (192 \<le> n \<and> n \<le> 222 \<and> n \<noteq> 215) then char_of (n + 32) else c)"

definition toLowerCase :: "string \<Rightarrow> string" where
  [js_defs]: "toLowerCase s = map lowerChar s"

lemma of_char_less: "(of_char c :: nat) < 256"
  using nat_of_char_less_256 [of c] by simp

lemma lowerChar_idem [simp]: "lowerChar (lowerChar c) = lowerChar c"
  using of_char_less [of c]
  by (auto simp: lowerChar_def Let_def of_char_of)

lemma toLowerCase_idem [simp]: "toLowerCase (toLowerCase s) = toLowerCase s"
  by (simp add: toLowerCase_def)

text \<open>\<open>indexOf\<close> and \<open>lastIndexOf\<close> of one unit.\<close>

definition indexOf :: "'a \<Rightarrow> 'a list \<Rightarrow> int" where
  [js_defs]: "indexOf c s = findIndex (\<lambda>x. x = c) s"

definition lastIndexOf :: "'a \<Rightarrow> 'a list \<Rightarrow> int" where
  [js_defs]: "lastIndexOf c s =
     (let i = findIndex (\<lambda>x. x = c) (rev s) in if i = -1 then -1 else int (length s) - 1 - i)"

text \<open>\<open>indexOf\<close> of a substring.\<close>

fun indexSub :: "'a list \<Rightarrow> 'a list \<Rightarrow> int" where
  "indexSub [] p = (if p = [] then 0 else -1)"
| "indexSub (x # xs) p =
     (if prefix p (x # xs) then 0 else (let i = indexSub xs p in if i < 0 then -1 else i + 1))"

lemma indexSub_ge: "-1 \<le> indexSub s p"
  by (induction s) (auto simp: Let_def)

lemma indexSub_none: "indexSub s p < 0 \<longleftrightarrow> \<not> includesSub s p"
proof (induction s)
  case (Cons x xs)
  then show ?case by (auto simp: Let_def)
qed simp

text \<open>A non-negative index splits the text at the first occurrence.\<close>

lemma indexSub_split:
  assumes "0 \<le> indexSub s p"
  obtains a b where "s = a @ p @ b" "indexSub s p = int (length a)"
  using assms
proof (induction s arbitrary: thesis)
  case (Cons x xs)
  show ?case
  proof (cases "prefix p (x # xs)")
    case True
    then obtain b where "x # xs = p @ b" by (auto simp: prefix_def)
    moreover have "indexSub (x # xs) p = 0" using True by simp
    ultimately show ?thesis using Cons.prems(1) [of "[]" b] by simp
  next
    case False
    with Cons.prems(2) have "0 \<le> indexSub xs p" by (auto simp: Let_def split: if_splits)
    then obtain a b where "xs = a @ p @ b" "indexSub xs p = int (length a)" using Cons.IH by blast
    with False Cons.prems(1) [of "x # a" b] show ?thesis by simp
  qed
qed (simp split: if_splits)

text \<open>\<open>Number.prototype.toString (16)\<close> of a natural number.\<close>

definition hexChar :: "nat \<Rightarrow> char" where
  [js_defs]: "hexChar d = char_of (if d < 10 then 48 + d else 87 + d)"

fun toHex :: "nat \<Rightarrow> string" where
  "toHex n = (if n < 16 then [hexChar n] else toHex (n div 16) @ [hexChar (n mod 16)])"

declare toHex.simps [simp del]

lemma hexChar_inj: "a < 16 \<Longrightarrow> b < 16 \<Longrightarrow> hexChar a = hexChar b \<longleftrightarrow> a = b"
  by (auto simp: hexChar_def split: if_splits dest!: arg_cong [of _ _ "of_char :: char \<Rightarrow> nat"])

lemma hexChar_sep: "d < 16 \<Longrightarrow> hexChar d \<noteq> CHR ''_''"
  by (auto simp: hexChar_def split: if_splits dest!: arg_cong [of _ _ "of_char :: char \<Rightarrow> nat"])

lemma toHex_nonempty [simp]: "toHex n \<noteq> []" "[] \<noteq> toHex n"
  by (subst toHex.simps, simp)+

lemma toHex_sep: "CHR ''_'' \<notin> set (toHex n)"
proof (induction n rule: toHex.induct)
  case (1 n)
  then show ?case
    using hexChar_sep [of n] hexChar_sep [of "n mod 16"] by (subst toHex.simps) auto
qed

lemma toHex_inj: "toHex m = toHex n \<Longrightarrow> m = n"
proof (induction m arbitrary: n rule: toHex.induct)
  case (1 m)
  show ?case
  proof (cases "m < 16 \<or> n < 16")
    case True
    then have "m < 16 \<and> n < 16"
      using 1(2) by (auto simp: toHex.simps [of m] toHex.simps [of n] append_eq_Cons_conv Cons_eq_append_conv split: if_splits)
    with 1(2) show ?thesis by (simp add: toHex.simps hexChar_inj)
  next
    case False
    then have "toHex (m div 16) = toHex (n div 16)" "hexChar (m mod 16) = hexChar (n mod 16)"
      using 1(2) by (auto simp: toHex.simps [of m] toHex.simps [of n])
    then have "m div 16 = n div 16" "m mod 16 = n mod 16"
      using 1(1) False by (auto simp: hexChar_inj)
    then show ?thesis by (metis div_mult_mod_eq)
  qed
qed

text \<open>\<open>String (n)\<close> for a natural number: its decimal digits.\<close>

fun digits :: "nat \<Rightarrow> nat list" where
  "digits n = (if n < 10 then [n] else digits (n div 10) @ [n mod 10])"

declare digits.simps [simp del]

definition decimal :: "nat \<Rightarrow> string" where
  "decimal n = map (\<lambda>d. char_of (48 + d)) (digits n)"

definition digitVal :: "nat list \<Rightarrow> nat" where
  "digitVal ds = foldl (\<lambda>a d. 10 * a + d) 0 ds"

lemma digitVal_Nil [simp]: "digitVal [] = 0"
  by (simp add: digitVal_def)

lemma digitVal_snoc [simp]: "digitVal (ds @ [d]) = 10 * digitVal ds + d"
  by (simp add: digitVal_def)

lemma digits_val [simp]: "digitVal (digits n) = n"
proof (induction n rule: digits.induct)
  case (1 n)
  then show ?case
    by (cases "n < 10") (simp_all add: digits.simps [of n] digitVal_def)
qed

lemma digits_less: "d \<in> set (digits n) \<Longrightarrow> d < 10"
proof (induction n rule: digits.induct)
  case (1 n)
  then show ?case by (cases "n < 10") (auto simp: digits.simps [of n])
qed

lemma digits_nonempty [simp]: "digits n \<noteq> []"
  by (subst digits.simps) simp

lemma digits_inj [simp]: "digits m = digits n \<longleftrightarrow> m = n"
  by (metis digits_val)

text \<open>No decimal numeral but that of 0 starts with the digit 0.\<close>

lemma hd_digits: "0 < n \<Longrightarrow> 0 < hd (digits n)"
proof (induction n rule: digits.induct)
  case (1 n)
  then show ?case by (cases "n < 10") (auto simp: digits.simps [of n] hd_append)
qed

lemma digits_of_val:
  assumes "ds \<noteq> []" "\<forall>d \<in> set ds. d < 10" "0 < hd ds"
  shows "digits (digitVal ds) = ds"
  using assms
proof (induction ds rule: rev_induct)
  case (snoc d ds)
  show ?case
  proof (cases ds)
    case Nil
    with snoc.prems show ?thesis by (simp add: digitVal_def digits.simps)
  next
    case (Cons e es)
    with snoc have ih: "digits (digitVal ds) = ds" by simp
    have "digitVal ds \<noteq> 0"
    proof
      assume "digitVal ds = 0"
      with ih have "ds = [0]" by (simp add: digits.simps)
      with snoc.prems show False by simp
    qed
    with snoc.prems ih show ?thesis
      by (simp add: digits.simps [of "10 * digitVal ds + d"])
  qed
qed simp

lemma units_decimal_digits: "map (of_char :: char \<Rightarrow> nat) (decimal n) = map ((+) 48) (digits n)"
proof -
  have "(of_char (char_of (48 + d) :: char) :: nat) = 48 + d" if "d \<in> set (digits n)" for d
    using digits_less [OF that] by (simp add: of_char_of)
  then show ?thesis by (simp add: decimal_def)
qed

lemma decimal_inj: "inj decimal"
proof (rule injI)
  fix m n
  assume "decimal m = decimal n"
  then have "map ((+) (48 :: nat)) (digits m) = map ((+) 48) (digits n)"
    by (metis units_decimal_digits)
  then show "m = n" by (simp add: inj_map_eq_map)
qed

text \<open>\<open>String (n)\<close> for an integer.\<close>

definition decimalInt :: "int \<Rightarrow> string" where
  "decimalInt n = (if n < 0 then ''-'' @ decimal (nat (- n)) else decimal (nat n))"

lemma decimal_nonempty [simp]: "decimal n \<noteq> []"
  by (simp add: decimal_def)

lemma decimal_chars: "c \<in> set (decimal n) \<Longrightarrow> c \<in> set ''0123456789''"
proof -
  assume "c \<in> set (decimal n)"
  then have "(of_char c :: nat) \<in> (+) 48 ` set (digits n)"
    by (metis imageI list.set_map units_decimal_digits)
  then obtain d where "d < 10" "(of_char c :: nat) = 48 + d" using digits_less by auto
  then have "c = char_of (48 + d :: nat)" by (metis char_of_char)
  moreover have "d \<in> {0, 1, 2, 3, 4, 5, 6, 7, 8, 9}" using \<open>d < 10\<close> by auto
  ultimately show ?thesis by (elim insertE) (simp_all add: char_of_def bit_0)
qed

lemma decimal_notin:
  "c \<notin> set ''0123456789'' \<Longrightarrow> c \<notin> set (decimal n)"
  using decimal_chars by blast

text \<open>\<open>s.replaceAll (p, '')\<close> for a non-empty \<open>p\<close>.\<close>

function removeSub :: "'a list \<Rightarrow> 'a list \<Rightarrow> 'a list" where
  "removeSub p [] = []"
| "removeSub p (c # s) =
     (if p \<noteq> [] \<and> prefix p (c # s) then removeSub p (drop (length p) (c # s)) else c # removeSub p s)"
  by pat_completeness auto
termination by (relation "measure (length \<circ> snd)") auto

lemma removeSub_id: "\<not> includesSub s p \<Longrightarrow> removeSub p s = s"
  by (induction s) auto

lemma includesSub_first: "p \<noteq> [] \<Longrightarrow> hd p \<notin> set s \<Longrightarrow> \<not> includesSub s p"
  by (cases p) (auto simp: includesSub_iff)

lemma removeSub_prefix: "p \<noteq> [] \<Longrightarrow> removeSub p (p @ s) = removeSub p s"
  by (cases p) auto

lemma removeSub_single: "removeSub [c] s = filter (\<lambda>x. x \<noteq> c) s"
  by (induction s) (auto simp: prefix_def)

text \<open>\<open>split\<close> by a non-empty text.\<close>

function splitSub :: "'a list \<Rightarrow> 'a list \<Rightarrow> 'a list list" where
  "splitSub p [] = [[]]"
| "splitSub p (c # s) =
     (if p \<noteq> [] \<and> prefix p (c # s) then [] # splitSub p (drop (length p) (c # s))
      else case splitSub p s of [] \<Rightarrow> [[c]] | w # ws \<Rightarrow> (c # w) # ws)"
  by pat_completeness auto
termination by (relation "measure (length \<circ> snd)") auto

lemma splitSub_nonempty [simp]: "splitSub p s \<noteq> []"
  by (induction p s rule: splitSub.induct) (auto split: list.split)

text \<open>Splitting at a text that starts with a unit the skipped part does not have.\<close>

lemma splitSub_skip:
  "c \<notin> set w \<Longrightarrow> splitSub (c # p) (w @ s) = (w @ hd (splitSub (c # p) s)) # tl (splitSub (c # p) s)"
  by (induction w) (auto simp: prefix_def split: list.split)

lemma splitSub_hit: "p \<noteq> [] \<Longrightarrow> splitSub p (p @ s) = [] # splitSub p s"
  by (cases p) auto

end
