(* ===== verification/Reg_Exp.thy ===== *)
theory Reg_Exp
  imports Prelude
begin

text \<open>
  The part of JavaScript's regular expressions the panel's validators use, over UTF-16
  code units: character classes, sequence, alternation, counted repetition (with the
  greedy \<open>*\<close>, \<open>+\<close> and \<open>?\<close> as special cases), and the look-aheads, which stand at the start
  of a pattern and are therefore intersections and complements of languages. Capture
  groups and greediness do not influence \<open>test\<close>. A pattern \<open>/^r$/\<close> without the \<open>m\<close> flag
  matches exactly the whole string, so \<open>test\<close> of an anchored pattern is membership in
  \<open>lang r\<close>; \<open>matchRe\<close> decides it by derivatives and \<open>matchRe_iff\<close> proves the decision
  procedure against the language.
\<close>

section \<open>Patterns and their languages\<close>

datatype rexp =
    Zero
  | One
  | Cls "(nat \<times> nat) list"
  | NCls "(nat \<times> nat) list"
  | Seq rexp rexp
  | Alt rexp rexp
  | Rep rexp nat "nat option"
  | Both rexp rexp
  | Neg rexp

definition inRanges :: "(nat \<times> nat) list \<Rightarrow> nat \<Rightarrow> bool" where
  "inRanges rs c = (\<exists>(l, h) \<in> set rs. l \<le> c \<and> c \<le> h)"

lemma inRanges_simps [simp]:
  "inRanges [] c = False"
  "inRanges ((l, h) # rs) c = ((l \<le> c \<and> c \<le> h) \<or> inRanges rs c)"
  by (auto simp: inRanges_def)

definition countIn :: "nat \<Rightarrow> nat \<Rightarrow> nat option \<Rightarrow> bool" where
  "countIn k m b = (m \<le> k \<and> (case b of None \<Rightarrow> True | Some n \<Rightarrow> k \<le> n))"

lemma countIn_simps [simp]:
  "countIn k m None = (m \<le> k)"
  "countIn k m (Some n) = (m \<le> k \<and> k \<le> n)"
  by (simp_all add: countIn_def)

primrec lang :: "rexp \<Rightarrow> jstr set" where
  "lang Zero = {}"
| "lang One = {[]}"
| "lang (Cls rs) = {[c] |c. inRanges rs c}"
| "lang (NCls rs) = {[c] |c. \<not> inRanges rs c}"
| "lang (Seq r s) = {u @ v |u v. u \<in> lang r \<and> v \<in> lang s}"
| "lang (Alt r s) = lang r \<union> lang s"
| "lang (Rep r m b) = {concat ws |ws. set ws \<subseteq> lang r \<and> countIn (length ws) m b}"
| "lang (Both r s) = lang r \<inter> lang s"
| "lang (Neg r) = - lang r"


section \<open>The matcher\<close>

fun mkSeq :: "rexp \<Rightarrow> rexp \<Rightarrow> rexp" where
  "mkSeq Zero r = Zero"
| "mkSeq One r = r"
| "mkSeq r s = (if s = Zero then Zero else Seq r s)"

fun mkAlt :: "rexp \<Rightarrow> rexp \<Rightarrow> rexp" where
  "mkAlt Zero r = r"
| "mkAlt r s = (if s = Zero then r else Alt r s)"

lemma lang_mkSeq [simp]: "lang (mkSeq r s) = lang (Seq r s)"
  by (cases r) auto

lemma lang_mkAlt [simp]: "lang (mkAlt r s) = lang (Alt r s)"
  by (cases r) auto

primrec nullable :: "rexp \<Rightarrow> bool" where
  "nullable Zero = False"
| "nullable One = True"
| "nullable (Cls rs) = False"
| "nullable (NCls rs) = False"
| "nullable (Seq r s) = (nullable r \<and> nullable s)"
| "nullable (Alt r s) = (nullable r \<or> nullable s)"
| "nullable (Rep r m b) = ((m = 0 \<or> nullable r) \<and> countIn m m b)"
| "nullable (Both r s) = (nullable r \<and> nullable s)"
| "nullable (Neg r) = (\<not> nullable r)"

primrec deriv :: "nat \<Rightarrow> rexp \<Rightarrow> rexp" where
  "deriv c Zero = Zero"
| "deriv c One = Zero"
| "deriv c (Cls rs) = (if inRanges rs c then One else Zero)"
| "deriv c (NCls rs) = (if inRanges rs c then Zero else One)"
| "deriv c (Seq r s) =
     (let d = mkSeq (deriv c r) s in if nullable r then mkAlt d (deriv c s) else d)"
| "deriv c (Alt r s) = mkAlt (deriv c r) (deriv c s)"
| "deriv c (Rep r m b) =
     (if b = Some 0 then Zero
      else mkSeq (deriv c r) (Rep r (m - 1) (map_option (\<lambda>n. n - 1) b)))"
| "deriv c (Both r s) = Both (deriv c r) (deriv c s)"
| "deriv c (Neg r) = Neg (deriv c r)"

fun matchRe :: "rexp \<Rightarrow> jstr \<Rightarrow> bool" where
  "matchRe r [] = nullable r"
| "matchRe r (c # cs) = matchRe (deriv c r) cs"

lemma Rep_empty: "[] \<in> lang (Rep r m b) \<longleftrightarrow> (m = 0 \<or> [] \<in> lang r) \<and> countIn m m b"
proof
  assume "[] \<in> lang (Rep r m b)"
  then obtain ws where ws: "concat ws = []" "set ws \<subseteq> lang r" "countIn (length ws) m b"
    by auto
  show "(m = 0 \<or> [] \<in> lang r) \<and> countIn m m b"
  proof
    show "m = 0 \<or> [] \<in> lang r"
      using ws by (cases ws) (auto simp: countIn_def)
    show "countIn m m b" using ws(3) by (auto simp: countIn_def split: option.splits)
  qed
next
  assume "(m = 0 \<or> [] \<in> lang r) \<and> countIn m m b"
  then have "[] = concat (replicate m ([] :: jstr)) \<and> set (replicate m []) \<subseteq> lang r \<and>
      countIn (length (replicate m ([] :: jstr))) m b"
    by auto
  then show "[] \<in> lang (Rep r m b)" unfolding lang.simps by blast
qed

lemma nullable_iff: "nullable r \<longleftrightarrow> [] \<in> lang r"
proof (induction r)
  case (Rep r m b)
  then show ?case by (simp only: nullable.simps Rep_empty)
qed auto

text \<open>In a repetition the first non-empty factor can be moved to the front: the empty
  factors before it go to the end, so the number of factors stays the same.\<close>

lemma concat_first_nonempty:
  assumes "concat ws = c # w"
  obtains v vs where "concat ((c # v) # vs) = c # w" "length ((c # v) # vs) = length ws"
    "set ((c # v) # vs) = set ws"
  using assms
proof (induction ws arbitrary: thesis)
  case (Cons u us)
  show ?case
  proof (cases u)
    case Nil
    with Cons.prems(2) have "concat us = c # w" by simp
    then obtain v vs where v: "concat ((c # v) # vs) = c # w" "length ((c # v) # vs) = length us"
      "set ((c # v) # vs) = set us"
      using Cons.IH by blast
    show ?thesis
      by (rule Cons.prems(1) [of v "vs @ [[]]"]) (use v Nil in auto)
  next
    case (Cons x v)
    with Cons.prems show ?thesis by auto
  qed
qed simp

lemma Rep_Cons:
  assumes "b \<noteq> Some 0"
  shows "c # w \<in> lang (Rep r m b) \<longleftrightarrow>
    (\<exists>u v. w = u @ v \<and> c # u \<in> lang r \<and> v \<in> lang (Rep r (m - 1) (map_option (\<lambda>n. n - 1) b)))"
proof
  assume "c # w \<in> lang (Rep r m b)"
  then obtain ws where ws: "concat ws = c # w" "set ws \<subseteq> lang r" "countIn (length ws) m b"
    by auto
  obtain v vs where v: "concat ((c # v) # vs) = c # w" "length ((c # v) # vs) = length ws"
    "set ((c # v) # vs) = set ws"
    using concat_first_nonempty [OF ws(1)] by blast
  have "c # v \<in> lang r" "set vs \<subseteq> lang r" "w = v @ concat vs" using v ws(2) by auto
  moreover have "countIn (length vs) (m - 1) (map_option (\<lambda>n. n - 1) b)"
    using ws(3) v(2) by (cases b) auto
  ultimately show "\<exists>u v. w = u @ v \<and> c # u \<in> lang r \<and>
      v \<in> lang (Rep r (m - 1) (map_option (\<lambda>n. n - 1) b))"
    by auto
next
  assume "\<exists>u v. w = u @ v \<and> c # u \<in> lang r \<and> v \<in> lang (Rep r (m - 1) (map_option (\<lambda>n. n - 1) b))"
  then obtain u vs where u: "w = u @ concat vs" "c # u \<in> lang r" "set vs \<subseteq> lang r"
    "countIn (length vs) (m - 1) (map_option (\<lambda>n. n - 1) b)"
    by auto
  have "countIn (length ((c # u) # vs)) m b" using u(4) assms by (cases b) auto
  moreover have "c # w = concat ((c # u) # vs)" "set ((c # u) # vs) \<subseteq> lang r" using u by auto
  ultimately show "c # w \<in> lang (Rep r m b)" unfolding lang.simps by blast
qed

lemma lang_Seq_Cons:
  "c # w \<in> lang (Seq r s) \<longleftrightarrow>
     (\<exists>u v. w = u @ v \<and> c # u \<in> lang r \<and> v \<in> lang s) \<or> ([] \<in> lang r \<and> c # w \<in> lang s)"
  by (auto simp: Cons_eq_append_conv)

lemma lang_deriv: "w \<in> lang (deriv c r) \<longleftrightarrow> c # w \<in> lang r"
proof (induction r arbitrary: w)
  case (Seq r s)
  show ?case
    by (simp only: lang_Seq_Cons deriv.simps Let_def)
      (auto simp: Seq.IH nullable_iff)
next
  case (Rep r m b)
  show ?case
  proof (cases "b = Some 0")
    case True
    then show ?thesis by auto
  next
    case False
    have "w \<in> lang (deriv c (Rep r m b)) \<longleftrightarrow>
        w \<in> lang (Seq (deriv c r) (Rep r (m - 1) (map_option (\<lambda>n. n - 1) b)))"
      by (simp only: deriv.simps False if_False lang_mkSeq)
    also have "\<dots> \<longleftrightarrow> c # w \<in> lang (Rep r m b)"
      unfolding Rep_Cons [OF False] lang.simps(5) using Rep.IH by blast
    finally show ?thesis .
  qed
qed auto

theorem matchRe_iff: "matchRe r w \<longleftrightarrow> w \<in> lang r"
  by (induction w arbitrary: r) (simp_all add: nullable_iff lang_deriv)


section \<open>Notation for the validators' patterns\<close>

abbreviation chr1 :: "nat \<Rightarrow> rexp" where "chr1 c \<equiv> Cls [(c, c)]"
abbreviation Star :: "rexp \<Rightarrow> rexp" where "Star r \<equiv> Rep r 0 None"
abbreviation Plus :: "rexp \<Rightarrow> rexp" where "Plus r \<equiv> Rep r 1 None"
abbreviation Opt :: "rexp \<Rightarrow> rexp" where "Opt r \<equiv> Rep r 0 (Some 1)"
abbreviation Times :: "nat \<Rightarrow> rexp \<Rightarrow> rexp" where "Times n r \<equiv> Rep r n (Some n)"
abbreviation Between :: "nat \<Rightarrow> nat \<Rightarrow> rexp \<Rightarrow> rexp" where "Between m n r \<equiv> Rep r m (Some n)"

primrec seqs :: "rexp list \<Rightarrow> rexp" where
  "seqs [] = One"
| "seqs (r # rs) = Seq r (seqs rs)"

primrec alts :: "rexp list \<Rightarrow> rexp" where
  "alts [] = Zero"
| "alts (r # rs) = Alt r (alts rs)"

definition lit :: "string \<Rightarrow> rexp" where
  "lit s = seqs (map (\<lambda>c. chr1 (of_char c)) s)"

abbreviation digitR :: "(nat \<times> nat) list" where "digitR \<equiv> [(48, 57)]"
abbreviation lowerR :: "(nat \<times> nat) list" where "lowerR \<equiv> [(97, 122)]"
abbreviation upperR :: "(nat \<times> nat) list" where "upperR \<equiv> [(65, 90)]"
abbreviation alnumR :: "(nat \<times> nat) list" where "alnumR \<equiv> [(97, 122), (65, 90), (48, 57)]"
abbreviation wordR :: "(nat \<times> nat) list" where
  "wordR \<equiv> [(97, 122), (65, 90), (48, 57), (95, 95)]"
abbreviation cjkR :: "(nat \<times> nat) list" where "cjkR \<equiv> [(19968, 40869)]"
abbreviation hexR :: "(nat \<times> nat) list" where "hexR \<equiv> [(48, 57), (97, 102), (65, 70)]"

text \<open>\<open>.\<close> is any unit but the line terminators; \<open>\S\<close> any unit but white space.\<close>

abbreviation dotC :: rexp where
  "dotC \<equiv> NCls [(10, 10), (13, 13), (8232, 8233)]"
abbreviation nonSpaceC :: rexp where
  "nonSpaceC \<equiv> NCls [(9, 13), (32, 32), (160, 160), (5760, 5760), (8192, 8202), (8232, 8233),
     (8239, 8239), (8287, 8287), (12288, 12288), (65279, 65279)]"

lemma concat_singletons: "set ws \<subseteq> {[c] |c. P c} \<Longrightarrow>
  length (concat ws) = length ws \<and> (\<forall>c \<in> set (concat ws). P c)"
  by (induction ws) auto

lemma lang_Rep_single:
  assumes "lang r = {[c] |c. P c}"
  shows "w \<in> lang (Rep r m b) \<longleftrightarrow> countIn (length w) m b \<and> (\<forall>c \<in> set w. P c)"
proof
  assume "w \<in> lang (Rep r m b)"
  then obtain ws where "w = concat ws" "set ws \<subseteq> {[c] |c. P c}" "countIn (length ws) m b"
    using assms by auto
  then show "countIn (length w) m b \<and> (\<forall>c \<in> set w. P c)"
    using concat_singletons [of ws P] by simp
next
  assume w: "countIn (length w) m b \<and> (\<forall>c \<in> set w. P c)"
  then have "w = concat (map (\<lambda>c. [c]) w)" "set (map (\<lambda>c. [c]) w) \<subseteq> lang r"
    "countIn (length (map (\<lambda>c. [c]) w)) m b"
    using assms by auto
  then show "w \<in> lang (Rep r m b)" unfolding lang.simps by blast
qed

lemma lang_Rep_Cls [simp]:
  "w \<in> lang (Rep (Cls rs) m b) \<longleftrightarrow> countIn (length w) m b \<and> (\<forall>c \<in> set w. inRanges rs c)"
  by (rule lang_Rep_single) simp

lemma lang_Rep_NCls [simp]:
  "w \<in> lang (Rep (NCls rs) m b) \<longleftrightarrow> countIn (length w) m b \<and> (\<forall>c \<in> set w. \<not> inRanges rs c)"
  by (rule lang_Rep_single) simp

lemma lang_Seq_Cls [simp]:
  "w \<in> lang (Seq (Cls rs) s) \<longleftrightarrow> (\<exists>c v. w = c # v \<and> inRanges rs c \<and> v \<in> lang s)"
proof
  assume "\<exists>c v. w = c # v \<and> inRanges rs c \<and> v \<in> lang s"
  then obtain c v where "w = [c] @ v" "[c] \<in> lang (Cls rs)" "v \<in> lang s" by auto
  then show "w \<in> lang (Seq (Cls rs) s)" unfolding lang.simps(5) by blast
qed auto

lemma lang_Seq_Cls_Cons [simp]:
  "c # w \<in> lang (Seq (Cls rs) s) \<longleftrightarrow> inRanges rs c \<and> w \<in> lang s"
  "[] \<notin> lang (Seq (Cls rs) s)"
  unfolding lang_Seq_Cls by auto

lemma lang_Cls_Cons [simp]:
  "c # w \<in> lang (Cls rs) \<longleftrightarrow> inRanges rs c \<and> w = []"
  "[] \<notin> lang (Cls rs)"
  by auto

lemma lang_Seq_One [simp]: "lang (Seq r One) = lang r"
  by simp

lemma lang_lit [simp]: "lang (lit s) = {units s}"
proof (induction s)
  case (Cons c s)
  then show ?case by (auto simp: lit_def units_def)
qed (simp add: lit_def)

lemma lang_alts: "w \<in> lang (alts rs) \<longleftrightarrow> (\<exists>r \<in> set rs. w \<in> lang r)"
  by (induction rs) auto

lemma lang_Opt [simp]: "w \<in> lang (Opt r) \<longleftrightarrow> w = [] \<or> w \<in> lang r"
proof
  assume "w \<in> lang (Opt r)"
  then obtain ws where "w = concat ws" "set ws \<subseteq> lang r" "length ws \<le> 1" by auto
  then show "w = [] \<or> w \<in> lang r" by (cases ws) auto
next
  assume "w = [] \<or> w \<in> lang r"
  then have "w = concat [] \<and> set [] \<subseteq> lang r \<and> countIn (length ([] :: jstr list)) 0 (Some 1) \<or>
      w = concat [w] \<and> set [w] \<subseteq> lang r \<and> countIn (length [w]) 0 (Some 1)"
    by auto
  then show "w \<in> lang (Opt r)" unfolding lang.simps by blast
qed

text \<open>Exact repetition unrolls one factor at a time.\<close>

lemma lang_Times_0 [simp]: "lang (Times 0 r) = {[]}"
  by auto

lemma lang_Times_Suc: "lang (Times (Suc n) r) = lang (Seq r (Times n r))"
proof (intro set_eqI iffI)
  fix w assume "w \<in> lang (Times (Suc n) r)"
  then obtain ws where "w = concat ws" "set ws \<subseteq> lang r" "length ws = Suc n" by auto
  then obtain v vs where "w = v @ concat vs" "v \<in> lang r" "set vs \<subseteq> lang r" "length vs = n"
    by (cases ws) auto
  then show "w \<in> lang (Seq r (Times n r))" by auto
next
  fix w assume "w \<in> lang (Seq r (Times n r))"
  then obtain v vs where "w = v @ concat vs" "v \<in> lang r" "set vs \<subseteq> lang r" "length vs = n" by auto
  then have "w = concat (v # vs)" "set (v # vs) \<subseteq> lang r"
    "countIn (length (v # vs)) (Suc n) (Some (Suc n))" by auto
  then show "w \<in> lang (Times (Suc n) r)" unfolding lang.simps by blast
qed

text \<open>From here on membership is rewritten by the lemmas above, not by unfolding the set
  comprehensions.\<close>

lemma lang_SeqI: "u \<in> lang r \<Longrightarrow> v \<in> lang s \<Longrightarrow> u @ v \<in> lang (Seq r s)"
  by auto

lemma lang_SeqE:
  assumes "w \<in> lang (Seq r s)"
  obtains u v where "w = u @ v" "u \<in> lang r" "v \<in> lang s"
  using assms by auto

lemmas lang_unfold = lang.simps(5,7)

declare lang_unfold [simp del]

end
