(* ===== verification/JS_Number.thy ===== *)
theory JS_Number
  imports Complex_Main Prelude
begin

text \<open>
  \<open>Number (s)\<close> of JavaScript on a string of code units: white space is trimmed, the empty
  string is 0, then a hexadecimal, octal or binary integer, or a signed decimal literal
  with an optional fraction and exponent; anything else is \<open>NaN\<close>. A literal's value is
  the exact rational it denotes, where the language rounds to the nearest double: the two
  agree on the integers up to 2 to the 53, the only ones the sources convert. Comparisons
  with \<open>NaN\<close> are false, as in the language.
\<close>

datatype jsnum = NaN | PosInf | NegInf | Fin rat

definition isSpaceU :: "nat \<Rightarrow> bool" where
  "isSpaceU n = ((9 \<le> n \<and> n \<le> 13) \<or> n = 32 \<or> n = 160 \<or> n = 5760 \<or> (8192 \<le> n \<and> n \<le> 8202) \<or>
     n = 8232 \<or> n = 8233 \<or> n = 8239 \<or> n = 8287 \<or> n = 12288 \<or> n = 65279)"

definition trimU :: "jstr \<Rightarrow> jstr" where
  "trimU s = rev (dropWhile isSpaceU (rev (dropWhile isSpaceU s)))"

definition isDigitU :: "nat \<Rightarrow> bool" where
  "isDigitU n = (48 \<le> n \<and> n \<le> 57)"

definition digitsVal :: "jstr \<Rightarrow> nat" where
  "digitsVal ds = digitVal (map (\<lambda>d. d - 48) ds)"

definition radixDigit :: "nat \<Rightarrow> nat option" where
  "radixDigit c = (if 48 \<le> c \<and> c \<le> 57 then Some (c - 48)
     else if 97 \<le> c \<and> c \<le> 122 then Some (c - 87)
     else if 65 \<le> c \<and> c \<le> 90 then Some (c - 55) else None)"

fun radixVal :: "nat \<Rightarrow> nat \<Rightarrow> jstr \<Rightarrow> nat option" where
  "radixVal b acc [] = Some acc"
| "radixVal b acc (c # cs) =
     (case radixDigit c of
        Some d \<Rightarrow> (if d < b then radixVal b (b * acc + d) cs else None)
      | None \<Rightarrow> None)"

definition radixLit :: "nat \<Rightarrow> jstr \<Rightarrow> jsnum" where
  "radixLit b s = (if s = [] then NaN
     else (case radixVal b 0 s of Some n \<Rightarrow> Fin (of_nat n) | None \<Rightarrow> NaN))"

text \<open>The exponent part: nothing, or \<open>e\<close>, an optional sign and at least one digit.\<close>

definition expPart :: "jstr \<Rightarrow> int option" where
  "expPart s = (case s of [] \<Rightarrow> Some 0
     | c # cs \<Rightarrow>
        (if c = 101 \<or> c = 69 then
           (let (sg, ds) = (case cs of
                 [] \<Rightarrow> (1, []) | d # ds' \<Rightarrow>
                   (if d = 45 then (-1, ds') else if d = 43 then (1, ds') else (1, cs)))
            in if ds \<noteq> [] \<and> list_all isDigitU ds then Some (sg * int (digitsVal ds)) else None)
         else None))"

definition scale10 :: "rat \<Rightarrow> int \<Rightarrow> rat" where
  "scale10 q e = (if 0 \<le> e then q * 10 ^ nat e else q / 10 ^ nat (- e))"

definition unsignedDec :: "jstr \<Rightarrow> rat option" where
  "unsignedDec s =
     (let ip = takeWhile isDigitU s; r = dropWhile isDigitU s;
          (fp, r2) = (case r of [] \<Rightarrow> ([], []) | c # cs \<Rightarrow>
             (if c = 46 then (takeWhile isDigitU cs, dropWhile isDigitU cs) else ([], r)))
      in if ip = [] \<and> fp = [] then None
         else map_option (\<lambda>e. scale10 (of_nat (digitsVal (ip @ fp))) (e - int (length fp)))
                (expPart r2))"

definition strNumeric :: "bool \<Rightarrow> jstr \<Rightarrow> jsnum" where
  "strNumeric neg s =
     (if s = units ''Infinity'' then (if neg then NegInf else PosInf)
      else (case unsignedDec s of None \<Rightarrow> NaN | Some q \<Rightarrow> Fin (if neg then - q else q)))"

definition toNumber :: "jstr \<Rightarrow> jsnum" where
  "toNumber str =
     (case trimU str of
        [] \<Rightarrow> Fin 0
      | c # cs \<Rightarrow>
         (if c = 45 then strNumeric True cs
          else if c = 43 then strNumeric False cs
          else (case cs of
                  x # xs \<Rightarrow>
                    (if c = 48 \<and> (x = 120 \<or> x = 88) then radixLit 16 xs
                     else if c = 48 \<and> (x = 111 \<or> x = 79) then radixLit 8 xs
                     else if c = 48 \<and> (x = 98 \<or> x = 66) then radixLit 2 xs
                     else strNumeric False (c # cs))
                | [] \<Rightarrow> strNumeric False [c])))"

fun ltNum :: "jsnum \<Rightarrow> jsnum \<Rightarrow> bool" where
  "ltNum (Fin a) (Fin b) = (a < b)"
| "ltNum NegInf (Fin b) = True"
| "ltNum (Fin a) PosInf = True"
| "ltNum NegInf PosInf = True"
| "ltNum _ _ = False"

fun leNum :: "jsnum \<Rightarrow> jsnum \<Rightarrow> bool" where
  "leNum (Fin a) (Fin b) = (a \<le> b)"
| "leNum NegInf (Fin b) = True"
| "leNum (Fin a) PosInf = True"
| "leNum NegInf PosInf = True"
| "leNum PosInf PosInf = True"
| "leNum NegInf NegInf = True"
| "leNum _ _ = False"

text \<open>\<open>decUnits n\<close> is \<open>String (n)\<close> as code units.\<close>

definition decUnits :: "nat \<Rightarrow> jstr" where
  "decUnits n = map (\<lambda>d. 48 + d) (digits n)"

lemma decUnits_digit: "c \<in> set (decUnits n) \<Longrightarrow> isDigitU c"
  by (auto simp: decUnits_def isDigitU_def dest!: digits_less)

lemma decUnits_nonempty [simp]: "decUnits n \<noteq> []"
  by (simp add: decUnits_def)

lemma decUnits_val [simp]: "digitsVal (decUnits n) = n"
  by (simp add: decUnits_def digitsVal_def comp_def)

lemma units_decimal: "units (decimal n) = decUnits n"
proof -
  have "of_char (char_of (48 + d)) = 48 + (d :: nat)" if "d \<in> set (digits n)" for d
    using digits_less [OF that] by (simp add: of_char_of)
  then show ?thesis by (simp add: units_def decimal_def decUnits_def)
qed

lemma digit_not_space: "isDigitU c \<Longrightarrow> \<not> isSpaceU c"
  by (auto simp: isDigitU_def isSpaceU_def)

lemma trimU_digits: "\<forall>c \<in> set s. isDigitU c \<Longrightarrow> trimU s = s"
proof -
  assume "\<forall>c \<in> set s. isDigitU c"
  then have "\<forall>c \<in> set s. \<not> isSpaceU c" using digit_not_space by blast
  then show ?thesis by (simp add: trimU_def dropWhile_none)
qed

lemma takeWhile_all: "\<forall>x \<in> set xs. P x \<Longrightarrow> takeWhile P xs = xs"
  by (induction xs) auto

lemma unsignedDec_digits:
  assumes "s \<noteq> []" "\<forall>c \<in> set s. isDigitU c"
  shows "unsignedDec s = Some (of_nat (digitsVal s))"
proof -
  have tw: "takeWhile isDigitU s = s" using assms(2) by (rule takeWhile_all)
  have dw: "dropWhile isDigitU s = []" using assms(2) by simp
  show ?thesis
    unfolding unsignedDec_def Let_def tw dw
    using assms(1) by (simp add: expPart_def scale10_def)
qed

text \<open>A string of decimal digits converts to its value.\<close>

lemma toNumber_digits:
  assumes "s \<noteq> []" "\<forall>c \<in> set s. isDigitU c"
  shows "toNumber s = Fin (of_nat (digitsVal s))"
proof -
  obtain c cs where s: "s = c # cs" using assms(1) by (cases s) auto
  have no_inf: "s \<noteq> units ''Infinity''"
    using assms by (auto simp: s units_def isDigitU_def)
  have num: "strNumeric False s = Fin (of_nat (digitsVal s))"
    using no_inf by (simp add: strNumeric_def unsignedDec_digits [OF assms])
  have "isDigitU c" using assms(2) s by simp
  then have c: "c \<noteq> 45" "c \<noteq> 43" by (auto simp: isDigitU_def)
  have t: "trimU s = s" using assms(2) by (rule trimU_digits)
  show ?thesis
  proof (cases cs)
    case Nil
    with c num s show ?thesis unfolding toNumber_def t by simp
  next
    case (Cons x xs)
    then have "isDigitU x" using assms(2) s by simp
    with c num s Cons show ?thesis unfolding toNumber_def t by (auto simp: isDigitU_def)
  qed
qed

lemma toNumber_decUnits [simp]: "toNumber (decUnits n) = Fin (of_nat n)"
  using toNumber_digits [of "decUnits n"] decUnits_digit by auto

end
