(* ===== verification/Form_Rules.thy ===== *)
theory Form_Rules
  imports Reg_Exp JS_Number
begin

text \<open>
  The form validators of \<open>frontend/src/global/form-rules.ts\<close>. A validator receives the
  field's value, which may be missing (\<open>undefined\<close> or \<open>null\<close>, here \<open>None\<close>), and calls its
  callback once: with no argument (\<open>Pass\<close>) or with an error whose message is a
  translation key and its arguments (\<open>Reject\<close>). Reading a property of a missing value
  raises (\<open>Crash\<close>). The patterns are transcribed as \<open>rexp\<close> terms; most validators differ
  only in the pattern, the key and what a blank value gives, which \<open>patternRule\<close> abstracts.
  The \<open>Rules\<close> table is transcribed with its triggers, bounds and validators.
\<close>

section \<open>Validators\<close>

datatype callback = Pass | Reject string "string list" | Crash

type_synonym validator = "jstr option \<Rightarrow> callback"

text \<open>Characters as a class: \<open>chars ''_-''\<close> is \<open>[_-]\<close>.\<close>

definition chars :: "string \<Rightarrow> (nat \<times> nat) list" where
  "chars s = map (\<lambda>c. (of_char c, of_char c)) s"

lemma chars_simps [simp]:
  "chars [] = []" "chars (c # s) = (of_char c, of_char c) # chars s"
  by (simp_all add: chars_def)

lemma inRanges_append [simp]: "inRanges (rs @ ss) c = (inRanges rs c \<or> inRanges ss c)"
  by (auto simp: inRanges_def)

lemma inRanges_chars: "inRanges (chars s) c = (c \<in> set (units s))"
  by (induction s) (auto simp: units_def)

text \<open>The common shape: \<open>if (value is blank) onEmpty else if (!reg.test (value) && value !== '')
  onFail else callback ()\<close>.\<close>

definition patternRule :: "callback \<Rightarrow> rexp \<Rightarrow> callback \<Rightarrow> validator" where
  "patternRule onEmpty reg onFail v =
     (case v of None \<Rightarrow> onEmpty
      | Some w \<Rightarrow> (if w = [] then onEmpty
                   else if \<not> matchRe reg w \<and> w \<noteq> [] then onFail else Pass))"

definition checkNoSpace :: validator where
  "checkNoSpace v = (case v of None \<Rightarrow> Crash
     | Some w \<Rightarrow> if 32 \<in> set w then Reject ''setting.noSpace'' [] else Pass)"

subsection \<open>Addresses\<close>

definition octetRe :: rexp where
  "octetRe = alts [Between 1 2 (Cls digitR), seqs [chr1 49, Cls digitR, Cls digitR],
     seqs [chr1 50, Cls [(48, 52)], Cls digitR], seqs [chr1 50, chr1 53, Cls [(48, 53)]]]"

definition ipRe :: rexp where
  "ipRe = seqs [octetRe, chr1 46, octetRe, chr1 46, octetRe, chr1 46, octetRe]"

definition checkIp :: validator where
  "checkIp = patternRule (Reject ''commons.rule.requiredInput'' []) ipRe
     (Reject ''commons.rule.ip'' [])"

definition checkIpv4 :: validator where
  "checkIpv4 = patternRule Pass ipRe (Reject ''commons.rule.ip'' [])"

definition IPv4SegmentFormat :: rexp where
  "IPv4SegmentFormat = alts [Cls digitR, seqs [Cls [(49, 57)], Cls digitR],
     seqs [chr1 49, Cls digitR, Cls digitR], seqs [chr1 50, Cls [(48, 52)], Cls digitR],
     seqs [chr1 50, chr1 53, Cls [(48, 53)]]]"

definition IPv4AddressFormat :: rexp where
  "IPv4AddressFormat = Seq (Times 3 (Seq IPv4SegmentFormat (chr1 46))) IPv4SegmentFormat"

definition IPv6SegmentFormat :: rexp where
  "IPv6SegmentFormat = Between 1 4 (Cls hexR)"

text \<open>The nine branches of the IPv6 pattern, then the optional zone suffix.\<close>

definition groupColon :: "nat \<Rightarrow> rexp" where
  "groupColon n = Times n (Seq IPv6SegmentFormat (chr1 58))"

definition colonGroups :: "nat \<Rightarrow> nat \<Rightarrow> rexp" where
  "colonGroups m n = Between m n (Seq (chr1 58) IPv6SegmentFormat)"

definition IPv6AddressRegExp :: rexp where
  "IPv6AddressRegExp = Seq (alts [
     Seq (groupColon 7) (alts [IPv6SegmentFormat, chr1 58]),
     Seq (groupColon 6) (alts [IPv4AddressFormat, Seq (chr1 58) IPv6SegmentFormat, chr1 58]),
     Seq (groupColon 5) (alts [Seq (chr1 58) IPv4AddressFormat, colonGroups 1 2, chr1 58]),
     Seq (groupColon 4) (alts [seqs [colonGroups 0 1, chr1 58, IPv4AddressFormat], colonGroups 1 3, chr1 58]),
     Seq (groupColon 3) (alts [seqs [colonGroups 0 2, chr1 58, IPv4AddressFormat], colonGroups 1 4, chr1 58]),
     Seq (groupColon 2) (alts [seqs [colonGroups 0 3, chr1 58, IPv4AddressFormat], colonGroups 1 5, chr1 58]),
     Seq (groupColon 1) (alts [seqs [colonGroups 0 4, chr1 58, IPv4AddressFormat], colonGroups 1 6, chr1 58]),
     Seq (chr1 58) (alts [seqs [colonGroups 0 5, chr1 58, IPv4AddressFormat], colonGroups 1 7, chr1 58])])
   (Opt (Seq (chr1 37) (Plus (Cls (digitR @ lowerR @ upperR @ chars ''-.:'')))))"

definition checkIpV6 :: validator where
  "checkIpV6 = patternRule (Reject ''commons.rule.requiredInput'' []) IPv6AddressRegExp
     (Reject ''commons.rule.ip'' [])"

text \<open>\<open>/^(?=^.{3,255}$)[a-zA-Z0-9][-a-zA-Z0-9]{0,62}(\.[a-zA-Z0-9][-a-zA-Z0-9]{0,62})+$/\<close>\<close>

definition hostLabelRe :: rexp where
  "hostLabelRe = Seq (Cls alnumR) (Between 0 62 (Cls (chars ''-'' @ alnumR)))"

definition regHost :: rexp where
  "regHost = Both (Between 3 255 dotC) (Seq hostLabelRe (Plus (Seq (chr1 46) hostLabelRe)))"

definition checkIpV4V6OrDomain :: validator where
  "checkIpV4V6OrDomain v =
     (case v of None \<Rightarrow> Reject ''commons.rule.requiredInput'' []
      | Some w \<Rightarrow> (if w = [] then Reject ''commons.rule.requiredInput'' []
         else if \<not> matchRe regHost w \<and> \<not> matchRe IPv4AddressFormat w \<and>
                 \<not> matchRe IPv6AddressRegExp w \<and> w \<noteq> [] then Reject ''commons.rule.ip'' []
         else Pass))"

definition cidrOctetRe :: rexp where
  "cidrOctetRe = alts [seqs [chr1 50, chr1 53, Cls [(48, 53)]], seqs [chr1 50, Cls [(48, 52)], Cls digitR],
     seqs [Opt (Cls [(48, 49)]), Cls digitR, Opt (Cls digitR)]]"

definition ipv4Regex :: rexp where
  "ipv4Regex = Seq (Times 3 (Seq cidrOctetRe (chr1 46))) cidrOctetRe"

definition mappedOctetRe :: rexp where
  "mappedOctetRe = alts [seqs [chr1 50, chr1 53, Cls [(48, 53)]],
     Seq (Opt (alts [Seq (chr1 50) (Cls [(48, 52)]), Seq (Opt (chr1 49)) (Cls digitR)])) (Cls digitR)]"

definition mappedIPv4Re :: rexp where
  "mappedIPv4Re = Seq (Times 3 (Seq mappedOctetRe (chr1 46))) mappedOctetRe"

definition groupsColon :: "nat \<Rightarrow> rexp" where
  "groupsColon n = Between 1 n (Seq IPv6SegmentFormat (chr1 58))"

definition ipv6Regex :: rexp where
  "ipv6Regex = alts [
     Seq (groupColon 7) IPv6SegmentFormat,
     Seq (groupsColon 7) (chr1 58),
     seqs [groupsColon 6, chr1 58, IPv6SegmentFormat],
     Seq (groupsColon 5) (colonGroups 1 2),
     Seq (groupsColon 4) (colonGroups 1 3),
     Seq (groupsColon 3) (colonGroups 1 4),
     Seq (groupsColon 2) (colonGroups 1 5),
     seqs [IPv6SegmentFormat, chr1 58, colonGroups 1 6],
     Seq (chr1 58) (alts [colonGroups 1 7, chr1 58]),
     seqs [lit ''fe80:'', Between 0 4 (Seq (chr1 58) (Between 0 4 (Cls hexR))), chr1 37,
       Plus (Cls (digitR @ lowerR @ upperR))],
     seqs [lit ''::'', Opt (seqs [lit ''ffff'', Opt (Seq (chr1 58) (Between 1 4 (chr1 48))), chr1 58]),
       mappedIPv4Re],
     seqs [groupsColon 4, chr1 58, mappedIPv4Re]]"

definition dnsLabelRe :: rexp where
  "dnsLabelRe = Seq (Cls alnumR) (Opt (Seq (Between 0 61 (Cls (alnumR @ chars ''-''))) (Cls alnumR)))"

definition domainRegex :: rexp where
  "domainRegex = seqs [Opt (lit ''*.''), Plus (Seq dnsLabelRe (chr1 46)), Cls alnumR,
     Between 0 61 (Cls (alnumR @ chars ''-'')), Cls alnumR]"

definition checkDomainOrIP :: validator where
  "checkDomainOrIP v =
     (case v of None \<Rightarrow> Pass
      | Some w \<Rightarrow> (if w = [] then Pass
         else if matchRe ipv4Regex w \<or> matchRe ipv6Regex w \<or> matchRe domainRegex w then Pass
         else Reject ''commons.rule.domain'' []))"

definition checkHost :: validator where
  "checkHost v =
     (case v of None \<Rightarrow> Reject ''commons.rule.requiredInput'' []
      | Some w \<Rightarrow> (if w = [] then Reject ''commons.rule.requiredInput'' []
         else if \<not> matchRe ipRe w \<and> \<not> matchRe regHost w then Reject ''commons.rule.host'' []
         else Pass))"

definition illegalUnits :: "nat list" where
  "illegalUnits = units ''&|;$'' @ [39, 96] @ units ''()><''"

definition checkIllegal :: validator where
  "checkIllegal v =
     (case v of None \<Rightarrow> Reject ''commons.rule.requiredInput'' []
      | Some w \<Rightarrow> (if w = [] then Reject ''commons.rule.requiredInput'' []
         else if list_ex (\<lambda>c. c \<in> set w) illegalUnits then Reject ''commons.rule.illegalInput'' []
         else Pass))"

subsection \<open>Names and passwords\<close>

text \<open>\<open>/^(?![\d]+$)(?![a-zA-Z]+$)(?![^\da-zA-Z]+$).{8,30}$/\<close>\<close>

definition passwordRe :: rexp where
  "passwordRe = Both (Neg (Plus (Cls digitR))) (Both (Neg (Plus (Cls (lowerR @ upperR))))
     (Both (Neg (Plus (NCls (digitR @ lowerR @ upperR)))) (Between 8 30 dotC)))"

definition complexityPassword :: validator where
  "complexityPassword = patternRule (Reject ''commons.rule.complexityPassword'' []) passwordRe
     (Reject ''commons.rule.complexityPassword'' [])"

definition checkName :: validator where
  "checkName = patternRule (Reject ''commons.rule.commonName'' [])
     (Seq (Times 1 (Cls (alnumR @ cjkR))) (Between 0 127 (Cls (alnumR @ chars ''_.'' @ cjkR @ chars ''-''))))
     (Reject ''commons.rule.commonName'' [])"

definition checkUserName :: validator where
  "checkUserName = patternRule (Reject ''commons.rule.userName'' [])
     (Between 3 30 (Cls (alnumR @ chars ''_'' @ cjkR))) (Reject ''commons.rule.userName'' [])"

definition checkSimpleName :: validator where
  "checkSimpleName = patternRule (Reject ''commons.rule.simpleName'' [])
     (Seq (Times 1 (Cls alnumR)) (Between 2 29 (Cls (alnumR @ chars ''_''))))
     (Reject ''commons.rule.simpleName'' [])"

definition checkSimplePassword :: validator where
  "checkSimplePassword = patternRule (Reject ''commons.rule.simplePassword'' [])
     (Seq (Times 1 (Cls alnumR)) (Between 0 29 (Cls (alnumR @ chars ''_''))))
     (Reject ''commons.rule.simplePassword'' [])"

definition checkAuthBasicPassword :: validator where
  "checkAuthBasicPassword = patternRule (Reject ''commons.rule.authBasicPassword'' [])
     (Between 1 72 (Cls (alnumR @ chars ''_-.@$!%*?&''))) (Reject ''commons.rule.authBasicPassword'' [])"

definition checkDBName :: validator where
  "checkDBName = patternRule (Reject ''commons.rule.dbName'' [])
     (Seq (Times 1 (Cls (alnumR @ cjkR))) (Between 0 63 (Cls (alnumR @ chars ''_.'' @ cjkR @ chars ''-''))))
     (Reject ''commons.rule.dbName'' [])"

definition checkComposeName :: validator where
  "checkComposeName = patternRule (Reject ''commons.rule.composeName'' [])
     (Seq (Times 1 (Cls (lowerR @ digitR))) (Between 0 255 (Cls (lowerR @ digitR @ chars ''_-''))))
     (Reject ''commons.rule.composeName'' [])"

definition checkImageName :: validator where
  "checkImageName = patternRule (Reject ''commons.rule.imageName'' [])
     (Seq (Times 1 (Cls alnumR)) (Between 0 255 (Cls (lowerR @ chars '':@'' @ upperR @ digitR @ chars ''_/.-''))))
     (Reject ''commons.rule.imageName'' [])"

definition checkVolumeName :: validator where
  "checkVolumeName = patternRule (Reject ''commons.rule.volumeName'' [])
     (Seq (Times 1 (Cls alnumR)) (Between 1 30 (Cls (alnumR @ chars ''_.-''))))
     (Reject ''commons.rule.volumeName'' [])"

text \<open>The argument shown to the user lists the characters a Linux name must not contain.\<close>

definition linuxNameArg :: string where
  "linuxNameArg = ''/'' @ [char_of (92 :: nat)] @ '':*?'' @ [char_of (39 :: nat), char_of (34 :: nat)] @ ''()<>|''"

definition linuxNameRe :: rexp where
  "linuxNameRe = Between 1 128 (NCls (chars ''/'' @ [(92, 92), (34, 34), (39, 39)] @ chars ''|<>()?*''))"

definition checkLinuxName :: validator where
  "checkLinuxName = patternRule (Reject ''commons.rule.linuxName'' [linuxNameArg]) linuxNameRe
     (Reject ''commons.rule.linuxName'' [linuxNameArg])"

definition checkSupervisorName :: validator where
  "checkSupervisorName = patternRule (Reject ''commons.rule.supervisorName'' [])
     (Seq (Times 1 (Cls alnumR)) (Between 0 127 (Cls (alnumR @ chars ''_-''))))
     (Reject ''commons.rule.supervisorName'' [])"

definition checkDatabaseName :: validator where
  "checkDatabaseName = patternRule (Reject ''commons.rule.databaseName'' [])
     (Seq (Times 1 (Cls alnumR)) (Between 0 30 (Cls (alnumR @ chars ''_''))))
     (Reject ''commons.rule.databaseName'' [])"

definition anyUnits :: rexp where
  "anyUnits = Star (NCls [])"

definition appNameRe :: rexp where
  "appNameRe = Both (Neg (Seq (Cls (chars ''_-'')) anyUnits))
     (Seq (Between 1 29 (Cls (alnumR @ chars ''_-''))) (Cls alnumR))"

definition checkAppName :: validator where
  "checkAppName = patternRule (Reject ''commons.rule.appName'' []) appNameRe (Reject ''commons.rule.appName'' [])"

definition aliasRe :: rexp where
  "aliasRe = Both (Neg (Seq (Cls (chars ''-_'')) anyUnits))
     (Seq (Between 0 126 (Cls (alnumR @ chars ''._-''))) (Cls (alnumR @ chars ''.'')))"

definition checkAlias :: validator where
  "checkAlias v = (case v of None \<Rightarrow> Reject ''commons.rule.alias'' []
     | Some w \<Rightarrow> (if w = [] then Reject ''commons.rule.alias'' []
        else if \<not> matchRe aliasRe w then Reject ''commons.rule.alias'' [] else Pass))"

definition checkVMName :: validator where
  "checkVMName = patternRule (Reject ''commons.rule.vmName'' [])
     (Seq (Cls alnumR) (Between 0 63 (Cls (alnumR @ chars ''._-'')))) (Reject ''commons.rule.vmName'' [])"

definition checkVMNetwork :: validator where
  "checkVMNetwork = patternRule (Reject ''commons.rule.vmNetwork'' [])
     (Seq (Cls alnumR) (Between 0 63 (Cls (alnumR @ chars ''._:-'')))) (Reject ''commons.rule.vmNetwork'' [])"

definition domainLabel :: "nat \<Rightarrow> string \<Rightarrow> rexp" where
  "domainLabel n extra = Between 1 n (Cls (wordR @ cjkR @ chars extra))"

definition checkDomainRe :: rexp where
  "checkDomainRe = Seq (Between 1 10 (Seq (domainLabel 100 ''-*'') (chr1 46)))
     (alts [domainLabel 24 ''-'', seqs [domainLabel 24 ''-'', chr1 46, domainLabel 24 ''-'']])"

definition checkDomain :: validator where
  "checkDomain = patternRule (Reject ''commons.rule.domain'' []) checkDomainRe (Reject ''commons.rule.domain'' [])"

definition checkDomainWithPort :: validator where
  "checkDomainWithPort = patternRule (Reject ''commons.rule.domain'' [])
     (Seq checkDomainRe (Opt (Seq (chr1 58) (Between 1 5 (Cls digitR))))) (Reject ''commons.rule.domain'' [])"

subsection \<open>Numbers, ports and parameters\<close>

definition checkIntegerNumber :: validator where
  "checkIntegerNumber = patternRule (Reject ''commons.rule.integer'' [])
     (Seq (Cls [(49, 57)]) (Star (Cls digitR))) (Reject ''commons.rule.integer'' [])"

definition checkIntegerNumberWith0 :: validator where
  "checkIntegerNumberWith0 = patternRule (Reject ''commons.rule.integer'' [])
     (Star (Cls digitR)) (Reject ''commons.rule.integer'' [])"

definition checkFloatNumber :: validator where
  "checkFloatNumber = patternRule (Reject ''commons.rule.integer'' [])
     (Seq (Plus (Cls digitR)) (Opt (Seq (chr1 46) (Plus (Cls digitR))))) (Reject ''commons.rule.number'' [])"

definition checkParamCommon :: validator where
  "checkParamCommon = patternRule (Reject ''commons.rule.paramName'' [])
     (Seq (Times 1 (Cls alnumR)) (Between 1 63 (Cls (alnumR @ chars ''._-''))))
     (Reject ''commons.rule.paramName'' [])"

definition checkParamComplexity :: validator where
  "checkParamComplexity = patternRule (Reject ''commons.rule.paramComplexity'' [''.%@!~_-''])
     (seqs [Times 1 (Cls alnumR), Between 4 126 (Cls (alnumR @ chars ''.%@!~_-'')), Times 1 (Cls alnumR)])
     (Reject ''commons.rule.paramComplexity'' [''.%@!~_-''])"

text \<open>The alternatives \<open>[1-9]\d{0,3}\<close>, \<open>[1-5]\d{4}\<close>, \<open>6[0-4]\d{3}\<close>, \<open>65[0-4]\d{2}\<close>, \<open>655[0-2]\d\<close>,
  \<open>6553[0-5]\<close> of a port number.\<close>

definition portRe :: rexp where
  "portRe = alts [Seq (Cls [(49, 57)]) (Between 0 3 (Cls digitR)),
     Seq (Cls [(49, 53)]) (Times 4 (Cls digitR)),
     seqs [chr1 54, Cls [(48, 52)], Times 3 (Cls digitR)],
     seqs [chr1 54, chr1 53, Cls [(48, 52)], Times 2 (Cls digitR)],
     seqs [chr1 54, chr1 53, chr1 53, Cls [(48, 50)], Cls digitR],
     seqs [chr1 54, chr1 53, chr1 53, chr1 51, Cls [(48, 53)]]]"

definition urlAndPortRe :: rexp where
  "urlAndPortRe = seqs [Opt (seqs [lit ''http'', Opt (lit ''s''), lit ''://'']),
     alts [lit ''localhost'', Seq (Star (Seq (Plus (Cls (alnumR @ chars ''_-''))) (chr1 46)))
       (Plus (Cls (alnumR @ chars ''_-'')))],
     Opt (Seq (chr1 58) portRe),
     Opt (Seq (chr1 47) (Star nonSpaceC))]"

definition checkParamUrlAndPort :: validator where
  "checkParamUrlAndPort = patternRule (Reject ''commons.rule.paramUrlAndPort'' []) urlAndPortRe
     (Reject ''commons.rule.paramUrlAndPort'' [])"

definition checkPort :: validator where
  "checkPort = patternRule (Reject ''commons.rule.port'' []) portRe (Reject ''commons.rule.port'' [])"

definition checkDoc :: validator where
  "checkDoc = patternRule (Reject ''commons.rule.nginxDoc'' [])
     (Plus (Cls (alnumR @ [(10, 10)] @ chars ''./_-''))) (Reject ''commons.rule.nginxDoc'' [])"

definition checkContainerName :: validator where
  "checkContainerName = patternRule Pass
     (Seq (Times 1 (Cls alnumR)) (Between 1 127 (Cls (alnumR @ chars ''_.-''))))
     (Reject ''commons.rule.containerName'' [])"

definition checkDisableFunctions :: validator where
  "checkDisableFunctions = patternRule (Reject ''commons.rule.disableFunction'' [])
     (Plus (Cls (lowerR @ upperR @ chars ''_,''))) (Reject ''commons.rule.disableFunction'' [])"

definition checkLeechExts :: validator where
  "checkLeechExts = patternRule (Reject ''commons.rule.leechExts'' [])
     (Plus (Cls (alnumR @ chars '',''))) (Reject ''commons.rule.leechExts'' [])"

definition checkParamSimple :: validator where
  "checkParamSimple = patternRule Pass
     (Seq (Cls (lowerR @ digitR)) (Between 1 128 (Cls (lowerR @ digitR)))) (Reject ''commons.rule.paramSimple'' [])"

definition checkFilePermission :: validator where
  "checkFilePermission = patternRule (Reject ''commons.rule.filePermission'' [])
     (Between 3 4 (Cls [(48, 55)])) (Reject ''commons.rule.filePermission'' [])"

definition checkPHPExtensions :: validator where
  "checkPHPExtensions = patternRule (Reject ''commons.rule.phpExtension'' [])
     (Plus (Cls (lowerR @ digitR @ chars '',_''))) (Reject ''commons.rule.phpExtension'' [])"

definition checkHttpOrHttps :: validator where
  "checkHttpOrHttps = patternRule (Reject ''commons.rule.paramHttp'' [])
     (seqs [alts [lit ''http'', lit ''https''], lit ''://'', anyUnits]) (Reject ''commons.rule.paramHttp'' [])"

definition checkPhone :: validator where
  "checkPhone = patternRule Pass
     (seqs [Opt (Seq (alts [chr1 43, lit ''00'']) (lit ''86'')), chr1 49, Cls [(51, 57)], Times 9 (Cls digitR)])
     (Reject ''commons.rule.phone'' [])"

definition strictOctetRe :: rexp where
  "strictOctetRe = alts [seqs [chr1 50, chr1 53, Cls [(48, 53)]], seqs [chr1 50, Cls [(48, 52)], Cls digitR],
     seqs [chr1 49, Cls digitR, Cls digitR], Seq (Opt (Cls [(49, 57)])) (Cls digitR)]"

definition checkIpv4orV6 :: validator where
  "checkIpv4orV6 v =
     (case v of None \<Rightarrow> Pass
      | Some w \<Rightarrow> (if w = [] then Pass
         else if \<not> matchRe (Seq strictOctetRe (Times 3 (Seq (chr1 46) strictOctetRe))) w \<and>
           \<not> matchRe (alts [Seq (groupColon 7) IPv6SegmentFormat, Seq (groupsColon 7) (chr1 58),
               Seq (chr1 58) (colonGroups 1 7)]) w
         then Reject ''commons.rule.ip'' [] else Pass))"

section \<open>Parameterised rules and the table\<close>

record form_item_rule =
  required :: "bool option"
  trigger :: "string list"
  rmin :: "int option"
  rmax :: "int option"
  rtype :: "string option"
  message :: "(string \<times> string list) option"
  rvalidator :: "validator option"

definition noRule :: form_item_rule where
  "noRule = \<lparr>required = None, trigger = [], rmin = None, rmax = None, rtype = None,
     message = None, rvalidator = None\<rparr>"

definition intStr :: "int \<Rightarrow> string" where
  "intStr i = (if i < 0 then ''-'' @ decimal (nat (- i)) else decimal (nat i))"

definition checkNumberRange :: "int \<Rightarrow> int \<Rightarrow> form_item_rule" where
  "checkNumberRange mn mx = noRule\<lparr>required := Some False, trigger := [''blur''], rmin := Some mn,
     rmax := Some mx, rtype := Some ''number'',
     message := Some (''commons.rule.numberRange'', [intStr mn, intStr mx])\<rparr>"

definition floatRangeValidator :: "int \<Rightarrow> int \<Rightarrow> validator" where
  "floatRangeValidator mn mx v =
     (case v of None \<Rightarrow> Reject ''commons.rule.disableFunction'' []
      | Some w \<Rightarrow> (if w = [] then Reject ''commons.rule.disableFunction'' []
         else if (ltNum (toNumber w) (Fin (of_int mn)) \<or> ltNum (Fin (of_int mx)) (toNumber w)) \<and> w \<noteq> []
         then Reject ''commons.rule.disableFunction'' [] else Pass))"

definition checkFloatNumberRange :: "int \<Rightarrow> int \<Rightarrow> form_item_rule" where
  "checkFloatNumberRange mn mx = noRule\<lparr>required := Some False, trigger := [''blur''],
     rvalidator := Some (floatRangeValidator mn mx),
     message := Some (''commons.rule.numberRange'', [intStr mn, intStr mx])\<rparr>"

definition maxLengthValidator :: "nat \<Rightarrow> validator" where
  "maxLengthValidator maxLength v =
     (case v of None \<Rightarrow> Pass
      | Some w \<Rightarrow> (if w = [] then Pass
           else if length w > maxLength then Reject ''commons.rule.maxLength'' [decimal maxLength]
           else Pass))"

definition checkMaxLength :: "nat \<Rightarrow> form_item_rule" where
  "checkMaxLength maxLength = noRule\<lparr>required := Some False, trigger := [''blur''], rtype := Some ''string'',
     rvalidator := Some (maxLengthValidator maxLength)\<rparr>"

text \<open>The fields the interface \<open>CommonRule\<close> declares, and the table in source order.\<close>

definition CommonRule :: "string list" where
  "CommonRule = [''requiredInput'', ''requiredSelect'', ''requiredSelectBusiness'', ''noSpace'', ''name'', ''userName'', ''simpleName'',
     ''simplePassword'', ''dbName'', ''imageName'', ''composeName'', ''volumeName'', ''linuxName'', ''password'',
     ''email'', ''number'', ''integerNumber'', ''integerNumberWith0'', ''floatNumber'', ''ip'', ''ipV6'',
     ''ipv4'', ''ipV4V6OrDomain'', ''host'', ''illegal'', ''port'', ''domain'', ''databaseName'',
     ''nginxDoc'', ''appName'', ''containerName'', ''disabledFunctions'', ''leechExts'', ''domainWithPort'', ''filePermission'',
     ''phpExtensions'', ''supervisorName'', ''domainOrIP'', ''authBasicPassword'', ''ipv4orV6'', ''alias'', ''paramCommon'',
     ''paramComplexity'', ''paramPort'', ''paramExtUrl'', ''paramSimple'', ''paramHttp'', ''phone'', ''vmName'',
     ''vmNetwork'']"

definition Rules1 :: "(string \<times> form_item_rule) list" where
  "Rules1 = [
    (''requiredInput'', noRule\<lparr>required := Some True, trigger := [''blur''], message := Some (''commons.rule.requiredInput'', [])\<rparr>),
    (''requiredSelect'', noRule\<lparr>required := Some True, trigger := [''change''], message := Some (''commons.rule.requiredSelect'', [])\<rparr>),
    (''requiredSelectBusiness'', noRule\<lparr>required := Some True, trigger := [''change''], rmin := Some 1, rmax := Some 65535, rtype := Some ''number'', message := Some (''commons.rule.requiredSelect'', [])\<rparr>),
    (''noSpace'', noRule\<lparr>required := Some True, trigger := [''blur''], rvalidator := Some checkNoSpace\<rparr>),
    (''simpleName'', noRule\<lparr>required := Some True, trigger := [''blur''], rvalidator := Some checkSimpleName\<rparr>),
    (''simplePassword'', noRule\<lparr>required := Some True, trigger := [''blur''], rvalidator := Some checkSimplePassword\<rparr>),
    (''dbName'', noRule\<lparr>required := Some True, trigger := [''blur''], rvalidator := Some checkDBName\<rparr>),
    (''composeName'', noRule\<lparr>required := Some True, trigger := [''blur''], rvalidator := Some checkComposeName\<rparr>),
    (''imageName'', noRule\<lparr>required := Some True, trigger := [''blur''], rvalidator := Some checkImageName\<rparr>),
    (''volumeName'', noRule\<lparr>required := Some True, trigger := [''blur''], rvalidator := Some checkVolumeName\<rparr>),
    (''name'', noRule\<lparr>required := Some True, trigger := [''blur''], rvalidator := Some checkName\<rparr>),
    (''userName'', noRule\<lparr>required := Some True, trigger := [''blur''], rvalidator := Some checkUserName\<rparr>),
    (''linuxName'', noRule\<lparr>required := Some True, trigger := [''blur''], rvalidator := Some checkLinuxName\<rparr>),
    (''databaseName'', noRule\<lparr>required := Some True, trigger := [''blur''], rvalidator := Some checkDatabaseName\<rparr>),
    (''password'', noRule\<lparr>trigger := [''blur''], rvalidator := Some complexityPassword\<rparr>),
    (''email'', noRule\<lparr>required := Some True, trigger := [''blur''], rtype := Some ''email'', message := Some (''commons.rule.email'', [])\<rparr>),
    (''number'', noRule\<lparr>required := Some True, trigger := [''blur''], rmin := Some 0, rtype := Some ''number'', message := Some (''commons.rule.number'', [])\<rparr>),
    (''integerNumber'', noRule\<lparr>required := Some True, trigger := [''blur''], rvalidator := Some checkIntegerNumber\<rparr>),
    (''integerNumberWith0'', noRule\<lparr>required := Some True, trigger := [''blur''], rvalidator := Some checkIntegerNumberWith0\<rparr>),
    (''floatNumber'', noRule\<lparr>required := Some True, trigger := [''blur''], rmin := Some 0, message := Some (''commons.rule.number'', []), rvalidator := Some checkFloatNumber\<rparr>),
    (''ip'', noRule\<lparr>required := Some True, trigger := [''blur''], rvalidator := Some checkIp\<rparr>),
    (''ipV6'', noRule\<lparr>required := Some True, trigger := [''blur''], rvalidator := Some checkIpV6\<rparr>),
    (''ipV4V6OrDomain'', noRule\<lparr>required := Some True, trigger := [''blur''], rvalidator := Some checkIpV4V6OrDomain\<rparr>)]"

definition Rules2 :: "(string \<times> form_item_rule) list" where
  "Rules2 = [
    (''host'', noRule\<lparr>required := Some True, trigger := [''blur''], rvalidator := Some checkHost\<rparr>),
    (''illegal'', noRule\<lparr>required := Some True, trigger := [''blur''], rvalidator := Some checkIllegal\<rparr>),
    (''port'', noRule\<lparr>required := Some True, trigger := [''blur''], rmin := Some 1, rmax := Some 65535, rtype := Some ''number'', message := Some (''commons.rule.port'', [])\<rparr>),
    (''domain'', noRule\<lparr>required := Some True, trigger := [''blur''], rvalidator := Some checkDomain\<rparr>),
    (''paramCommon'', noRule\<lparr>required := Some True, trigger := [''blur''], rvalidator := Some checkParamCommon\<rparr>),
    (''paramComplexity'', noRule\<lparr>required := Some True, trigger := [''blur''], rvalidator := Some checkParamComplexity\<rparr>),
    (''paramPort'', noRule\<lparr>required := Some True, trigger := [''blur''], rvalidator := Some checkPort\<rparr>),
    (''paramExtUrl'', noRule\<lparr>required := Some True, trigger := [''blur''], rvalidator := Some checkParamUrlAndPort\<rparr>),
    (''nginxDoc'', noRule\<lparr>required := Some True, trigger := [''blur''], rvalidator := Some checkDoc\<rparr>),
    (''appName'', noRule\<lparr>required := Some True, trigger := [''blur''], rvalidator := Some checkAppName\<rparr>),
    (''containerName'', noRule\<lparr>required := Some False, trigger := [''blur''], rvalidator := Some checkContainerName\<rparr>),
    (''disabledFunctions'', noRule\<lparr>required := Some True, trigger := [''blur''], rvalidator := Some checkDisableFunctions\<rparr>),
    (''leechExts'', noRule\<lparr>required := Some True, trigger := [''blur''], rvalidator := Some checkLeechExts\<rparr>),
    (''supervisorName'', noRule\<lparr>required := Some True, trigger := [''blur''], rvalidator := Some checkSupervisorName\<rparr>),
    (''paramSimple'', noRule\<lparr>required := Some True, trigger := [''blur''], rvalidator := Some checkParamSimple\<rparr>),
    (''domainWithPort'', noRule\<lparr>required := Some True, trigger := [''blur''], rvalidator := Some checkDomainWithPort\<rparr>),
    (''filePermission'', noRule\<lparr>required := Some True, trigger := [''blur''], rvalidator := Some checkFilePermission\<rparr>),
    (''phpExtensions'', noRule\<lparr>required := Some True, trigger := [''blur''], rvalidator := Some checkPHPExtensions\<rparr>),
    (''paramHttp'', noRule\<lparr>required := Some True, trigger := [''blur''], rvalidator := Some checkHttpOrHttps\<rparr>),
    (''ipv4'', noRule\<lparr>trigger := [''blur''], rvalidator := Some checkIpv4\<rparr>),
    (''domainOrIP'', noRule\<lparr>trigger := [''blur''], rvalidator := Some checkDomainOrIP\<rparr>),
    (''phone'', noRule\<lparr>trigger := [''blur''], rvalidator := Some checkPhone\<rparr>),
    (''authBasicPassword'', noRule\<lparr>trigger := [''blur''], rvalidator := Some checkAuthBasicPassword\<rparr>),
    (''ipv4orV6'', noRule\<lparr>trigger := [''blur''], rvalidator := Some checkIpv4orV6\<rparr>),
    (''alias'', noRule\<lparr>required := Some True, trigger := [''blur''], rvalidator := Some checkAlias\<rparr>),
    (''vmName'', noRule\<lparr>required := Some True, trigger := [''blur''], rvalidator := Some checkVMName\<rparr>),
    (''vmNetwork'', noRule\<lparr>required := Some True, trigger := [''blur'', ''change''], rvalidator := Some checkVMNetwork\<rparr>)]"

definition Rules :: "(string \<times> form_item_rule) list" where
  "Rules = Rules1 @ Rules2"

end
