(* ===== verification/Form_Rules_Correct.thy ===== *)
theory Form_Rules_Correct
  imports Form_Rules
begin

text \<open>
  What the validators of \<open>Form_Rules\<close> accept, against definitions that do not mention
  patterns: ports are the decimal numerals of 1 to 65535, IPv4 addresses are four octets
  between dots, passwords mix at least two kinds of characters, and so on; and which
  required rules of the \<open>Rules\<close> table let a blank text pass. The contract shared by the
  validators is the locale \<open>pattern_rule\<close>; \<open>required_rule\<close> extends it with the refusal of
  blank values. Both are interpreted on the validators of the source.
\<close>

section \<open>The contract of a pattern validator\<close>

locale pattern_rule =
  fixes rule :: validator and reg :: rexp and onEmpty :: callback and onFail :: callback
  assumes rule_None: "rule None = onEmpty"
    and rule_Nil: "rule (Some []) = onEmpty"
    and rule_value: "w \<noteq> [] \<Longrightarrow> rule (Some w) = (if w \<in> lang reg then Pass else onFail)"
    and onFail_fails: "onFail \<noteq> Pass"
begin

lemma value_passes: "w \<noteq> [] \<Longrightarrow> rule (Some w) = Pass \<longleftrightarrow> w \<in> lang reg"
  by (simp add: rule_value onFail_fails)

lemma only_three_outcomes: "rule v = Pass \<or> rule v = onEmpty \<or> rule v = onFail"
proof (cases v)
  case None
  then show ?thesis by (simp add: rule_None)
next
  case (Some w)
  then show ?thesis by (cases "w = []") (simp_all add: rule_Nil rule_value)
qed

end

locale required_rule = pattern_rule +
  assumes onEmpty_fails: "onEmpty \<noteq> Pass"
begin

lemma passes_iff: "rule v = Pass \<longleftrightarrow> (\<exists>w. v = Some w \<and> w \<noteq> [] \<and> w \<in> lang reg)"
proof (cases v)
  case None
  then show ?thesis by (simp add: rule_None onEmpty_fails)
next
  case (Some w)
  then show ?thesis
    by (cases "w = []") (simp_all add: rule_Nil onEmpty_fails value_passes)
qed

lemma refuses_blank: "rule None \<noteq> Pass \<and> rule (Some []) \<noteq> Pass"
  by (simp add: rule_None rule_Nil onEmpty_fails)

end

lemma pattern_rule_patternRule: "f \<noteq> Pass \<Longrightarrow> pattern_rule (patternRule e r f) r e f"
  by unfold_locales (auto simp: patternRule_def matchRe_iff)

lemma required_rule_patternRule:
  "e \<noteq> Pass \<Longrightarrow> f \<noteq> Pass \<Longrightarrow> required_rule (patternRule e r f) r e f"
  by (intro required_rule.intro pattern_rule_patternRule) (auto intro: required_rule_axioms.intro)

interpretation port: required_rule checkPort portRe
    "Reject ''commons.rule.port'' []" "Reject ''commons.rule.port'' []"
  unfolding checkPort_def by (rule required_rule_patternRule) auto

interpretation ip: required_rule checkIp ipRe
    "Reject ''commons.rule.requiredInput'' []" "Reject ''commons.rule.ip'' []"
  unfolding checkIp_def by (rule required_rule_patternRule) auto

interpretation ipv4: pattern_rule checkIpv4 ipRe Pass "Reject ''commons.rule.ip'' []"
  unfolding checkIpv4_def by (rule pattern_rule_patternRule) auto

interpretation ipv6: required_rule checkIpV6 IPv6AddressRegExp
    "Reject ''commons.rule.requiredInput'' []" "Reject ''commons.rule.ip'' []"
  unfolding checkIpV6_def by (rule required_rule_patternRule) auto

interpretation password: required_rule complexityPassword passwordRe
    "Reject ''commons.rule.complexityPassword'' []" "Reject ''commons.rule.complexityPassword'' []"
  unfolding complexityPassword_def by (rule required_rule_patternRule) auto

interpretation appName: required_rule checkAppName appNameRe
    "Reject ''commons.rule.appName'' []" "Reject ''commons.rule.appName'' []"
  unfolding checkAppName_def by (rule required_rule_patternRule) auto

interpretation linuxName: required_rule checkLinuxName linuxNameRe
    "Reject ''commons.rule.linuxName'' [linuxNameArg]" "Reject ''commons.rule.linuxName'' [linuxNameArg]"
  unfolding checkLinuxName_def by (rule required_rule_patternRule) auto


section \<open>Ports\<close>

lemma isDigit_inRanges: "inRanges digitR c \<longleftrightarrow> isDigitU c"
  by (simp add: isDigitU_def)

lemma digitVal_Cons: "digitVal (d # ds) = d * 10 ^ length ds + digitVal ds"
proof (induction ds rule: rev_induct)
  case (snoc e es)
  have "digitVal (d # es @ [e]) = 10 * digitVal (d # es) + e"
    by (metis append_Cons digitVal_snoc)
  with snoc show ?case by (simp add: algebra_simps)
qed (simp add: digitVal_def)

lemma digitsVal_Cons: "digitsVal (c # cs) = (c - 48) * 10 ^ length cs + digitsVal cs"
  by (simp add: digitsVal_def digitVal_Cons)

lemma digitsVal_Nil [simp]: "digitsVal [] = 0"
  by (simp add: digitsVal_def)

lemma digitsVal_ge:
  assumes "w \<noteq> []" "48 < hd w"
  shows "10 ^ (length w - 1) \<le> digitsVal w"
proof -
  obtain c cs where "w = c # cs" using assms(1) by (cases w) auto
  with assms(2) show ?thesis by (simp add: digitsVal_Cons trans_le_add1)
qed

lemma digitsVal_pos: "w \<noteq> [] \<Longrightarrow> 48 < hd w \<Longrightarrow> 1 \<le> digitsVal w"
  using le_trans [OF _ digitsVal_ge] by fastforce

text \<open>Strings of length up to five, written out.\<close>

lemma length_le_5_cases:
  assumes "length w \<le> 5" "w \<noteq> []"
  obtains a where "w = [a]" | a b where "w = [a, b]" | a b c where "w = [a, b, c]"
  | a b c d where "w = [a, b, c, d]" | a b c d e where "w = [a, b, c, d, e]"
proof -
  from assms(2) have "length w \<noteq> 0" by simp
  with assms(1) consider "length w = 1" | "length w = 2" | "length w = 3" | "length w = 4" | "length w = 5"
    by linarith
  then show ?thesis
    by cases (auto simp: numeral_eq_Suc length_Suc_conv intro: that)
qed

lemma portRe_length: "w \<in> lang portRe \<Longrightarrow> w \<noteq> [] \<and> length w \<le> 5"
  by (auto simp: portRe_def)

text \<open>With the digits as numbers the pattern is linear arithmetic.\<close>

lemma portRe_5_complete:
  assumes "a < 10" "b < 10" "c < 10" "d < 10" "e < 10" "0 < a" "digitVal [a, b, c, d, e] \<le> 65535"
  shows "map ((+) 48) [a, b, c, d, e] \<in> lang portRe"
proof -
  have v: "a * 10000 + (b * 1000 + (c * 100 + (d * 10 + e))) \<le> 65535"
    using assms(7) by (simp add: digitVal_Cons)
  consider "a \<le> 5" | "a = 6" "b \<le> 4" | "a = 6" "b = 5" "c \<le> 4" | "a = 6" "b = 5" "c = 5" "d \<le> 2"
    | "a = 6" "b = 5" "c = 5" "d = 3" "e \<le> 5"
    using assms(1-6) v by linarith
  then show ?thesis using assms(1-6) by cases (simp_all add: portRe_def)
qed

lemma portRe_5_sound:
  "map ((+) 48) [a, b, c, d, e] \<in> lang portRe \<Longrightarrow>
   list_all (\<lambda>d. d < 10) [a, b, c, d, e] \<and> 0 < a \<and> digitVal [a, b, c, d, e] \<le> 65535"
  by (simp add: portRe_def digitVal_Cons) (elim disjE conjE; intro conjI; linarith)

lemma portRe_short:
  assumes "length ds \<le> 5" "ds \<noteq> []"
  shows "map ((+) 48) ds \<in> lang portRe \<longleftrightarrow>
    list_all (\<lambda>d. d < 10) ds \<and> 0 < hd ds \<and> digitVal ds \<le> 65535"
  using length_le_5_cases [OF assms]
proof cases
  case (5 a b c d e)
  then show ?thesis using portRe_5_complete [of a b c d e] portRe_5_sound [of a b c d e] by auto
qed (simp_all add: portRe_def digitVal_Cons, linarith+)

lemma units_of_digits: "list_all isDigitU w \<Longrightarrow> w = map ((+) 48) (map (\<lambda>d. d - 48) w)"
  by (induction w) (auto simp: isDigitU_def)

lemma portRe_digits: "w \<in> lang portRe \<Longrightarrow> list_all isDigitU w"
  by (auto simp: portRe_def list_all_iff isDigitU_def)

lemma portRe_iff:
  "w \<in> lang portRe \<longleftrightarrow> w \<noteq> [] \<and> list_all isDigitU w \<and> 48 < hd w \<and> digitsVal w \<le> 65535"
proof (cases "list_all isDigitU w")
  case digits: True
  define ds where "ds = map (\<lambda>d. d - 48) w"
  have w: "w = map ((+) 48) ds" using units_of_digits [OF digits] by (simp only: ds_def)
  have ds: "list_all (\<lambda>d. d < 10) ds" "w = [] \<longleftrightarrow> ds = []" "w \<noteq> [] \<Longrightarrow> 48 < hd w \<longleftrightarrow> 0 < hd ds"
    "digitsVal w = digitVal ds"
    using digits by (auto simp: ds_def list_all_iff isDigitU_def digitsVal_def hd_map)
  show ?thesis
  proof (cases "w \<noteq> [] \<and> length w \<le> 5")
    case True
    then show ?thesis using portRe_short [of ds] ds digits w by auto
  next
    case False
    have "\<not> digitsVal w \<le> 65535" if "w \<noteq> []" "48 < hd w"
    proof -
      from False that have "5 \<le> length w - 1" by auto
      then have "(10 :: nat) ^ 5 \<le> 10 ^ (length w - 1)" by (rule power_increasing) simp
      with digitsVal_ge [OF that] show ?thesis by simp
    qed
    with False show ?thesis using portRe_length [of w] by blast
  qed
qed (use portRe_digits in blast)

lemma decUnits_of_val:
  assumes "w \<noteq> []" "list_all isDigitU w" "48 < hd w"
  shows "decUnits (digitsVal w) = w"
proof -
  have "digits (digitVal (map (\<lambda>d. d - 48) w)) = map (\<lambda>d. d - 48) w"
    using assms by (intro digits_of_val) (auto simp: list_all_iff isDigitU_def hd_map)
  moreover have "map (\<lambda>d. 48 + (d - 48)) w = w"
    using assms(2) by (intro map_idI) (auto simp: list_all_iff isDigitU_def)
  ultimately show ?thesis by (simp add: decUnits_def digitsVal_def comp_def)
qed

lemma hd_decUnits: "0 < n \<Longrightarrow> 48 < hd (decUnits n)"
  by (simp add: decUnits_def hd_map hd_digits)

text \<open>C40. A port field passes exactly when it holds the decimal numeral, without sign,
  blanks or leading zeros, of a number from 1 to 65535.\<close>

theorem checkPort_iff:
  "checkPort v = Pass \<longleftrightarrow> (\<exists>n. 1 \<le> n \<and> n \<le> 65535 \<and> v = Some (decUnits n))"
proof
  assume "checkPort v = Pass"
  then obtain w where w: "v = Some w" "w \<in> lang portRe" by (auto simp: port.passes_iff)
  then have "w = decUnits (digitsVal w)" "digitsVal w \<le> 65535" "1 \<le> digitsVal w"
    using decUnits_of_val [of w] digitsVal_pos [of w] by (auto simp: portRe_iff)
  with w(1) show "\<exists>n. 1 \<le> n \<and> n \<le> 65535 \<and> v = Some (decUnits n)" by blast
next
  assume "\<exists>n. 1 \<le> n \<and> n \<le> 65535 \<and> v = Some (decUnits n)"
  then show "checkPort v = Pass"
    by (auto simp: port.passes_iff portRe_iff list_all_iff hd_decUnits dest: decUnits_digit)
qed


section \<open>IPv4 addresses\<close>

text \<open>A decimal octet as \<open>checkIp\<close> reads it: one to three digits, at most 255, and three
  digits only without a leading zero.\<close>

definition octet :: "jstr \<Rightarrow> bool" where
  "octet w \<longleftrightarrow> w \<noteq> [] \<and> list_all isDigitU w \<and> length w \<le> 3 \<and> digitsVal w \<le> 255 \<and>
     (length w = 3 \<longrightarrow> 48 < hd w)"

lemma length_le_3_cases:
  assumes "length w \<le> 3" "w \<noteq> []"
  obtains a where "w = [a]" | a b where "w = [a, b]" | a b c where "w = [a, b, c]"
proof -
  from assms(1) have "length w \<le> 5" by simp
  from length_le_5_cases [OF this assms(2)] show ?thesis
    using assms(1) by cases (auto intro: that)
qed

lemma octetRe_length: "w \<in> lang octetRe \<Longrightarrow> w \<noteq> [] \<and> length w \<le> 3 \<and> list_all isDigitU w"
  by (auto simp: octetRe_def list_all_iff isDigitU_def)

lemma octetRe_3:
  "map ((+) 48) [a, b, c] \<in> lang octetRe \<longleftrightarrow>
     a < 10 \<and> b < 10 \<and> c < 10 \<and> 0 < a \<and> digitVal [a, b, c] \<le> 255"
proof
  assume "map ((+) 48) [a, b, c] \<in> lang octetRe"
  then show "a < 10 \<and> b < 10 \<and> c < 10 \<and> 0 < a \<and> digitVal [a, b, c] \<le> 255"
    by (simp add: octetRe_def digitVal_Cons) (elim disjE conjE; intro conjI; linarith)
next
  assume r: "a < 10 \<and> b < 10 \<and> c < 10 \<and> 0 < a \<and> digitVal [a, b, c] \<le> 255"
  then have "a * 100 + (b * 10 + c) \<le> 255" by (simp add: digitVal_Cons)
  with r consider "a = 1" | "a = 2" "b \<le> 4" | "a = 2" "b = 5" "c \<le> 5" by linarith
  then show "map ((+) 48) [a, b, c] \<in> lang octetRe"
    using r by cases (simp_all add: octetRe_def)
qed

lemma octetRe_iff: "w \<in> lang octetRe \<longleftrightarrow> octet w"
proof (cases "w \<noteq> [] \<and> length w \<le> 3 \<and> list_all isDigitU w")
  case False
  then show ?thesis using octetRe_length [of w] by (auto simp: octet_def)
next
  case True
  define ds where "ds = map (\<lambda>d. d - 48) w"
  have w: "w = map ((+) 48) ds" using units_of_digits [of w] True by (simp only: ds_def)
  have ds: "length ds \<le> 3" "ds \<noteq> []" "list_all (\<lambda>d. d < 10) ds" "digitsVal w = digitVal ds"
    using True by (auto simp: ds_def list_all_iff isDigitU_def digitsVal_def)
  show ?thesis using length_le_3_cases [OF ds(1,2)]
  proof cases
    case (3 a b c)
    then show ?thesis using octetRe_3 [of a b c] True ds w by (auto simp: octet_def)
  qed (use True ds w in \<open>auto simp: octet_def octetRe_def digitVal_Cons\<close>)
qed

lemma octet_no_dot: "octet w \<Longrightarrow> 46 \<notin> set w"
  by (auto simp: octet_def list_all_iff isDigitU_def)

lemma ipRe_iff:
  "w \<in> lang ipRe \<longleftrightarrow>
     (\<exists>a b c d. w = a @ 46 # b @ 46 # c @ 46 # d \<and> octet a \<and> octet b \<and> octet c \<and> octet d)"
  (is "_ \<longleftrightarrow> ?R w")
proof
  assume "w \<in> lang ipRe"
  then show "?R w"
    unfolding ipRe_def seqs.simps lang_Seq_One
    by (elim lang_SeqE, clarsimp simp: octetRe_iff)
      (intro exI conjI, (rule refl | assumption)+)
next
  assume "?R w"
  then obtain a b c d where w: "w = a @ 46 # b @ 46 # c @ 46 # d" "octet a" "octet b" "octet c" "octet d"
    by blast
  then show "w \<in> lang ipRe"
    unfolding ipRe_def seqs.simps lang_Seq_One w(1)
    by (simp add: lang_SeqI octetRe_iff)
qed

lemma ipRe_split:
  "w \<in> lang ipRe \<longleftrightarrow> length (splitOn 46 w) = 4 \<and> list_all octet (splitOn 46 w)"
proof
  assume "w \<in> lang ipRe"
  then obtain a b c d where w: "w = a @ 46 # b @ 46 # c @ 46 # d" "octet a" "octet b" "octet c" "octet d"
    by (auto simp: ipRe_iff)
  then have "splitOn 46 w = [a, b, c, d]" by (simp add: splitOn_append octet_no_dot)
  with w show "length (splitOn 46 w) = 4 \<and> list_all octet (splitOn 46 w)" by simp
next
  assume s: "length (splitOn 46 w) = 4 \<and> list_all octet (splitOn 46 w)"
  then obtain a b c d where p: "splitOn 46 w = [a, b, c, d]"
    by (auto simp: numeral_eq_Suc length_Suc_conv)
  then have "w = joinWith [46] [a, b, c, d]" by (metis join_splitOn)
  with s p show "w \<in> lang ipRe" unfolding ipRe_iff by (auto intro!: exI)
qed

text \<open>An IPv4 field passes exactly when it splits at the dots into four octets.\<close>

theorem checkIp_iff:
  "checkIp v = Pass \<longleftrightarrow>
     (\<exists>w. v = Some w \<and> length (splitOn 46 w) = 4 \<and> list_all octet (splitOn 46 w))"
proof -
  have "w \<noteq> []" if "length (splitOn 46 w) = 4" for w :: jstr
    using that by (cases w) simp_all
  then show ?thesis unfolding ip.passes_iff ipRe_split by blast
qed

lemma octet_decUnits: "octet (decUnits n) \<longleftrightarrow> n \<le> 255"
proof (cases "n = 0")
  case True
  then show ?thesis by (simp add: octet_def decUnits_def digits.simps isDigitU_def digitsVal_def digitVal_def)
next
  case False
  have "length (decUnits n) \<le> 3" if "n \<le> 255"
  proof (rule ccontr)
    assume "\<not> length (decUnits n) \<le> 3"
    then have "3 \<le> length (decUnits n) - 1" by simp
    then have "(10 :: nat) ^ 3 \<le> 10 ^ (length (decUnits n) - 1)" by (rule power_increasing) simp
    with digitsVal_ge [of "decUnits n"] hd_decUnits [of n] False that show False by simp
  qed
  with False show ?thesis
    by (auto simp: octet_def list_all_iff hd_decUnits dest: decUnits_digit)
qed

text \<open>The dotted decimal notation of any four numbers passes exactly when each of them
  fits in a byte.\<close>

theorem checkIp_dotted:
  "checkIp (Some (joinWith [46] (map decUnits [a, b, c, d]))) = Pass \<longleftrightarrow>
     a \<le> 255 \<and> b \<le> 255 \<and> c \<le> 255 \<and> d \<le> 255"
proof -
  have "46 \<notin> set (decUnits n)" for n
    using decUnits_digit [of 46 n] by (auto simp: isDigitU_def)
  then have "splitOn 46 (joinWith [46] (map decUnits [a, b, c, d])) = map decUnits [a, b, c, d]"
    by (intro splitOn_join) auto
  then show ?thesis by (simp add: ip.passes_iff ipRe_split octet_decUnits)
qed


section \<open>Passwords and names\<close>

definition isLetterU :: "nat \<Rightarrow> bool" where
  "isLetterU c = ((97 \<le> c \<and> c \<le> 122) \<or> (65 \<le> c \<and> c \<le> 90))"

definition lineTerminator :: "nat \<Rightarrow> bool" where
  "lineTerminator c = (c = 10 \<or> c = 13 \<or> c = 8232 \<or> c = 8233)"

abbreviation isAlnumU :: "nat \<Rightarrow> bool" where
  "isAlnumU c \<equiv> isDigitU c \<or> isLetterU c"

lemma inRanges_alnum: "inRanges alnumR c \<longleftrightarrow> isAlnumU c"
  by (auto simp: isDigitU_def isLetterU_def)

lemma passwordRe_iff:
  "w \<in> lang passwordRe \<longleftrightarrow>
     8 \<le> length w \<and> length w \<le> 30 \<and> list_all (\<lambda>c. \<not> lineTerminator c) w \<and>
     list_ex (\<lambda>c. \<not> isDigitU c) w \<and> list_ex (\<lambda>c. \<not> isLetterU c) w \<and> list_ex isAlnumU w"
proof (cases "w = []")
  case False
  have "\<not> inRanges [(10, 10), (13, 13), (8232, 8233)] c \<longleftrightarrow> \<not> lineTerminator c" for c
    by (auto simp: lineTerminator_def)
  moreover have "inRanges digitR c \<longleftrightarrow> isDigitU c" "inRanges (lowerR @ upperR) c \<longleftrightarrow> isLetterU c"
    "inRanges (digitR @ lowerR @ upperR) c \<longleftrightarrow> isAlnumU c" for c
    by (auto simp: isDigitU_def isLetterU_def)
  moreover have "1 \<le> length w" using False by (cases w) auto
  ultimately show ?thesis
    by (simp only: passwordRe_def lang.simps(8,9) lang_Rep_Cls lang_Rep_NCls countIn_simps Int_iff Compl_iff
        list_all_iff list_ex_iff) blast
qed (simp add: passwordRe_def)

text \<open>A password passes the complexity rule exactly when it has 8 to 30 characters, no
  line terminator, and is neither all digits, nor all letters, nor free of both.\<close>

theorem complexityPassword_iff:
  "complexityPassword v = Pass \<longleftrightarrow>
     (\<exists>w. v = Some w \<and> 8 \<le> length w \<and> length w \<le> 30 \<and> list_all (\<lambda>c. \<not> lineTerminator c) w \<and>
        list_ex (\<lambda>c. \<not> isDigitU c) w \<and> list_ex (\<lambda>c. \<not> isLetterU c) w \<and> list_ex isAlnumU w)"
  unfolding password.passes_iff passwordRe_iff by force

definition isDash :: "nat \<Rightarrow> bool" where
  "isDash c = (c = 95 \<or> c = 45)"

lemma lang_anyUnits [simp]: "w \<in> lang anyUnits"
  by (simp add: anyUnits_def)

lemma starts_with_Cls: "w \<in> lang (Seq (Cls rs) anyUnits) \<longleftrightarrow> w \<noteq> [] \<and> inRanges rs (hd w)"
  by (cases w) auto

lemma Seq_last_Cls:
  "w \<in> lang (Seq (Rep (Cls rs) m b) (Cls ss)) \<longleftrightarrow>
     w \<noteq> [] \<and> countIn (length w - 1) m b \<and> list_all (inRanges rs) (butlast w) \<and> inRanges ss (last w)"
proof
  assume "w \<in> lang (Seq (Rep (Cls rs) m b) (Cls ss))"
  then show "w \<noteq> [] \<and> countIn (length w - 1) m b \<and> list_all (inRanges rs) (butlast w) \<and> inRanges ss (last w)"
    by (elim lang_SeqE) (auto simp: list_all_iff)
next
  assume w: "w \<noteq> [] \<and> countIn (length w - 1) m b \<and> list_all (inRanges rs) (butlast w) \<and> inRanges ss (last w)"
  then have "butlast w @ [last w] \<in> lang (Seq (Rep (Cls rs) m b) (Cls ss))"
    by (intro lang_SeqI) (auto simp: list_all_iff)
  with w show "w \<in> lang (Seq (Rep (Cls rs) m b) (Cls ss))" by simp
qed

lemma appNameRe_iff:
  "w \<in> lang appNameRe \<longleftrightarrow>
     2 \<le> length w \<and> length w \<le> 30 \<and> list_all (\<lambda>c. isAlnumU c \<or> isDash c) w \<and>
     isAlnumU (hd w) \<and> isAlnumU (last w)"
proof -
  have r: "inRanges alnumR c \<longleftrightarrow> isAlnumU c" "inRanges (alnumR @ chars ''_-'') c \<longleftrightarrow> isAlnumU c \<or> isDash c"
    "inRanges (chars ''_-'') c \<longleftrightarrow> isDash c" "isAlnumU c \<Longrightarrow> \<not> isDash c" for c
    by (auto simp: isDigitU_def isLetterU_def isDash_def)
  have "w \<in> lang appNameRe \<longleftrightarrow> w \<noteq> [] \<and> \<not> isDash (hd w) \<and> 1 \<le> length w - 1 \<and> length w - 1 \<le> 29 \<and>
      list_all (\<lambda>c. isAlnumU c \<or> isDash c) (butlast w) \<and> isAlnumU (last w)"
    unfolding appNameRe_def lang.simps(8,9) Int_iff Compl_iff starts_with_Cls Seq_last_Cls countIn_simps
    by (auto simp only: list_all_iff r)
  also have "\<dots> \<longleftrightarrow> 2 \<le> length w \<and> length w \<le> 30 \<and> list_all (\<lambda>c. isAlnumU c \<or> isDash c) w \<and>
     isAlnumU (hd w) \<and> isAlnumU (last w)"
  proof (cases "2 \<le> length w")
    case True
    then obtain c cs where w: "w = c # cs" "cs \<noteq> []" by (cases w) (auto simp: neq_Nil_conv Suc_le_eq)
    then show ?thesis using r(4) by (cases cs rule: rev_cases) auto
  qed (cases w; auto)
  finally show ?thesis .
qed

text \<open>An application name passes exactly when it has 2 to 30 characters, all of them
  letters, digits, underscores or hyphens, and starts and ends with a letter or digit.\<close>

theorem checkAppName_iff:
  "checkAppName v = Pass \<longleftrightarrow>
     (\<exists>w. v = Some w \<and> 2 \<le> length w \<and> length w \<le> 30 \<and> list_all (\<lambda>c. isAlnumU c \<or> isDash c) w \<and>
        isAlnumU (hd w) \<and> isAlnumU (last w))"
  unfolding appName.passes_iff appNameRe_iff by force

text \<open>Of the characters the message of the Linux name rule lists as forbidden, the
  pattern refuses all but the colon.\<close>

theorem checkLinuxName_colon:
  "filter (\<lambda>c. checkLinuxName (Some [c]) = Pass) (units linuxNameArg) = units '':''"
  by code_simp


section \<open>Ranges\<close>

text \<open>The float range rule compares decimal numerals with its bounds.\<close>

theorem floatRange_decimal:
  "floatRangeValidator mn mx (Some (decUnits n)) = Pass \<longleftrightarrow> mn \<le> int n \<and> int n \<le> mx"
proof -
  have "rat_of_nat n < rat_of_int mn \<longleftrightarrow> int n < mn" "rat_of_int mx < rat_of_nat n \<longleftrightarrow> mx < int n"
    by (metis of_int_less_iff of_int_of_nat_eq)+
  then show ?thesis by (auto simp: floatRangeValidator_def)
qed

text \<open>Text that is not a number passes the float range rule, whatever its bounds.\<close>

theorem floatRange_not_a_number:
  "floatRangeValidator mn mx (Some (units ''12abc'')) = Pass"
proof -
  have "toNumber (units ''12abc'') = NaN"
    by (simp add: toNumber_def trimU_def units_def isSpaceU_def strNumeric_def unsignedDec_def
        isDigitU_def expPart_def)
  then show ?thesis by (simp add: floatRangeValidator_def)
qed


section \<open>The table\<close>

lemmas validator_defs =
  checkNoSpace_def checkIp_def checkIpv4_def checkIpV6_def checkIpV4V6OrDomain_def
  checkDomainOrIP_def checkHost_def checkIllegal_def complexityPassword_def checkName_def
  checkUserName_def checkSimpleName_def checkSimplePassword_def checkAuthBasicPassword_def
  checkDBName_def checkComposeName_def checkImageName_def checkVolumeName_def checkLinuxName_def
  checkSupervisorName_def checkDatabaseName_def checkAppName_def checkAlias_def checkVMName_def
  checkVMNetwork_def checkDomain_def checkDomainWithPort_def checkIntegerNumber_def
  checkIntegerNumberWith0_def checkFloatNumber_def checkParamCommon_def checkParamComplexity_def
  checkParamUrlAndPort_def checkPort_def checkDoc_def checkContainerName_def
  checkDisableFunctions_def checkLeechExts_def checkParamSimple_def checkFilePermission_def
  checkPHPExtensions_def checkHttpOrHttps_def checkPhone_def checkIpv4orV6_def

lemma patternRule_blank [simp]: "patternRule e r f (Some []) = e"
  by (simp add: patternRule_def)

lemma validators_blank [simp]:
    "checkNoSpace (Some []) = Pass \<longleftrightarrow> True"
    "checkIp (Some []) = Pass \<longleftrightarrow> False"
    "checkIpv4 (Some []) = Pass \<longleftrightarrow> True"
    "checkIpV6 (Some []) = Pass \<longleftrightarrow> False"
    "checkIpV4V6OrDomain (Some []) = Pass \<longleftrightarrow> False"
    "checkDomainOrIP (Some []) = Pass \<longleftrightarrow> True"
    "checkHost (Some []) = Pass \<longleftrightarrow> False"
    "checkIllegal (Some []) = Pass \<longleftrightarrow> False"
    "complexityPassword (Some []) = Pass \<longleftrightarrow> False"
    "checkName (Some []) = Pass \<longleftrightarrow> False"
    "checkUserName (Some []) = Pass \<longleftrightarrow> False"
    "checkSimpleName (Some []) = Pass \<longleftrightarrow> False"
    "checkSimplePassword (Some []) = Pass \<longleftrightarrow> False"
    "checkAuthBasicPassword (Some []) = Pass \<longleftrightarrow> False"
    "checkDBName (Some []) = Pass \<longleftrightarrow> False"
    "checkComposeName (Some []) = Pass \<longleftrightarrow> False"
    "checkImageName (Some []) = Pass \<longleftrightarrow> False"
    "checkVolumeName (Some []) = Pass \<longleftrightarrow> False"
    "checkLinuxName (Some []) = Pass \<longleftrightarrow> False"
    "checkSupervisorName (Some []) = Pass \<longleftrightarrow> False"
    "checkDatabaseName (Some []) = Pass \<longleftrightarrow> False"
    "checkAppName (Some []) = Pass \<longleftrightarrow> False"
    "checkAlias (Some []) = Pass \<longleftrightarrow> False"
    "checkVMName (Some []) = Pass \<longleftrightarrow> False"
    "checkVMNetwork (Some []) = Pass \<longleftrightarrow> False"
    "checkDomain (Some []) = Pass \<longleftrightarrow> False"
    "checkDomainWithPort (Some []) = Pass \<longleftrightarrow> False"
    "checkIntegerNumber (Some []) = Pass \<longleftrightarrow> False"
    "checkIntegerNumberWith0 (Some []) = Pass \<longleftrightarrow> False"
    "checkFloatNumber (Some []) = Pass \<longleftrightarrow> False"
    "checkParamCommon (Some []) = Pass \<longleftrightarrow> False"
    "checkParamComplexity (Some []) = Pass \<longleftrightarrow> False"
    "checkParamUrlAndPort (Some []) = Pass \<longleftrightarrow> False"
    "checkPort (Some []) = Pass \<longleftrightarrow> False"
    "checkDoc (Some []) = Pass \<longleftrightarrow> False"
    "checkContainerName (Some []) = Pass \<longleftrightarrow> True"
    "checkDisableFunctions (Some []) = Pass \<longleftrightarrow> False"
    "checkLeechExts (Some []) = Pass \<longleftrightarrow> False"
    "checkParamSimple (Some []) = Pass \<longleftrightarrow> True"
    "checkFilePermission (Some []) = Pass \<longleftrightarrow> False"
    "checkPHPExtensions (Some []) = Pass \<longleftrightarrow> False"
    "checkHttpOrHttps (Some []) = Pass \<longleftrightarrow> False"
    "checkPhone (Some []) = Pass \<longleftrightarrow> True"
    "checkIpv4orV6 (Some []) = Pass \<longleftrightarrow> True"
  by (simp_all only: validator_defs patternRule_blank option.case if_True refl callback.distinct
      list.set empty_iff if_False HOL.simp_thms)

text \<open>Of the rules marked as required that carry a validator, exactly two have a
  validator that lets the empty string pass: \<open>noSpace\<close> and \<open>paramSimple\<close>.\<close>

theorem Rules_required_blank:
  "map fst (filter (\<lambda>(k, r). required r = Some True \<and>
      (case rvalidator r of None \<Rightarrow> False | Some f \<Rightarrow> f (Some []) = Pass)) Rules) =
   [''noSpace'', ''paramSimple'']"
  by (simp add: Rules_def Rules1_def Rules2_def noRule_def)

end
