(* ===== verification/Global_Store.thy ===== *)
theory Global_Store
  imports JS_Number
begin

text \<open>
  The global store \<open>frontend/src/store/modules/global.ts\<close> with its state
  (\<open>store/interface/index.ts\<close>), the module state of \<open>utils/permission-codes.ts\<close> (the
  master-only permission codes with the key that says for which list they were built) and
  of \<open>utils/page-state-cache.ts\<close>. The three are one record \<open>world\<close>, because the store's
  actions write all of them. \<open>hasPermission\<close> is stateful: it first refreshes the code set.
  \<open>allowed\<close> is its specification without that cache, and \<open>hasPermission_refines\<close> the
  refinement. Persistence of the store, the i18n runtime (its translation function is a
  parameter) and the browser's colour scheme (a parameter) are outside the model.
\<close>

section \<open>State\<close>

datatype DeviceType = Mobile | Desktop

record ThemeConfigProp =
  panelName :: string
  primary :: string
  theme :: string
  footer :: bool
  title :: string
  logo :: string
  logoWithText :: string
  favicon :: string
  loginImage :: string
  loginBgType :: string
  loginBackground :: string
  loginBtnLinkColor :: string
  themeColor :: string

record Watermark =
  lightColor :: string
  darkColor :: string
  fontSize :: int
  content :: string
  rotate :: int
  gap :: int

record node_role =
  nodeId :: int
  nodeName :: string
  roleId :: int
  roleName :: string

record GlobalState =
  language :: string
  device :: DeviceType
  themeConfig :: ThemeConfigProp
  isFullScreen :: bool
  openMenuTabs :: bool
  menuAccordion :: bool
  watermark :: "Watermark option"
  watermarkShow :: bool
  isLoading :: bool
  loadingText :: string
  csrfToken :: string
  ignoreCaptcha :: bool
  agreeLicense :: bool
  isLogin :: bool
  entrance :: string
  hasNewVersion :: bool
  lastFilePath :: string
  currentDB :: string
  currentPgDB :: string
  currentRedisDB :: string
  currentMongodbDB :: string
  showEntranceWarn :: bool
  defaultNetwork :: string
  defaultIO :: string
  isOnRestart :: bool
  isAdmin :: bool
  permissions :: "string list"
  masterOnlyPermissions :: "string list"
  nodeRoles :: "node_role list"
  isEnterprise :: bool
  isIntl :: bool
  docWithRegion :: bool
  isFxplay :: bool
  isOffline :: bool
  isProductPro :: bool
  productProExpires :: jsnum
  isMasterProductPro :: bool
  isEnterpriseLicensed :: bool
  isEnterpriseLicenseLoaded :: bool
  masterAlias :: string
  currentNode :: string
  currentNodeAddr :: string

definition initialState :: "string \<Rightarrow> GlobalState" where
  "initialState locale' = \<lparr>
     language = locale', device = Desktop,
     themeConfig = \<lparr>panelName = [], primary = ''#005eeb'', theme = ''auto'', footer = True,
       title = [], logo = [], logoWithText = [], favicon = [], loginImage = [], loginBgType = [],
       loginBackground = [], loginBtnLinkColor = [], themeColor = []\<rparr>,
     isFullScreen = False, openMenuTabs = False, menuAccordion = False, watermark = None,
     watermarkShow = False, isLoading = False, loadingText = [], csrfToken = [],
     ignoreCaptcha = True, agreeLicense = False, isLogin = False, entrance = [],
     hasNewVersion = False, lastFilePath = [], currentDB = [], currentPgDB = [],
     currentRedisDB = [], currentMongodbDB = [], showEntranceWarn = True,
     defaultNetwork = ''all'', defaultIO = ''all'', isOnRestart = False,
     isAdmin = False, permissions = [], masterOnlyPermissions = [], nodeRoles = [],
     isEnterprise = False, isIntl = False, docWithRegion = True, isFxplay = False,
     isOffline = False, isProductPro = False, productProExpires = Fin 0,
     isMasterProductPro = False, isEnterpriseLicensed = False, isEnterpriseLicenseLoaded = False,
     masterAlias = [], currentNode = ''local'', currentNodeAddr = []\<rparr>"

record world =
  store :: GlobalState
  masterOnlyPermissionCodes :: "string set"
  masterOnlyPermissionCodesKey :: string
  pageStateCache :: "string \<rightharpoonup> nat"

definition initialWorld :: "string \<Rightarrow> world" where
  "initialWorld loc = \<lparr>store = initialState loc, masterOnlyPermissionCodes = {},
     masterOnlyPermissionCodesKey = [], pageStateCache = Map.empty\<rparr>"


section \<open>Permission codes and the page cache\<close>

definition setMasterOnlyPermissionCodes :: "string list \<Rightarrow> world \<Rightarrow> world" where
  "setMasterOnlyPermissionCodes ps w =
     (let codes = filter (\<lambda>p. p \<noteq> []) ps;
          key = joinWith [CHR 0x0A] codes
      in if key = masterOnlyPermissionCodesKey w then w
         else w\<lparr>masterOnlyPermissionCodesKey := key, masterOnlyPermissionCodes := set codes\<rparr>)"

definition toManageCode :: "string \<Rightarrow> string" where
  "toManageCode p =
     (if p = [] then []
      else if suffix ''_view'' p then take (length p - 5) p @ ''_manage'' else [])"

definition normalizeToManageCode :: "string \<Rightarrow> string" where
  "normalizeToManageCode p =
     (if p = [] then [] else (let m = toManageCode p in if m \<noteq> [] then m else p))"

definition isMasterOnlyPermissionCode :: "string \<Rightarrow> world \<Rightarrow> bool" where
  "isMasterOnlyPermissionCode p w = (p \<in> masterOnlyPermissionCodes w)"

text \<open>\<open>getPageState\<close> returns the cached object, or stores what the factory makes.\<close>

definition getPageState :: "string \<Rightarrow> nat \<Rightarrow> world \<Rightarrow> nat \<times> world" where
  "getPageState key made w =
     (case pageStateCache w key of Some s \<Rightarrow> (s, w)
      | None \<Rightarrow> (made, w\<lparr>pageStateCache := (pageStateCache w)(key \<mapsto> made)\<rparr>))"

definition clearPageStateCache :: "world \<Rightarrow> world" where
  "clearPageStateCache w = w\<lparr>pageStateCache := Map.empty\<rparr>"


section \<open>Getters\<close>

definition isDarkTheme :: "bool \<Rightarrow> GlobalState \<Rightarrow> bool" where
  "isDarkTheme prefersDark s =
     (theme (themeConfig s) = ''dark'' \<or> (theme (themeConfig s) = ''auto'' \<and> prefersDark))"

definition isDarkGoldTheme :: "GlobalState \<Rightarrow> bool" where
  "isDarkGoldTheme s = (primary (themeConfig s) = ''#F0BE96'' \<and> isProductPro s)"

definition isNodeAdmin :: "GlobalState \<Rightarrow> bool" where
  "isNodeAdmin s = list_ex (\<lambda>r. nodeName r = currentNode s \<and> roleName r = ''Node Admin'') (nodeRoles s)"

definition isAdminOrNodeAdmin :: "GlobalState \<Rightarrow> bool" where
  "isAdminOrNodeAdmin s =
     (isAdmin s \<or> list_ex (\<lambda>r. nodeName r = currentNode s \<and> roleName r = ''Node Admin'') (nodeRoles s))"

definition CN_DOCS_URL :: string where "CN_DOCS_URL = ''https://1panel.cn/docs/v2''"
definition INTL_DOCS_URL :: string where "INTL_DOCS_URL = ''https://1panel.pro/docs/v2''"

definition docsUrl :: "GlobalState \<Rightarrow> string" where
  "docsUrl s = (if docWithRegion s then (if isIntl s then INTL_DOCS_URL else CN_DOCS_URL)
     else (if toLowerCase (language s) = ''zh'' then CN_DOCS_URL else INTL_DOCS_URL))"

definition isMaster :: "GlobalState \<Rightarrow> bool" where
  "isMaster s = (currentNode s = ''local'')"

definition isMobile :: "GlobalState \<Rightarrow> bool" where
  "isMobile s = (device s = Mobile)"

definition isXpackOrEE :: "GlobalState \<Rightarrow> bool" where
  "isXpackOrEE s = ((isEnterprise s \<and> isEnterpriseLicensed s) \<or> isMasterProductPro s)"

definition isEE :: "GlobalState \<Rightarrow> bool" where
  "isEE s = (isEnterprise s \<and> isEnterpriseLicensed s)"

definition isMasterPro :: "GlobalState \<Rightarrow> bool" where
  "isMasterPro s = isMasterProductPro s"


section \<open>Actions\<close>

definition setScreenFull :: "world \<Rightarrow> world" where
  "setScreenFull w = w\<lparr>store := (store w)\<lparr>isFullScreen := \<not> isFullScreen (store w)\<rparr>\<rparr>"

definition setLogStatus :: "bool \<Rightarrow> world \<Rightarrow> world" where
  "setLogStatus login w = w\<lparr>store := (store w)\<lparr>isLogin := login\<rparr>\<rparr>"

record auth_payload =
  p_isAdmin :: bool
  p_permissions :: "string list option"
  p_masterOnlyPermissions :: "string list option"
  p_nodeRoles :: "node_role list option"

definition orEmpty :: "'a list option \<Rightarrow> 'a list" where
  "orEmpty x = (case x of None \<Rightarrow> [] | Some xs \<Rightarrow> xs)"

definition setAuthInfo :: "auth_payload \<Rightarrow> world \<Rightarrow> world" where
  "setAuthInfo p w =
     (let s = (store w)\<lparr>isAdmin := p_isAdmin p, permissions := orEmpty (p_permissions p),
            masterOnlyPermissions := orEmpty (p_masterOnlyPermissions p),
            nodeRoles := orEmpty (p_nodeRoles p)\<rparr>
      in setMasterOnlyPermissionCodes (masterOnlyPermissions s) (w\<lparr>store := s\<rparr>))"

definition clearAuthInfo :: "world \<Rightarrow> world" where
  "clearAuthInfo w =
     (let w1 = clearPageStateCache w;
          s = (store w1)\<lparr>permissions := [], masterOnlyPermissions := [], nodeRoles := [],
                isAdmin := False\<rparr>
      in setMasterOnlyPermissionCodes [] (w1\<lparr>store := s\<rparr>))"

definition hasPermission :: "string \<Rightarrow> world \<Rightarrow> bool \<times> world" where
  "hasPermission permission w0 =
     (let w = setMasterOnlyPermissionCodes (masterOnlyPermissions (store w0)) w0;
          s = store w;
          np = trim permission
      in (if np = [] then False
          else if \<not> isMaster s \<and> isMasterOnlyPermissionCode np w then False
          else if isAdmin s then True
          else if np \<in> set (permissions s) then True
          else (let mp = toManageCode np
                in if mp = [] then False
                   else if \<not> isMaster s \<and> isMasterOnlyPermissionCode mp w then False
                   else mp \<in> set (permissions s)), w))"

text \<open>\<open>updateLanguage\<close> stores the locale that loading the language yields, \<open>getMasterAlias\<close>
  falls back to a translation.\<close>

definition updateLanguage :: "(string \<Rightarrow> string) \<Rightarrow> string \<Rightarrow> world \<Rightarrow> string \<times> world" where
  "updateLanguage setActiveLocale lang w =
     (let active = setActiveLocale lang
      in (active, w\<lparr>store := (store w)\<lparr>language := active\<rparr>\<rparr>))"

definition toggleDevice :: "DeviceType \<Rightarrow> world \<Rightarrow> world" where
  "toggleDevice d w = w\<lparr>store := (store w)\<lparr>device := d\<rparr>\<rparr>"

definition getMasterAlias :: "(string \<Rightarrow> string) \<Rightarrow> GlobalState \<Rightarrow> string" where
  "getMasterAlias t s = (if masterAlias s \<noteq> [] then masterAlias s else t ''xpack.node.master'')"

declare
  setScreenFull_def [state_defs] setLogStatus_def [state_defs] setAuthInfo_def [state_defs]
  clearAuthInfo_def [state_defs] clearPageStateCache_def [state_defs] toggleDevice_def [state_defs]
  updateLanguage_def [state_defs]


section \<open>The code cache\<close>

text \<open>The cached set belongs to the list whose joined text is the key, provided no code
  contains a line feed: joining is injective on such lists.\<close>

definition noLF :: "string list \<Rightarrow> bool" where
  "noLF ps = list_all (\<lambda>p. CHR 0x0A \<notin> set p) ps"

definition codesInv :: "world \<Rightarrow> bool" where
  "codesInv w \<longleftrightarrow> (\<exists>cs. noLF cs \<and> [] \<notin> set cs \<and>
     masterOnlyPermissionCodesKey w = joinWith [CHR 0x0A] cs \<and> masterOnlyPermissionCodes w = set cs)"

lemma codesInv_initial: "codesInv (initialWorld loc)"
  by (auto simp: codesInv_def initialWorld_def noLF_def intro!: exI [of _ "[]"])

lemma codesInv_update [simp]:
  "codesInv (w\<lparr>store := s\<rparr>) = codesInv w" "codesInv (w\<lparr>pageStateCache := c\<rparr>) = codesInv w"
  by (simp_all add: codesInv_def)

lemma setMaster_store [simp]:
  "store (setMasterOnlyPermissionCodes ps w) = store w"
  "pageStateCache (setMasterOnlyPermissionCodes ps w) = pageStateCache w"
  by (simp_all add: setMasterOnlyPermissionCodes_def Let_def)

lemma setMaster_codes:
  assumes "codesInv w" "noLF ps"
  shows "masterOnlyPermissionCodes (setMasterOnlyPermissionCodes ps w) = set ps - {[]} \<and>
    codesInv (setMasterOnlyPermissionCodes ps w)"
proof -
  define codes where "codes = filter (\<lambda>p. p \<noteq> []) ps"
  have codes: "noLF codes" "[] \<notin> set codes" "set codes = set ps - {[]}"
    using assms(2) by (auto simp: codes_def noLF_def list_all_iff)
  show ?thesis
  proof (cases "joinWith [CHR 0x0A] codes = masterOnlyPermissionCodesKey w")
    case True
    then have "setMasterOnlyPermissionCodes ps w = w"
      by (simp add: setMasterOnlyPermissionCodes_def codes_def [symmetric] Let_def)
    moreover from assms(1) obtain cs where "noLF cs" "[] \<notin> set cs"
      "masterOnlyPermissionCodesKey w = joinWith [CHR 0x0A] cs" "masterOnlyPermissionCodes w = set cs"
      by (auto simp: codesInv_def)
    ultimately show ?thesis
      using True codes joinWith_inj [of codes "CHR 0x0A" cs] assms(1) by (auto simp: noLF_def list_all_iff)
  next
    case False
    then have "setMasterOnlyPermissionCodes ps w =
        w\<lparr>masterOnlyPermissionCodesKey := joinWith [CHR 0x0A] codes, masterOnlyPermissionCodes := set codes\<rparr>"
      by (simp add: setMasterOnlyPermissionCodes_def codes_def [symmetric] Let_def)
    with codes show ?thesis by (auto simp: codesInv_def)
  qed
qed


section \<open>What a permission check answers\<close>

text \<open>The specification without the cache: a code is restricted on a node other than the
  master when it is in the master-only list; otherwise administrators hold every code, and
  others the codes granted to them, where a granted manage code includes its view code.\<close>

definition restricted :: "GlobalState \<Rightarrow> string \<Rightarrow> bool" where
  "restricted s p \<longleftrightarrow> \<not> isMaster s \<and> p \<in> set (masterOnlyPermissions s)"

definition allowed :: "GlobalState \<Rightarrow> string \<Rightarrow> bool" where
  "allowed s permission \<longleftrightarrow>
     (let p = trim permission; m = toManageCode p
      in p \<noteq> [] \<and> \<not> restricted s p \<and>
         (isAdmin s \<or> p \<in> set (permissions s) \<or>
          (m \<noteq> [] \<and> \<not> restricted s m \<and> m \<in> set (permissions s))))"

definition authInv :: "world \<Rightarrow> bool" where
  "authInv w \<longleftrightarrow> codesInv w \<and> noLF (masterOnlyPermissions (store w))"

lemma hasPermission_refines:
  assumes "authInv w"
  shows "fst (hasPermission p w) = allowed (store w) p \<and> store (snd (hasPermission p w)) = store w \<and>
    authInv (snd (hasPermission p w)) \<and> pageStateCache (snd (hasPermission p w)) = pageStateCache w"
proof -
  let ?w = "setMasterOnlyPermissionCodes (masterOnlyPermissions (store w)) w"
  have c: "masterOnlyPermissionCodes ?w = set (masterOnlyPermissions (store w)) - {[]}" "codesInv ?w"
    using assms setMaster_codes [of w "masterOnlyPermissions (store w)"] by (auto simp: authInv_def)
  have "fst (hasPermission p w) = allowed (store w) p"
    by (cases "trim p = []"; cases "toManageCode (trim p) = []")
      (simp_all add: hasPermission_def allowed_def restricted_def isMasterOnlyPermissionCode_def c(1) Let_def)
  moreover have "snd (hasPermission p w) = ?w" by (simp add: hasPermission_def Let_def)
  ultimately show ?thesis using assms c(2) by (simp add: authInv_def)
qed

lemma authInv_setAuthInfo:
  "codesInv w \<Longrightarrow> noLF (orEmpty (p_masterOnlyPermissions p)) \<Longrightarrow> authInv (setAuthInfo p w)"
  using setMaster_codes by (simp add: setAuthInfo_def authInv_def Let_def)

lemma authInv_clearAuthInfo: "codesInv w \<Longrightarrow> authInv (clearAuthInfo w)"
proof -
  assume "codesInv w"
  then have "codesInv (setMasterOnlyPermissionCodes [] (clearPageStateCache w\<lparr>store := s\<rparr>))" for s
    using setMaster_codes [of "clearPageStateCache w\<lparr>store := s\<rparr>" "[]"]
    by (simp add: clearPageStateCache_def noLF_def)
  then show ?thesis by (simp add: clearAuthInfo_def authInv_def noLF_def clearPageStateCache_def Let_def)
qed


section \<open>Reachable states\<close>

text \<open>The store starts from what local storage holds, with the module state of the other two
  files fresh. Components assign the fields of the store directly; none but the two auth
  actions writes the master-only list.\<close>

inductive reachable :: "world \<Rightarrow> bool" where
  loaded: "noLF (masterOnlyPermissions s) \<Longrightarrow>
    reachable \<lparr>store = s, masterOnlyPermissionCodes = {}, masterOnlyPermissionCodesKey = [],
      pageStateCache = Map.empty\<rparr>"
| assigned: "reachable w \<Longrightarrow> masterOnlyPermissions s = masterOnlyPermissions (store w) \<Longrightarrow>
    reachable (w\<lparr>store := s\<rparr>)"
| paged: "reachable w \<Longrightarrow> reachable (snd (getPageState key made w))"
| authed: "reachable w \<Longrightarrow> noLF (orEmpty (p_masterOnlyPermissions p)) \<Longrightarrow> reachable (setAuthInfo p w)"
| cleared: "reachable w \<Longrightarrow> reachable (clearAuthInfo w)"
| checked: "reachable w \<Longrightarrow> reachable (snd (hasPermission p w))"

lemma reachable_authInv: "reachable w \<Longrightarrow> authInv w"
proof (induction rule: reachable.induct)
  case (loaded s)
  then show ?case by (auto simp: authInv_def codesInv_def noLF_def intro!: exI [of _ "[]"])
next
  case (assigned w s)
  then show ?case by (simp add: authInv_def)
next
  case (paged w key made)
  then show ?case by (simp add: getPageState_def authInv_def split: option.split)
next
  case (authed w p)
  then show ?case by (intro authInv_setAuthInfo) (simp_all add: authInv_def)
next
  case (cleared w)
  then show ?case by (intro authInv_clearAuthInfo) (simp add: authInv_def)
qed (simp add: hasPermission_refines)

lemma reachable_initial: "reachable (initialWorld loc)"
  by (auto simp: initialWorld_def initialState_def noLF_def intro!: reachable.intros)

text \<open>The actions that write other fields are assignments.\<close>

lemma reachable_actions:
  assumes "reachable w"
  shows "reachable (setScreenFull w)" "reachable (setLogStatus b w)" "reachable (toggleDevice d w)"
    "reachable (snd (updateLanguage f lang w))"
  using assms by (auto simp: state_defs Let_def intro!: reachable.assigned)

end
