(* ===== verification/Permissions.thy ===== *)
theory Permissions
  imports Global_Store
begin

text \<open>
  Access decisions: \<open>utils/rbac.ts\<close> (routes), \<open>utils/permission.ts\<close> (controls) and
  \<open>composables/useMenuManagePermission.ts\<close>. Every check calls the store's \<open>hasPermission\<close>,
  which refreshes the code cache, so the checks thread the \<open>world\<close>. The locale
  \<open>stable_check\<close> is the contract that makes this harmless: a check answers by a
  specification on the observed state and keeps it. It is interpreted on \<open>hasPermission\<close>
  and on each check built from it. The API calls of \<open>syncAuthInfo\<close> and the current route
  are parameters.
\<close>

section \<open>Checks that thread a state\<close>

text \<open>\<open>Array.prototype.some\<close> and \<open>every\<close> with a stateful predicate; both stop early.\<close>

fun someM :: "('a \<Rightarrow> 's \<Rightarrow> bool \<times> 's) \<Rightarrow> 'a list \<Rightarrow> 's \<Rightarrow> bool \<times> 's" where
  "someM f [] s = (False, s)"
| "someM f (x # xs) s = (let r = f x s in if fst r then r else someM f xs (snd r))"

fun everyM :: "('a \<Rightarrow> 's \<Rightarrow> bool \<times> 's) \<Rightarrow> 'a list \<Rightarrow> 's \<Rightarrow> bool \<times> 's" where
  "everyM f [] s = (True, s)"
| "everyM f (x # xs) s = (let r = f x s in if fst r then everyM f xs (snd r) else r)"

locale stable_check =
  fixes check :: "'a \<Rightarrow> 's \<Rightarrow> bool \<times> 's"
    and spec :: "'k \<Rightarrow> 'a \<Rightarrow> bool"
    and obs :: "'s \<Rightarrow> 'k"
    and inv :: "'s \<Rightarrow> bool"
  assumes check_spec: "inv s \<Longrightarrow> fst (check a s) = spec (obs s) a"
    and check_obs: "inv s \<Longrightarrow> obs (snd (check a s)) = obs s"
    and check_inv: "inv s \<Longrightarrow> inv (snd (check a s))"
begin

lemma someM_spec:
  "inv s \<Longrightarrow> fst (someM check xs s) = list_ex (spec (obs s)) xs \<and>
     obs (snd (someM check xs s)) = obs s \<and> inv (snd (someM check xs s))"
  by (induction xs arbitrary: s) (auto simp: Let_def check_spec check_obs check_inv)

lemma everyM_spec:
  "inv s \<Longrightarrow> fst (everyM check xs s) = list_all (spec (obs s)) xs \<and>
     obs (snd (everyM check xs s)) = obs s \<and> inv (snd (everyM check xs s))"
  by (induction xs arbitrary: s) (auto simp: Let_def check_spec check_obs check_inv)

text \<open>A second check gives the answer of the first.\<close>

lemma check_again: "inv s \<Longrightarrow> fst (check a (snd (check b s))) = fst (check a s)"
  by (simp add: check_spec check_obs check_inv)

end

interpretation hp: stable_check hasPermission allowed store reachable
  by unfold_locales (simp_all add: hasPermission_refines reachable_authInv reachable.checked)


section \<open>Routes\<close>

datatype PermissionValue = PUndef | PStr string | PArr "string list"

record RouteAccessMeta =
  adminOnly :: bool
  protectedRoleOnly :: bool
  permission :: PermissionValue
  activeMenu :: string
  ignoreTab :: bool

record RouteRecord =
  recPath :: string
  recMeta :: "RouteAccessMeta option"

record route =
  rname :: string
  rpath :: string
  rcode :: "string option"
  rquery :: "(string \<times> string option) list"
  rmeta :: RouteAccessMeta
  matched :: "RouteRecord list"

record user_data =
  u_role :: string
  u_permissions :: "string list option"
  u_masterOnlyPermissions :: "string list option"
  u_nodeRoles :: "node_role list option"

definition authPayload :: "user_data \<Rightarrow> auth_payload" where
  "authPayload d = \<lparr>p_isAdmin = (u_role d = ''ADMIN''), p_permissions = Some (orEmpty (u_permissions d)),
     p_masterOnlyPermissions = Some (orEmpty (u_masterOnlyPermissions d)),
     p_nodeRoles = Some (orEmpty (u_nodeRoles d))\<rparr>"

lemma orEmpty_Some [simp]: "orEmpty (Some xs) = xs"
  by (simp add: orEmpty_def)

text \<open>\<open>syncAuthInfo\<close>: \<open>None\<close> is a rejected request, which leaves the store as it was.\<close>

definition syncAuthInfo ::
  "user_data option \<Rightarrow> (string \<Rightarrow> user_data option) \<Rightarrow> string option \<Rightarrow> world \<Rightarrow> user_data option \<times> world"
where
  "syncAuthInfo getUserInfo getEnterpriseUserInfo node w =
     (let storeCurrentNode = currentNode (store w);
          res = (if \<not> isEnterprise (store w) then getUserInfo
                 else getEnterpriseUserInfo (case node of Some n \<Rightarrow> n | None \<Rightarrow> storeCurrentNode))
      in case res of None \<Rightarrow> (None, w) | Some d \<Rightarrow> (Some d, setAuthInfo (authPayload d) w))"

definition hasPermissionMetaAccess :: "PermissionValue \<Rightarrow> world \<Rightarrow> bool \<times> world" where
  "hasPermissionMetaAccess p w =
     (case p of
        PUndef \<Rightarrow> (True, w)
      | PArr xs \<Rightarrow> (let ps = filter (\<lambda>q. q \<noteq> []) xs
                   in if length ps = 0 then (True, w) else someM hasPermission ps w)
      | PStr q \<Rightarrow> if q = [] then (True, w) else hasPermission q w)"

definition hasRouteRoleAccess :: "RouteAccessMeta option \<Rightarrow> GlobalState \<Rightarrow> bool" where
  "hasRouteRoleAccess m s =
     (case m of None \<Rightarrow> True
      | Some meta \<Rightarrow>
          if isAdmin s then True
          else if adminOnly meta \<and> \<not> isAdmin s then False
          else if protectedRoleOnly meta then isNodeAdmin s
          else True)"

definition recPermission :: "RouteRecord \<Rightarrow> PermissionValue" where
  "recPermission r = (case recMeta r of None \<Rightarrow> PUndef | Some m \<Rightarrow> permission m)"

definition hasRoutePermissionAccess :: "route \<Rightarrow> world \<Rightarrow> bool \<times> world" where
  "hasRoutePermissionAccess r w = everyM (\<lambda>rec. hasPermissionMetaAccess (recPermission rec)) (matched r) w"

definition hasRouteAccess :: "route \<Rightarrow> world \<Rightarrow> bool \<times> world" where
  "hasRouteAccess r w =
     (if list_all (\<lambda>rec. hasRouteRoleAccess (recMeta rec) (store w)) (matched r)
      then hasRoutePermissionAccess r w else (False, w))"

text \<open>The specifications of the route checks.\<close>

definition metaAllowed :: "GlobalState \<Rightarrow> PermissionValue \<Rightarrow> bool" where
  "metaAllowed s p =
     (case p of PUndef \<Rightarrow> True | PStr q \<Rightarrow> q = [] \<or> allowed s q
      | PArr xs \<Rightarrow> (\<forall>q \<in> set xs. q = []) \<or> (\<exists>q \<in> set xs. allowed s q))"

definition roleAllowed :: "GlobalState \<Rightarrow> RouteAccessMeta option \<Rightarrow> bool" where
  "roleAllowed s m \<longleftrightarrow> isAdmin s \<or>
     (\<forall>meta. m = Some meta \<longrightarrow> \<not> adminOnly meta \<and> (protectedRoleOnly meta \<longrightarrow> isNodeAdmin s))"

definition routeAllowed :: "GlobalState \<Rightarrow> route \<Rightarrow> bool" where
  "routeAllowed s r \<longleftrightarrow> (\<forall>rec \<in> set (matched r).
     roleAllowed s (recMeta rec) \<and> metaAllowed s (recPermission rec))"

lemma not_allowed_Nil [simp]: "\<not> allowed s []"
  by (simp add: allowed_def)

lemma hasRouteRoleAccess_iff: "hasRouteRoleAccess m s = roleAllowed s m"
  by (auto simp: hasRouteRoleAccess_def roleAllowed_def split: option.split)

interpretation pm: stable_check hasPermissionMetaAccess metaAllowed store reachable
proof
  fix p :: PermissionValue and w :: world
  assume w: "reachable w"
  have ex: "list_ex (allowed (store w)) (filter (\<lambda>q. q \<noteq> []) xs) = (\<exists>q \<in> set xs. allowed (store w) q)" for xs
    by (auto simp: list_ex_iff)
  have all: "filter (\<lambda>q. q \<noteq> []) xs = [] \<Longrightarrow> \<forall>q \<in> set xs. q = []" for xs :: "string list"
    by (auto simp: filter_empty_conv)
  show "fst (hasPermissionMetaAccess p w) = metaAllowed (store w) p"
    using w all
    by (auto simp: hasPermissionMetaAccess_def metaAllowed_def hp.check_spec hp.someM_spec Let_def ex
        filter_empty_conv split: PermissionValue.split)
  show "store (snd (hasPermissionMetaAccess p w)) = store w"
    using w by (auto simp: hasPermissionMetaAccess_def hp.check_obs hp.someM_spec Let_def
        split: PermissionValue.split)
  show "reachable (snd (hasPermissionMetaAccess p w))"
    using w by (auto simp: hasPermissionMetaAccess_def hp.check_inv hp.someM_spec Let_def
        split: PermissionValue.split)
qed

interpretation pr: stable_check "\<lambda>rec. hasPermissionMetaAccess (recPermission rec)"
    "\<lambda>s rec. metaAllowed s (recPermission rec)" store reachable
  by unfold_locales (simp_all add: pm.check_spec pm.check_obs pm.check_inv)

interpretation ra: stable_check hasRouteAccess routeAllowed store reachable
  by unfold_locales
    (auto simp: hasRouteAccess_def hasRoutePermissionAccess_def pr.everyM_spec routeAllowed_def
      hasRouteRoleAccess_iff list_all_iff)


section \<open>Controls\<close>

datatype PermissionMode = ManageMode | ViewMode

text \<open>A permission value that names something: a non-empty string or any array.\<close>

definition givenPermission :: "PermissionValue \<Rightarrow> bool" where
  "givenPermission p = (case p of PUndef \<Rightarrow> False | PStr q \<Rightarrow> q \<noteq> [] | PArr _ \<Rightarrow> True)"

definition getRoutePermission :: "route \<Rightarrow> PermissionValue" where
  "getRoutePermission r =
     (if givenPermission (permission (rmeta r)) then permission (rmeta r)
      else case find (\<lambda>rec. givenPermission (recPermission rec)) (rev (matched r)) of
             Some rec \<Rightarrow> recPermission rec
           | None \<Rightarrow> PStr [])"

definition toPermissionList :: "route \<Rightarrow> PermissionValue \<Rightarrow> string list" where
  "toPermissionList r v =
     (let fromRoute = (case getRoutePermission r of PArr xs \<Rightarrow> xs
                        | PStr q \<Rightarrow> if q \<noteq> [] then [q] else [] | PUndef \<Rightarrow> [])
      in case v of PArr xs \<Rightarrow> filter (\<lambda>p. trim p \<noteq> []) xs
         | PStr q \<Rightarrow> if trim q \<noteq> [] then [q] else fromRoute
         | PUndef \<Rightarrow> fromRoute)"

definition hasPermissionAccessByMode ::
  "route \<Rightarrow> PermissionMode \<Rightarrow> PermissionValue \<Rightarrow> bool \<Rightarrow> world \<Rightarrow> bool \<times> world"
where
  "hasPermissionAccessByMode r mode v nodeAdmin w =
     (if nodeAdmin \<and> isNodeAdmin (store w) then (True, w)
      else (let ps = toPermissionList r v;
                ns = (if mode = ManageMode
                      then filter (\<lambda>p. p \<noteq> []) (map normalizeToManageCode ps) else ps)
            in if length ns = 0 then (isAdmin (store w), w) else someM hasPermission ns w))"

definition hasManagePermissionAccess :: "route \<Rightarrow> PermissionValue \<Rightarrow> bool \<Rightarrow> world \<Rightarrow> bool \<times> world" where
  "hasManagePermissionAccess r v = hasPermissionAccessByMode r ManageMode v"

definition hasPermissionAccess :: "route \<Rightarrow> PermissionValue \<Rightarrow> bool \<Rightarrow> world \<Rightarrow> bool \<times> world" where
  "hasPermissionAccess r v = hasPermissionAccessByMode r ViewMode v"

definition toManagePermissionValue :: "PermissionValue \<Rightarrow> PermissionValue" where
  "toManagePermissionValue p =
     (case p of PArr xs \<Rightarrow> PArr (filter (\<lambda>q. q \<noteq> []) (map normalizeToManageCode xs))
      | PStr q \<Rightarrow> PStr (normalizeToManageCode q) | PUndef \<Rightarrow> PStr (normalizeToManageCode []))"

record menu_permission =
  managePermission :: PermissionValue
  hasAdminManagePermission :: bool
  menuHasPermission :: bool
  menuHasManagePermission :: bool

definition orNoPermission :: "PermissionValue \<Rightarrow> PermissionValue" where
  "orNoPermission p = (if givenPermission p then p else PArr [])"

definition useMenuManagePermission :: "route \<Rightarrow> PermissionValue \<Rightarrow> world \<Rightarrow> menu_permission \<times> world" where
  "useMenuManagePermission r p w =
     (let sourcePermission = (if givenPermission p then p else getRoutePermission r);
          manage = toManagePermissionValue sourcePermission;
          v = hasPermissionAccess r (orNoPermission sourcePermission) False w;
          m = hasManagePermissionAccess r (orNoPermission manage) False (snd v)
      in (\<lparr>managePermission = manage,
           hasAdminManagePermission = (isAdmin (store w) \<or> isNodeAdmin (store w)),
           menuHasPermission = fst v, menuHasManagePermission = fst m\<rparr>, snd m))"

definition useCan :: "route \<Rightarrow> PermissionValue \<Rightarrow> world \<Rightarrow> bool \<times> world" where
  "useCan r p w = (let u = useMenuManagePermission r p w in (menuHasPermission (fst u), snd u))"

definition modeCodes :: "route \<Rightarrow> PermissionMode \<Rightarrow> PermissionValue \<Rightarrow> string list" where
  "modeCodes r mode v =
     (if mode = ManageMode then filter (\<lambda>p. p \<noteq> []) (map normalizeToManageCode (toPermissionList r v))
      else toPermissionList r v)"

definition accessAllowed :: "route \<Rightarrow> GlobalState \<Rightarrow> PermissionMode \<times> PermissionValue \<times> bool \<Rightarrow> bool" where
  "accessAllowed r s a = (case a of (mode, v, nodeAdmin) \<Rightarrow>
     (nodeAdmin \<and> isNodeAdmin s) \<or>
     (if modeCodes r mode v = [] then isAdmin s else list_ex (allowed s) (modeCodes r mode v)))"

lemma accessByMode_codes:
  "hasPermissionAccessByMode r mode v nodeAdmin w =
     (if nodeAdmin \<and> isNodeAdmin (store w) then (True, w)
      else if modeCodes r mode v = [] then (isAdmin (store w), w)
      else someM hasPermission (modeCodes r mode v) w)"
  by (simp add: hasPermissionAccessByMode_def modeCodes_def Let_def)

interpretation ac: stable_check "\<lambda>(mode, v, na). hasPermissionAccessByMode r mode v na"
    "accessAllowed r" store reachable for r
  by unfold_locales (auto simp: accessByMode_codes accessAllowed_def hp.someM_spec split: if_splits)

lemma access_spec:
  "reachable w \<Longrightarrow>
   fst (hasPermissionAccessByMode r mode v nodeAdmin w) = accessAllowed r (store w) (mode, v, nodeAdmin)"
  using ac.check_spec [where a = "(mode, v, nodeAdmin)"] by simp


section \<open>View and manage codes\<close>

lemma trim_append:
  "y \<noteq> [] \<Longrightarrow> \<forall>c \<in> set y. \<not> isSpace c \<Longrightarrow> trim (x @ y) = dropWhile isSpace x @ y"
  by (auto simp: trim_def dropWhile_append dropWhile_none dropWhile_eq_Nil_conv)

lemma plain_suffixes:
  "\<forall>c \<in> set ''_view''. \<not> isSpace c" "\<forall>c \<in> set ''_manage''. \<not> isSpace c"
  by code_simp+

lemma toManageCode_view [simp]: "toManageCode (q @ ''_view'') = q @ ''_manage''"
  by (simp add: toManageCode_def suffix_def)

lemma toManageCode_cases:
  obtains q where "p = q @ ''_view''" | "toManageCode p = []"
  by (cases "suffix ''_view'' p") (auto simp: toManageCode_def suffix_def)

lemma trim_normalize:
  "trim (normalizeToManageCode p) = trim p \<or> trim (normalizeToManageCode p) = toManageCode (trim p)"
proof (cases p rule: toManageCode_cases)
  case (1 q)
  then have "normalizeToManageCode p = q @ ''_manage''" by (simp add: normalizeToManageCode_def Let_def)
  with 1 show ?thesis using trim_append plain_suffixes by simp
qed (auto simp: normalizeToManageCode_def)

text \<open>Where no view code is master-only unless its manage code is, a user who may manage
  may view.\<close>

definition viewsFollow :: "GlobalState \<Rightarrow> bool" where
  "viewsFollow s = list_all (\<lambda>p. toManageCode p = [] \<or> toManageCode p \<in> set (masterOnlyPermissions s))
     (masterOnlyPermissions s)"

lemma allowed_manage_view:
  assumes "viewsFollow s" "allowed s (normalizeToManageCode p)"
  shows "allowed s p"
  using trim_normalize [of p]
proof
  assume eq: "trim (normalizeToManageCode p) = toManageCode (trim p)"
  then have ne: "toManageCode (trim p) \<noteq> []" "trim p \<noteq> []"
    using assms(2) by (auto simp: allowed_def Let_def toManageCode_def)
  then obtain q where q: "trim p = q @ ''_view''" by (cases "trim p" rule: toManageCode_cases) auto
  have no: "toManageCode (q @ ''_manage'') = []"
    by (auto simp: toManageCode_def suffix_def append_eq_append_conv2 Cons_eq_append_conv append_eq_Cons_conv)
  have "restricted s (trim p) \<Longrightarrow> restricted s (toManageCode (trim p))"
    using assms(1) ne by (auto simp: viewsFollow_def restricted_def list_all_iff)
  then show ?thesis using assms(2) q ne eq no by (auto simp: allowed_def Let_def)
qed (use assms in \<open>simp add: allowed_def\<close>)


section \<open>Properties\<close>

text \<open>C1. In every reachable state the store's \<open>hasPermission\<close>, cache and all, answers by the
  specification \<open>allowed\<close>, and asking changes nothing that a later check observes.\<close>

theorem hasPermission_answers:
  assumes "reachable w"
  shows "fst (hasPermission p w) = allowed (store w) p \<and>
    fst (hasPermission p (snd (hasPermission q w))) = fst (hasPermission p w)"
  using assms hp.check_spec hp.check_again by auto

definition workerWorld :: world where
  "workerWorld = setAuthInfo \<lparr>p_isAdmin = True, p_permissions = None,
     p_masterOnlyPermissions = Some [''setting_manage''], p_nodeRoles = None\<rparr>
     ((initialWorld ''en'')\<lparr>store := (initialState ''en'')\<lparr>currentNode := ''edge-1''\<rparr>\<rparr>)"

lemma reachable_worker: "reachable workerWorld"
  unfolding workerWorld_def
  by (intro reachable.authed reachable.assigned reachable_initial)
    (simp_all add: initialWorld_def initialState_def noLF_def orEmpty_def)

lemma worker_store:
  "currentNode (store workerWorld) = ''edge-1''"
  "masterOnlyPermissions (store workerWorld) = [''setting_manage'']" "isAdmin (store workerWorld)"
  by (simp_all add: workerWorld_def setAuthInfo_def initialWorld_def initialState_def orEmpty_def Let_def)

theorem hasPermission_answers_witness:
  "fst (hasPermission ''setting_manage'' workerWorld) = allowed (store workerWorld) ''setting_manage'' \<and>
   fst (hasPermission ''app_view'' (snd (hasPermission ''setting_manage'' workerWorld))) =
     fst (hasPermission ''app_view'' workerWorld)"
  using hasPermission_answers [OF reachable_worker] by blast

text \<open>C13. A master-only code is refused on every node but the master, to administrators too,
  and with it every route one of whose records asks for that code alone.\<close>

theorem master_only_refused:
  assumes "reachable w" "currentNode (store w) \<noteq> ''local''"
    and "trim p \<in> set (masterOnlyPermissions (store w))"
  shows "\<not> fst (hasPermission p w) \<and>
    (rec \<in> set (matched r) \<and> recPermission rec = PStr p \<and> p \<noteq> [] \<longrightarrow> \<not> fst (hasRouteAccess r w))"
proof -
  have no: "\<not> allowed (store w) p" using assms(2,3) by (auto simp: allowed_def restricted_def isMaster_def Let_def)
  then show ?thesis
    using assms(1) by (force simp: hp.check_spec ra.check_spec routeAllowed_def metaAllowed_def)
qed

definition settingRecord :: RouteRecord where
  "settingRecord = \<lparr>recPath = ''/settings'', recMeta = Some \<lparr>adminOnly = False,
     protectedRoleOnly = False, permission = PStr ''setting_manage'', activeMenu = ''/settings'',
     ignoreTab = False\<rparr>\<rparr>"

definition settingRoute :: route where
  "settingRoute = \<lparr>rname = ''Setting'', rpath = ''/settings'', rcode = None, rquery = [],
     rmeta = \<lparr>adminOnly = False, protectedRoleOnly = False, permission = PStr ''setting_manage'',
       activeMenu = ''/settings'', ignoreTab = False\<rparr>, matched = [settingRecord]\<rparr>"

theorem master_only_refused_witness:
  "\<not> fst (hasPermission ''setting_manage'' workerWorld) \<and> \<not> fst (hasRouteAccess settingRoute workerWorld)"
proof -
  have t: "trim ''setting_manage'' = ''setting_manage''" by code_simp
  show ?thesis
    using master_only_refused [of workerWorld "''setting_manage''" settingRecord settingRoute]
    by (simp add: reachable_worker worker_store t settingRoute_def settingRecord_def recPermission_def)
qed

text \<open>C6. Route access: a route is entered exactly when each matched record lets the user's
  role in (administrators always; others unless the record is for administrators, or for node
  administrators and the user is none) and its permission names no code or one the user holds.\<close>

theorem hasRouteAccess_iff:
  assumes "reachable w"
  shows "fst (hasRouteAccess r w) \<longleftrightarrow> (\<forall>rec \<in> set (matched r).
      (isAdmin (store w) \<or> (\<forall>m. recMeta rec = Some m \<longrightarrow>
         \<not> adminOnly m \<and> (protectedRoleOnly m \<longrightarrow> isNodeAdmin (store w)))) \<and>
      (case recPermission rec of PUndef \<Rightarrow> True | PStr q \<Rightarrow> q = [] \<or> allowed (store w) q
       | PArr xs \<Rightarrow> (\<forall>q \<in> set xs. q = []) \<or> (\<exists>q \<in> set xs. allowed (store w) q)))"
  using assms by (simp add: ra.check_spec routeAllowed_def roleAllowed_def metaAllowed_def)

theorem hasRouteAccess_iff_witness:
  "fst (hasRouteAccess settingRoute workerWorld) \<longleftrightarrow> allowed (store workerWorld) ''setting_manage''"
  using hasRouteAccess_iff [OF reachable_worker, of settingRoute]
  by (simp add: settingRoute_def settingRecord_def recPermission_def worker_store)

text \<open>Manage access includes view access: for a control bound to explicit codes, where the
  master-only list is closed under view-to-manage, passing the manage check implies passing the
  view check in the same state.\<close>

theorem manage_implies_view:
  assumes "reachable w" "viewsFollow (store w)"
    and "fst (hasManagePermissionAccess r (PArr ps) nodeAdmin w)"
  shows "fst (hasPermissionAccess r (PArr ps) nodeAdmin w)"
proof -
  let ?s = "store w"
  have ne: "normalizeToManageCode p = [] \<longleftrightarrow> p = []" for p
    by (auto simp: normalizeToManageCode_def Let_def)
  have f: "filter (\<lambda>q. q \<noteq> []) (map normalizeToManageCode (filter (\<lambda>p. trim p \<noteq> []) ps)) =
      map normalizeToManageCode (filter (\<lambda>p. trim p \<noteq> []) ps)"
    by (rule filter_True) (auto simp: ne)
  have "modeCodes r ManageMode (PArr ps) = map normalizeToManageCode (modeCodes r ViewMode (PArr ps))"
    by (simp only: modeCodes_def toPermissionList_def PermissionValue.case Let_def
        PermissionMode.distinct if_True if_False simp_thms f)
  moreover have "accessAllowed r ?s (ManageMode, PArr ps, nodeAdmin)"
    using assms(1,3) by (simp add: hasManagePermissionAccess_def access_spec)
  ultimately have "accessAllowed r ?s (ViewMode, PArr ps, nodeAdmin)"
    using allowed_manage_view [OF assms(2)] unfolding accessAllowed_def
    by (simp add: list_ex_iff split: if_splits) blast
  then show ?thesis using assms(1) by (simp add: hasPermissionAccess_def access_spec)
qed

theorem manage_implies_view_witness:
  "viewsFollow (store workerWorld) \<and> fst (hasPermissionAccess settingRoute (PArr [''app_view'']) False workerWorld)"
proof -
  have n: "normalizeToManageCode ''app_view'' = ''app_manage''" "trim ''app_view'' = ''app_view''"
    "trim ''app_manage'' = ''app_manage''" "toManageCode ''setting_manage'' = []"
    by code_simp+
  have "allowed (store workerWorld) ''app_manage''"
    by (simp add: allowed_def n restricted_def worker_store Let_def)
  then have "fst (hasManagePermissionAccess settingRoute (PArr [''app_view'']) False workerWorld)"
    by (simp add: hasManagePermissionAccess_def accessByMode_codes modeCodes_def toPermissionList_def n
        hp.check_spec reachable_worker Let_def)
  moreover have "viewsFollow (store workerWorld)" by (simp add: viewsFollow_def worker_store n)
  ultimately show ?thesis
    using manage_implies_view [OF reachable_worker, of settingRoute "[''app_view'']" False] by blast
qed

text \<open>A successful \<open>syncAuthInfo\<close> makes the answers those of the data just fetched,
  whatever the store and the code cache held before, and a rejected one changes nothing.\<close>

theorem syncAuthInfo_answers:
  assumes "reachable w" "fetched = (if isEnterprise (store w) then getE (currentNode (store w)) else getU)"
    and "\<And>d. fetched = Some d \<Longrightarrow> noLF (orEmpty (u_masterOnlyPermissions d))"
  shows "case fetched of
      None \<Rightarrow> syncAuthInfo getU getE None w = (None, w)
    | Some d \<Rightarrow> fst (hasPermission p (snd (syncAuthInfo getU getE None w))) \<longleftrightarrow>
        (let q = trim p; m = toManageCode q; granted = set (orEmpty (u_permissions d));
             worker = (currentNode (store w) \<noteq> ''local'');
             masterOnly = set (orEmpty (u_masterOnlyPermissions d))
         in q \<noteq> [] \<and> \<not> (worker \<and> q \<in> masterOnly) \<and>
            (u_role d = ''ADMIN'' \<or> q \<in> granted \<or> (m \<noteq> [] \<and> \<not> (worker \<and> m \<in> masterOnly) \<and> m \<in> granted)))"
proof (cases fetched)
  case (Some d)
  let ?w = "snd (syncAuthInfo getU getE None w)"
  have eq: "?w = setAuthInfo (authPayload d) w"
    using Some assms(2) by (auto simp: syncAuthInfo_def Let_def)
  then have "reachable ?w"
    using assms(1,3) Some by (auto simp: authPayload_def intro!: reachable.authed)
  then have "fst (hasPermission p ?w) = allowed (store ?w) p" by (rule hp.check_spec)
  then show ?thesis
    by (simp add: Some eq allowed_def restricted_def isMaster_def setAuthInfo_def authPayload_def Let_def) blast
qed (use assms(2) in \<open>auto simp: syncAuthInfo_def Let_def\<close>)

theorem syncAuthInfo_answers_witness:
  "let d = \<lparr>u_role = ''USER'', u_permissions = Some [''app_manage''], u_masterOnlyPermissions = None,
        u_nodeRoles = None\<rparr>
   in fst (hasPermission ''app_view'' (snd (syncAuthInfo (Some d) (\<lambda>_. None) None workerWorld)))"
proof -
  have n: "toManageCode ''app_view'' = ''app_manage''" "trim ''app_view'' = ''app_view''" by code_simp+
  have e: "isEnterprise (store workerWorld) = False"
    by (simp add: workerWorld_def setAuthInfo_def initialWorld_def initialState_def Let_def)
  show ?thesis
    using syncAuthInfo_answers [OF reachable_worker, where fetched = "Some \<lparr>u_role = ''USER'',
        u_permissions = Some [''app_manage''], u_masterOnlyPermissions = None, u_nodeRoles = None\<rparr>"
        and getU = "Some \<lparr>u_role = ''USER'', u_permissions = Some [''app_manage''],
          u_masterOnlyPermissions = None, u_nodeRoles = None\<rparr>" and getE = "\<lambda>_. None" and p = "''app_view''"]
    by (simp add: n e Let_def orEmpty_def noLF_def)
qed

end
