(* ===== verification/Permission_Directive.thy ===== *)
theory Permission_Directive
  imports Permissions
begin

text \<open>
  The \<open>v-permission\<close> directive (\<open>directives/modules/permission.ts\<close>): it makes an element and
  the form controls below it inert when the user lacks the permission, remembering in data
  attributes what it overwrote, and restores them when the permission is back. An element is a
  record of what the directive reads and writes; \<open>dom\<close> is the element with the descendants that
  the selector \<open>button, input, select, textarea\<close> finds. \<open>lifecycle_apply\<close> shows what any sequence of
  updates makes of an element; what Vue itself writes between two updates is not part of it.
\<close>

section \<open>Elements\<close>

record element =
  nativeControl :: bool
  attrs :: "string \<rightharpoonup> string"
  disabled :: bool
  pointerEvents :: string
  classList :: "string set"

record dom =
  root :: element
  descendants :: "element list"

definition PERMISSION_DISABLED_ATTR :: string where
  "PERMISSION_DISABLED_ATTR = ''data-permission-disabled''"
definition PERMISSION_POINTER_EVENTS_ATTR :: string where
  "PERMISSION_POINTER_EVENTS_ATTR = ''data-permission-pointer-events''"
definition PERMISSION_NATIVE_DISABLED_ATTR :: string where
  "PERMISSION_NATIVE_DISABLED_ATTR = ''data-permission-native-disabled''"
definition PERMISSION_TABINDEX_ATTR :: string where
  "PERMISSION_TABINDEX_ATTR = ''data-permission-tabindex''"
definition NODE_ADMIN_PERMISSION_ATTR :: string where
  "NODE_ADMIN_PERMISSION_ATTR = ''data-node-admin-permission''"

lemma attr_neq:
  "PERMISSION_DISABLED_ATTR \<noteq> PERMISSION_POINTER_EVENTS_ATTR"
  "PERMISSION_DISABLED_ATTR \<noteq> PERMISSION_NATIVE_DISABLED_ATTR"
  "PERMISSION_DISABLED_ATTR \<noteq> PERMISSION_TABINDEX_ATTR"
  "PERMISSION_DISABLED_ATTR \<noteq> NODE_ADMIN_PERMISSION_ATTR"
  "PERMISSION_DISABLED_ATTR \<noteq> ''tabindex''"
  "PERMISSION_DISABLED_ATTR \<noteq> ''aria-disabled''"
  "PERMISSION_POINTER_EVENTS_ATTR \<noteq> PERMISSION_NATIVE_DISABLED_ATTR"
  "PERMISSION_POINTER_EVENTS_ATTR \<noteq> PERMISSION_TABINDEX_ATTR"
  "PERMISSION_POINTER_EVENTS_ATTR \<noteq> NODE_ADMIN_PERMISSION_ATTR"
  "PERMISSION_POINTER_EVENTS_ATTR \<noteq> ''tabindex''"
  "PERMISSION_POINTER_EVENTS_ATTR \<noteq> ''aria-disabled''"
  "PERMISSION_NATIVE_DISABLED_ATTR \<noteq> PERMISSION_TABINDEX_ATTR"
  "PERMISSION_NATIVE_DISABLED_ATTR \<noteq> NODE_ADMIN_PERMISSION_ATTR"
  "PERMISSION_NATIVE_DISABLED_ATTR \<noteq> ''tabindex''"
  "PERMISSION_NATIVE_DISABLED_ATTR \<noteq> ''aria-disabled''"
  "PERMISSION_TABINDEX_ATTR \<noteq> NODE_ADMIN_PERMISSION_ATTR"
  "PERMISSION_TABINDEX_ATTR \<noteq> ''tabindex''"
  "PERMISSION_TABINDEX_ATTR \<noteq> ''aria-disabled''"
  "NODE_ADMIN_PERMISSION_ATTR \<noteq> ''tabindex''"
  "NODE_ADMIN_PERMISSION_ATTR \<noteq> ''aria-disabled''"
  unfolding PERMISSION_DISABLED_ATTR_def PERMISSION_POINTER_EVENTS_ATTR_def
    PERMISSION_NATIVE_DISABLED_ATTR_def PERMISSION_TABINDEX_ATTR_def NODE_ADMIN_PERMISSION_ATTR_def
  by code_simp+

declare attr_neq [simp] attr_neq [symmetric, simp]

definition setAttribute :: "string \<Rightarrow> string \<Rightarrow> element \<Rightarrow> element" where
  "setAttribute k v e = e\<lparr>attrs := (attrs e)(k \<mapsto> v)\<rparr>"

definition removeAttribute :: "string \<Rightarrow> element \<Rightarrow> element" where
  "removeAttribute k e = e\<lparr>attrs := (attrs e)(k := None)\<rparr>"

definition hasAttribute :: "string \<Rightarrow> element \<Rightarrow> bool" where
  "hasAttribute k e = (attrs e k \<noteq> None)"

lemmas attr_ops = setAttribute_def removeAttribute_def hasAttribute_def


section \<open>Disabling and enabling\<close>

text \<open>\<open>getDisableTargets\<close> is the element and its controls; both loops treat each target alone.\<close>

definition onTargets :: "(element \<Rightarrow> element) \<Rightarrow> dom \<Rightarrow> dom" where
  "onTargets f d = d\<lparr>root := f (root d), descendants := map f (descendants d)\<rparr>"

definition disableTarget :: "element \<Rightarrow> element" where
  "disableTarget e =
     (if nativeControl e then
        (let e1 = (if \<not> hasAttribute PERMISSION_NATIVE_DISABLED_ATTR e
                   then setAttribute PERMISSION_NATIVE_DISABLED_ATTR
                          (if disabled e then ''true'' else ''false'') e
                   else e)
         in e1\<lparr>disabled := True\<rparr>)
      else
        (let e1 = (if \<not> hasAttribute PERMISSION_TABINDEX_ATTR e
                   then setAttribute PERMISSION_TABINDEX_ATTR
                          (case attrs e ''tabindex'' of Some t \<Rightarrow> t | None \<Rightarrow> []) e
                   else e)
         in setAttribute ''tabindex'' ''-1'' e1))"

definition disableNativeControls :: "dom \<Rightarrow> dom" where
  "disableNativeControls = onTargets disableTarget"

definition enableTarget :: "element \<Rightarrow> element" where
  "enableTarget e =
     (if nativeControl e then
        (case attrs e PERMISSION_NATIVE_DISABLED_ATTR of
           Some previousDisabled \<Rightarrow>
             removeAttribute PERMISSION_NATIVE_DISABLED_ATTR (e\<lparr>disabled := previousDisabled = ''true''\<rparr>)
         | None \<Rightarrow> e)
      else
        (case attrs e PERMISSION_TABINDEX_ATTR of
           Some previousTabindex \<Rightarrow>
             removeAttribute PERMISSION_TABINDEX_ATTR
               (if previousTabindex = [] then removeAttribute ''tabindex'' e
                else setAttribute ''tabindex'' previousTabindex e)
         | None \<Rightarrow> e))"

definition enableNativeControls :: "dom \<Rightarrow> dom" where
  "enableNativeControls = onTargets enableTarget"

definition disableRoot :: "element \<Rightarrow> element" where
  "disableRoot e =
     (let e1 = (if \<not> hasAttribute PERMISSION_POINTER_EVENTS_ATTR e
                then setAttribute PERMISSION_POINTER_EVENTS_ATTR (pointerEvents e) e else e);
          e2 = e1\<lparr>pointerEvents := ''none''\<rparr>;
          e3 = setAttribute PERMISSION_DISABLED_ATTR ''true'' (setAttribute ''aria-disabled'' ''true'' e2)
      in e3\<lparr>classList := insert ''is-disabled'' (classList e3)\<rparr>)"

definition disableElement :: "dom \<Rightarrow> dom" where
  "disableElement d = disableNativeControls (d\<lparr>root := disableRoot (root d)\<rparr>)"

definition enableRoot :: "element \<Rightarrow> element" where
  "enableRoot e =
     (let e1 = e\<lparr>pointerEvents := (case attrs e PERMISSION_POINTER_EVENTS_ATTR of Some v \<Rightarrow> v | None \<Rightarrow> [])\<rparr>;
          e2 = removeAttribute PERMISSION_POINTER_EVENTS_ATTR
                 (removeAttribute PERMISSION_DISABLED_ATTR (removeAttribute ''aria-disabled'' e1))
      in e2\<lparr>classList := classList e2 - {''is-disabled''}\<rparr>)"

definition enableElement :: "dom \<Rightarrow> dom" where
  "enableElement d =
     (if \<not> hasAttribute PERMISSION_DISABLED_ATTR (root d) then d
      else enableNativeControls (d\<lparr>root := enableRoot (root d)\<rparr>))"


section \<open>The directives\<close>

record binding =
  bind_arg :: "string option"
  bind_value :: PermissionValue

record vnode =
  hasController :: bool
  hasNodeAdminDir :: bool

definition getPermissionMode :: "binding \<Rightarrow> PermissionMode" where
  "getPermissionMode b = (if bind_arg b = Some ''view'' then ViewMode else ManageMode)"

definition hasNodeAdminDirective :: "dom \<Rightarrow> vnode \<Rightarrow> bool" where
  "hasNodeAdminDirective d v = (hasAttribute NODE_ADMIN_PERMISSION_ATTR (root d) \<or> hasNodeAdminDir v)"

text \<open>\<open>applyPermission\<close>: the first component is the argument passed to the component's own
  \<open>setPermissionDisabled\<close>, where it exposes one.\<close>

definition applyPermission ::
  "route \<Rightarrow> binding \<Rightarrow> vnode \<Rightarrow> dom \<Rightarrow> world \<Rightarrow> bool option \<times> dom \<times> world"
where
  "applyPermission r b v d w =
     (let nodeAdmin = hasNodeAdminDirective d v;
          a = (if getPermissionMode b = ViewMode then hasPermissionAccess r (bind_value b) nodeAdmin w
               else hasManagePermissionAccess r (bind_value b) nodeAdmin w);
          dis = \<not> fst a
      in if hasController v then (Some dis, d, snd a)
         else if dis then (None, disableElement d, snd a)
         else (None, enableElement d, snd a))"

definition nodeAdminMounted :: "dom \<Rightarrow> dom" where
  "nodeAdminMounted d = d\<lparr>root := setAttribute NODE_ADMIN_PERMISSION_ATTR ''true'' (root d)\<rparr>"

definition nodeAdminUnmounted :: "dom \<Rightarrow> dom" where
  "nodeAdminUnmounted d = d\<lparr>root := removeAttribute NODE_ADMIN_PERMISSION_ATTR (root d)\<rparr>"


section \<open>Restoring\<close>

text \<open>An element that carries none of the directive's own data attributes, and what enabling leaves
  of such an element once it was disabled: the disabled class and the aria attribute are gone and
  an empty \<open>tabindex\<close> is removed, whether the directive or the component itself had set them.\<close>

definition freshTarget :: "element \<Rightarrow> bool" where
  "freshTarget e \<longleftrightarrow> \<not> hasAttribute PERMISSION_NATIVE_DISABLED_ATTR e \<and> \<not> hasAttribute PERMISSION_TABINDEX_ATTR e"

definition freshDom :: "dom \<Rightarrow> bool" where
  "freshDom d \<longleftrightarrow> freshTarget (root d) \<and> \<not> hasAttribute PERMISSION_DISABLED_ATTR (root d) \<and>
     \<not> hasAttribute PERMISSION_POINTER_EVENTS_ATTR (root d) \<and> list_all freshTarget (descendants d)"

definition releasedTarget :: "element \<Rightarrow> element" where
  "releasedTarget e = (if \<not> nativeControl e \<and> attrs e ''tabindex'' = Some [] then removeAttribute ''tabindex'' e else e)"

definition releasedRoot :: "element \<Rightarrow> element" where
  "releasedRoot e = releasedTarget ((removeAttribute ''aria-disabled'' e)\<lparr>classList := classList e - {''is-disabled''}\<rparr>)"

definition released :: "dom \<Rightarrow> dom" where
  "released d = d\<lparr>root := releasedRoot (root d), descendants := map releasedTarget (descendants d)\<rparr>"

text \<open>The elements that are released unchanged.\<close>

definition cleanDom :: "dom \<Rightarrow> bool" where
  "cleanDom d \<longleftrightarrow> \<not> hasAttribute ''aria-disabled'' (root d) \<and> ''is-disabled'' \<notin> classList (root d) \<and>
     list_all (\<lambda>e. nativeControl e \<or> attrs e ''tabindex'' \<noteq> Some []) (root d # descendants d)"

lemma released_clean: "cleanDom d \<Longrightarrow> released d = d"
proof -
  assume "cleanDom d"
  then have c: "attrs (root d) ''aria-disabled'' = None" "''is-disabled'' \<notin> classList (root d)"
    "e \<in> set (root d # descendants d) \<Longrightarrow> releasedTarget e = e" for e
    by (auto simp: cleanDom_def hasAttribute_def releasedTarget_def list_all_iff)
  have "(removeAttribute ''aria-disabled'' (root d))\<lparr>classList := classList (root d) - {''is-disabled''}\<rparr> = root d"
    using c(1,2) by (cases "root d") (simp add: removeAttribute_def fun_upd_idem)
  with c(3) show ?thesis by (cases d) (simp add: released_def releasedRoot_def map_idI)
qed

lemma enable_disable_target: "freshTarget e \<Longrightarrow> enableTarget (disableTarget e) = releasedTarget e"
  by (cases e) (auto simp: freshTarget_def enableTarget_def disableTarget_def releasedTarget_def attr_ops
      fun_eq_iff split: option.split)

lemma disable_released_target: "freshTarget e \<Longrightarrow> disableTarget (releasedTarget e) = disableTarget e"
  by (cases e) (auto simp: freshTarget_def disableTarget_def releasedTarget_def attr_ops fun_eq_iff Let_def)

lemma disableTarget_idem: "disableTarget (disableTarget e) = disableTarget e"
  by (cases e) (auto simp: disableTarget_def attr_ops fun_eq_iff Let_def)

lemma enable_disable_root:
  "freshTarget e \<Longrightarrow> \<not> hasAttribute PERMISSION_DISABLED_ATTR e \<Longrightarrow> \<not> hasAttribute PERMISSION_POINTER_EVENTS_ATTR e \<Longrightarrow>
   enableTarget (enableRoot (disableTarget (disableRoot e))) = releasedRoot e"
  by (cases e) (auto simp: freshTarget_def enableTarget_def disableTarget_def releasedTarget_def releasedRoot_def
      enableRoot_def disableRoot_def attr_ops fun_eq_iff Let_def split: option.split)

lemma disableTarget_fields [simp]:
  "nativeControl (disableTarget e) = nativeControl e" "disabled (disableTarget e) = (nativeControl e \<or> disabled e)"
  "pointerEvents (disableTarget e) = pointerEvents e" "classList (disableTarget e) = classList e"
  "element.more (disableTarget e) = element.more e"
  by (simp_all add: disableTarget_def attr_ops Let_def)

lemma disableRoot_fields [simp]:
  "nativeControl (disableRoot e) = nativeControl e" "disabled (disableRoot e) = disabled e"
  "pointerEvents (disableRoot e) = ''none''" "classList (disableRoot e) = insert ''is-disabled'' (classList e)"
  "element.more (disableRoot e) = element.more e"
  by (simp_all add: disableRoot_def attr_ops Let_def)

lemma disableTarget_attrs:
  "attrs (disableTarget e) k =
     (if nativeControl e
      then (if k = PERMISSION_NATIVE_DISABLED_ATTR \<and> attrs e k = None
            then Some (if disabled e then ''true'' else ''false'') else attrs e k)
      else if k = ''tabindex'' then Some ''-1''
      else if k = PERMISSION_TABINDEX_ATTR \<and> attrs e k = None
      then Some (case attrs e ''tabindex'' of Some t \<Rightarrow> t | None \<Rightarrow> []) else attrs e k)"
  by (cases "nativeControl e") (auto simp: disableTarget_def attr_ops)

lemma disableRoot_attrs:
  "attrs (disableRoot e) k =
     (if k = ''aria-disabled'' \<or> k = PERMISSION_DISABLED_ATTR then Some ''true''
      else if k = PERMISSION_POINTER_EVENTS_ATTR \<and> attrs e k = None then Some (pointerEvents e)
      else attrs e k)"
  by (auto simp: disableRoot_def attr_ops Let_def)

lemma releasedRoot_attrs:
  "attrs (releasedRoot e) k =
     (if k = ''aria-disabled'' \<or> k = ''tabindex'' \<and> \<not> nativeControl e \<and> attrs e k = Some [] then None else attrs e k)"
  by (auto simp: releasedRoot_def releasedTarget_def attr_ops)

lemma releasedRoot_fields [simp]:
  "nativeControl (releasedRoot e) = nativeControl e" "disabled (releasedRoot e) = disabled e"
  "pointerEvents (releasedRoot e) = pointerEvents e" "classList (releasedRoot e) = classList e - {''is-disabled''}"
  "element.more (releasedRoot e) = element.more e"
  by (simp_all add: releasedRoot_def releasedTarget_def attr_ops)

lemma disable_released_root:
  assumes "freshTarget e"
  shows "disableTarget (disableRoot (releasedRoot e)) = disableTarget (disableRoot e)"
proof -
  have "attrs (disableTarget (disableRoot (releasedRoot e))) k = attrs (disableTarget (disableRoot e)) k" for k
  proof -
    consider "k = ''aria-disabled''" | "k = PERMISSION_DISABLED_ATTR" | "k = PERMISSION_POINTER_EVENTS_ATTR"
      | "k = PERMISSION_NATIVE_DISABLED_ATTR" | "k = PERMISSION_TABINDEX_ATTR" | "k = ''tabindex''"
      | "k \<notin> {''aria-disabled'', PERMISSION_DISABLED_ATTR, PERMISSION_POINTER_EVENTS_ATTR,
          PERMISSION_NATIVE_DISABLED_ATTR, PERMISSION_TABINDEX_ATTR, ''tabindex''}"
      by blast
    then show ?thesis
      using assms
      by cases (simp_all add: freshTarget_def hasAttribute_def disableTarget_attrs disableRoot_attrs releasedRoot_attrs)
  qed
  then show ?thesis by (intro element.equality ext) simp_all
qed

lemma disableTarget_fix:
  "if nativeControl e then disabled e \<and> attrs e PERMISSION_NATIVE_DISABLED_ATTR \<noteq> None
   else attrs e ''tabindex'' = Some ''-1'' \<and> attrs e PERMISSION_TABINDEX_ATTR \<noteq> None \<Longrightarrow>
   disableTarget e = e"
  by (cases e) (auto simp: disableTarget_def attr_ops fun_upd_idem split: if_splits)

lemma disableRoot_fix:
  assumes "attrs e PERMISSION_POINTER_EVENTS_ATTR \<noteq> None" "pointerEvents e = ''none''"
    "attrs e ''aria-disabled'' = Some ''true''" "attrs e PERMISSION_DISABLED_ATTR = Some ''true''"
    "''is-disabled'' \<in> classList e"
  shows "disableRoot e = e"
  using assms by (cases e) (simp add: disableRoot_def attr_ops Let_def fun_upd_idem insert_absorb)

lemma disableRoot_idem:
  "disableTarget (disableRoot (disableTarget (disableRoot e))) = disableTarget (disableRoot e)"
proof -
  have "disableRoot (disableTarget (disableRoot e)) = disableTarget (disableRoot e)"
    by (rule disableRoot_fix) (simp_all add: disableTarget_attrs disableRoot_attrs)
  moreover have "disableTarget (disableTarget f) = disableTarget f" for f
    by (rule disableTarget_fix) (simp add: disableTarget_attrs)
  ultimately show ?thesis by simp
qed

lemma disableElement_idem [simp]: "disableElement (disableElement d) = disableElement d"
  by (cases d) (simp add: disableElement_def disableNativeControls_def onTargets_def
      disableRoot_idem disableTarget_idem)

lemma disabled_marked [simp]: "hasAttribute PERMISSION_DISABLED_ATTR (root (disableElement d))"
  by (simp add: disableElement_def disableNativeControls_def onTargets_def disableTarget_attrs
      disableRoot_attrs hasAttribute_def)

lemma enable_disable:
  assumes "freshDom d"
  shows "enableElement (disableElement d) = released d"
proof -
  have "enableElement (disableElement d) = enableNativeControls
      ((disableElement d)\<lparr>root := enableRoot (root (disableElement d))\<rparr>)"
    by (simp add: enableElement_def)
  with assms show ?thesis
    by (cases d) (auto simp: freshDom_def list_all_iff disableElement_def enableNativeControls_def released_def
        disableNativeControls_def onTargets_def enable_disable_root enable_disable_target)
qed

lemma disable_released: "freshDom d \<Longrightarrow> disableElement (released d) = disableElement d"
  by (cases d) (auto simp: freshDom_def list_all_iff disableElement_def released_def disableNativeControls_def
      onTargets_def disable_released_root disable_released_target)

lemma enable_unmarked:
  "freshDom d \<Longrightarrow> enableElement d = d" "freshDom d \<Longrightarrow> enableElement (released d) = released d"
  by (simp_all add: enableElement_def freshDom_def released_def releasedRoot_def releasedTarget_def attr_ops)

lemma nodeAdmin_disable [simp]:
  "hasNodeAdminDirective (disableElement d) v = hasNodeAdminDirective d v"
  by (simp add: hasNodeAdminDirective_def disableElement_def disableNativeControls_def onTargets_def
      disableTarget_attrs disableRoot_attrs hasAttribute_def)

lemma nodeAdmin_released [simp]: "hasNodeAdminDirective (released d) v = hasNodeAdminDirective d v"
  by (simp add: hasNodeAdminDirective_def released_def releasedRoot_def releasedTarget_def attr_ops)

text \<open>The lifecycle of the directive on one element: \<open>mounted\<close> and every \<open>updated\<close> apply it, each
  at the state of the store then. Between two of them nothing else writes the element.\<close>

fun lifecycle :: "(route \<times> binding \<times> vnode \<times> world) list \<Rightarrow> dom \<Rightarrow> dom" where
  "lifecycle [] d = d"
| "lifecycle ((r, b, v, w) # us) d = lifecycle us (fst (snd (applyPermission r b v d w)))"

definition accessOf :: "dom \<Rightarrow> route \<times> binding \<times> vnode \<times> world \<Rightarrow> bool" where
  "accessOf d u = (case u of (r, b, v, w) \<Rightarrow>
     accessAllowed r (store w) (getPermissionMode b, bind_value b, hasNodeAdminDirective d v))"

lemma apply_step:
  assumes "reachable w"
  shows "applyPermission r b v d w =
    (if hasController v then (Some (\<not> accessOf d (r, b, v, w)), d, snd (snd (applyPermission r b v d w)))
     else (None, if accessOf d (r, b, v, w) then enableElement d else disableElement d,
       snd (snd (applyPermission r b v d w))))"
  using assms access_spec [of w r]
  by (cases "getPermissionMode b") (auto simp: applyPermission_def accessOf_def hasPermissionAccess_def
      hasManagePermissionAccess_def Let_def)

lemma accessOf_kept [simp]: "accessOf (disableElement d) u = accessOf d u" "accessOf (released d) u = accessOf d u"
  by (cases u, simp add: accessOf_def)+

text \<open>The updates that reach the element, because the component takes no disabled mark itself.\<close>

definition direct :: "(route \<times> binding \<times> vnode \<times> world) list \<Rightarrow> (route \<times> binding \<times> vnode \<times> world) list" where
  "direct us = filter (\<lambda>(r, b, v, w). \<not> hasController v) us"

lemma lifecycle_touched:
  assumes "freshDom d" "\<forall>(r, b, v, w) \<in> set us. reachable w" "d' = released d \<or> d' = disableElement d"
  shows "lifecycle us d' =
    (if direct us = [] then d' else if accessOf d (last (direct us)) then released d else disableElement d)"
  using assms(2,3)
proof (induction us arbitrary: d')
  case (Cons u us)
  obtain r b v w where u: "u = (r, b, v, w)" by (cases u)
  let ?e = "fst (snd (applyPermission r b v d' w))"
  have acc: "accessOf d' u = accessOf d u" using Cons.prems(2) by auto
  have "?e = (if hasController v then d' else if accessOf d u then enableElement d' else disableElement d')"
    using Cons.prems(1) acc unfolding u by (subst apply_step) auto
  then have e: "?e = (if hasController v then d' else if accessOf d u then released d else disableElement d)"
    using Cons.prems(2) assms(1) by (auto simp: enable_disable enable_unmarked disable_released)
  then have "?e = released d \<or> ?e = disableElement d" using Cons.prems(2) by auto
  from Cons.IH [OF _ this] Cons.prems(1) u e show ?case by (auto simp: direct_def)
qed (simp add: direct_def)

lemma lifecycle_steps:
  assumes "freshDom d" "\<forall>(r, b, v, w) \<in> set us. reachable w"
  shows "lifecycle us d =
    (if list_all (accessOf d) (direct us) then d
     else if accessOf d (last (direct us)) then released d else disableElement d)"
  using assms(2)
proof (induction us)
  case (Cons u us)
  obtain r b v w where u: "u = (r, b, v, w)" by (cases u)
  let ?e = "fst (snd (applyPermission r b v d w))"
  have e: "?e = (if hasController v then d else if accessOf d u then d else disableElement d)"
    using Cons.prems assms(1) unfolding u by (subst apply_step) (auto simp: enable_unmarked)
  show ?case
  proof (cases "hasController v \<or> accessOf d u")
    case True
    then show ?thesis using Cons u e by (auto simp: direct_def)
  next
    case False
    then show ?thesis
      using lifecycle_touched [OF assms(1), of us "disableElement d"] Cons.prems u e by (auto simp: direct_def)
  qed
qed (simp add: direct_def)

text \<open>C17. What any sequence of mounts and updates of the directive makes of an element that carries
  none of the directive's data attributes, where between two of them only the directive writes the
  element. Updates on a component that takes the disabled mark itself hand it the refusal and leave
  the element alone. If all the others grant access the element is unchanged; if the last of them
  refuses, the element is as one \<open>disableElement\<close> leaves it; if the last grants access after a
  refusal, the element is \<open>released\<close>: as it was, but without \<open>aria-disabled\<close>, the class
  \<open>is-disabled\<close> and an empty \<open>tabindex\<close>, so that an element that had none of these is exactly as it
  was.\<close>

theorem lifecycle_apply:
  assumes "freshDom d" "\<forall>(r, b, v, w) \<in> set us. reachable w"
  shows "lifecycle us d =
      (if list_all (accessOf d) (direct us) then d
       else if accessOf d (last (direct us)) then released d else disableElement d) \<and>
    (cleanDom d \<longrightarrow> released d = d) \<and>
    (\<forall>(r, b, v, w) \<in> set us. hasController v \<longrightarrow>
       fst (applyPermission r b v d w) = Some (\<not> accessOf d (r, b, v, w)) \<and> fst (snd (applyPermission r b v d w)) = d)"
proof -
  have "fst (applyPermission r b v d w) = Some (\<not> accessOf d (r, b, v, w)) \<and> fst (snd (applyPermission r b v d w)) = d"
    if "(r, b, v, w) \<in> set us" "hasController v" for r b v w
  proof -
    have "reachable w" using assms(2) that(1) by auto
    from apply_step [OF this, of r b v d] that(2) show ?thesis by (metis fst_conv snd_conv)
  qed
  then show ?thesis using lifecycle_steps [OF assms] released_clean by auto
qed

text \<open>A button that its own \<open>disabled\<close> property has marked already.\<close>

definition saveButton :: dom where
  "saveButton = \<lparr>root = \<lparr>nativeControl = True, attrs = [''aria-disabled'' \<mapsto> ''true''], disabled = True,
     pointerEvents = [], classList = {''el-button'', ''is-disabled''}\<rparr>, descendants = []\<rparr>"

lemma saveButton_fresh: "freshDom saveButton"
  by (simp add: saveButton_def freshDom_def freshTarget_def attr_ops)

theorem lifecycle_apply_witness:
  "lifecycle [(settingRoute, \<lparr>bind_arg = None, bind_value = PUndef\<rparr>, \<lparr>hasController = False, hasNodeAdminDir = False\<rparr>, workerWorld)]
     saveButton = disableElement saveButton"
proof -
  have t: "toManageCode ''setting_manage'' = []" "trim ''setting_manage'' = ''setting_manage''" by code_simp+
  have "\<not> accessOf saveButton (settingRoute, \<lparr>bind_arg = None, bind_value = PUndef\<rparr>,
      \<lparr>hasController = False, hasNodeAdminDir = False\<rparr>, workerWorld)"
    by (simp add: accessOf_def accessAllowed_def modeCodes_def toPermissionList_def getRoutePermission_def
        givenPermission_def settingRoute_def getPermissionMode_def normalizeToManageCode_def t
        hasNodeAdminDirective_def saveButton_def attr_ops allowed_def restricted_def isMaster_def worker_store Let_def)
  then show ?thesis
    using lifecycle_apply [OF saveButton_fresh, of "[(settingRoute, \<lparr>bind_arg = None, bind_value = PUndef\<rparr>,
        \<lparr>hasController = False, hasNodeAdminDir = False\<rparr>, workerWorld)]"] reachable_worker
    by (simp add: direct_def)
qed

text \<open>A disabled element is inert: the pointer passes it, and the element and every control
  below it are disabled or out of the tab order.\<close>

theorem disableElement_inert:
  "pointerEvents (root (disableElement d)) = ''none'' \<and>
   list_all (\<lambda>e. if nativeControl e then disabled e else attrs e ''tabindex'' = Some ''-1'')
     (root (disableElement d) # descendants (disableElement d))"
proof -
  have "if nativeControl (disableTarget e) then disabled (disableTarget e)
      else attrs (disableTarget e) ''tabindex'' = Some ''-1''" for e
    by (simp add: disableTarget_attrs)
  then show ?thesis
    by (auto simp: list_all_iff disableElement_def disableNativeControls_def onTargets_def)
qed

end
