(* ===== verification/Terminal_Sessions.thy ===== *)
theory Terminal_Sessions
  imports Prelude
begin

text \<open>
  The terminal session store (\<open>store/modules/terminal-session.ts\<close>). The state holds the
  entries, the mounted terminal components by key (a component is a number; whether its socket
  is open and its latency are parameters of \<open>sync\<close>) and their slots. Keys come from the uuid
  package: the parameter \<open>uuid\<close> maps the number of ids drawn so far to the next id. Awaiting
  the next tick is the list of component maps seen at successive ticks. \<open>encodeURIComponent\<close> and
  \<open>decodeURIComponent\<close> are those of the language on strings of units below 256.
\<close>

section \<open>Percent encoding\<close>

definition isUnreserved :: "char \<Rightarrow> bool" where
  [js_defs]: "isUnreserved c = (let n = (of_char c :: nat) in
     (65 \<le> n \<and> n \<le> 90) \<or> (97 \<le> n \<and> n \<le> 122) \<or> (48 \<le> n \<and> n \<le> 57) \<or> c \<in> set ''-_.!~*()'' \<or> n = 39)"

definition upperHex :: "nat \<Rightarrow> char" where
  [js_defs]: "upperHex d = char_of (if d < 10 then 48 + d else 55 + d)"

definition percentByte :: "nat \<Rightarrow> string" where
  [js_defs]: "percentByte b = [CHR ''%'', upperHex (b div 16), upperHex (b mod 16)]"

definition encodeChar :: "char \<Rightarrow> string" where
  [js_defs]: "encodeChar c =
     (let n = (of_char c :: nat)
      in if isUnreserved c then [c]
         else if n < 128 then percentByte n
         else percentByte (192 + n div 64) @ percentByte (128 + n mod 64))"

definition encodeURIComponent :: "string \<Rightarrow> string" where
  [js_defs]: "encodeURIComponent s = concat (map encodeChar s)"

definition hexValue :: "char \<Rightarrow> nat option" where
  [js_defs]: "hexValue c =
     (let n = (of_char c :: nat)
      in if 48 \<le> n \<and> n \<le> 57 then Some (n - 48) else if 65 \<le> n \<and> n \<le> 70 then Some (n - 55)
         else if 97 \<le> n \<and> n \<le> 102 then Some (n - 87) else None)"

definition hexByte :: "char \<Rightarrow> char \<Rightarrow> nat option" where
  [js_defs]: "hexByte a b =
     (case hexValue a of None \<Rightarrow> None
      | Some x \<Rightarrow> (case hexValue b of None \<Rightarrow> None | Some y \<Rightarrow> Some (16 * x + y)))"

text \<open>\<open>None\<close> is the \<open>URIError\<close>, and the escapes of units beyond 255.\<close>

fun decodeURIComponent :: "string \<Rightarrow> string option" where
  "decodeURIComponent [] = Some []"
| "decodeURIComponent (c # s) =
     (if c \<noteq> CHR ''%'' then map_option ((#) c) (decodeURIComponent s)
      else case s of
        a # b # s1 \<Rightarrow>
          (case hexByte a b of None \<Rightarrow> None
           | Some n \<Rightarrow>
               if n < 128 then map_option ((#) (char_of n)) (decodeURIComponent s1)
               else case s1 of
                 p # a2 # b2 # s2 \<Rightarrow>
                   (case hexByte a2 b2 of None \<Rightarrow> None
                    | Some m \<Rightarrow> if p = CHR ''%'' \<and> 194 \<le> n \<and> n \<le> 195 \<and> 128 \<le> m \<and> m < 192
                        then map_option ((#) (char_of (64 * (n - 192) + (m - 128)))) (decodeURIComponent s2)
                        else None)
               | _ \<Rightarrow> None)
      | _ \<Rightarrow> None)"

lemma hexValue_upperHex: "d < 16 \<Longrightarrow> hexValue (upperHex d) = Some d"
  by (simp add: hexValue_def upperHex_def Let_def)

lemma hexByte_percent: "b < 256 \<Longrightarrow> hexByte (upperHex (b div 16)) (upperHex (b mod 16)) = Some b"
  by (simp add: hexByte_def hexValue_upperHex less_mult_imp_div_less)

lemma decode_encodeChar:
  "decodeURIComponent (encodeChar c @ s) = map_option ((#) c) (decodeURIComponent s)"
proof -
  define n where "n = (of_char c :: nat)"
  have n: "n < 256" "char_of n = c" using of_char_less [of c] by (simp_all add: n_def)
  have pct: "isUnreserved c \<Longrightarrow> c \<noteq> CHR ''%''" by (auto simp: isUnreserved_def Let_def)
  consider "isUnreserved c" | "\<not> isUnreserved c" "n < 128" | "\<not> isUnreserved c" "128 \<le> n" by linarith
  then show ?thesis
  proof cases
    case 1
    then show ?thesis using pct by (simp add: encodeChar_def Let_def)
  next
    case 2
    then show ?thesis using n
      by (simp add: encodeChar_def n_def [symmetric] percentByte_def hexByte_percent Let_def)
  next
    case 3
    define a where "a = 192 + n div 64"
    define b where "b = 128 + n mod 64"
    have ab: "a < 256" "b < 256" "194 \<le> a" "a \<le> 195" "128 \<le> b" "b < 192"
      using 3(2) n(1) by (auto simp: a_def b_def)
    have eq: "64 * (a - 192) + (b - 128) = n" by (simp add: a_def b_def)
    have enc: "encodeChar c = percentByte a @ percentByte b"
      using 3 by (simp add: encodeChar_def n_def [symmetric] a_def b_def Let_def)
    show ?thesis
      using hexByte_percent [OF ab(1)] hexByte_percent [OF ab(2)] ab(3-6) n(2)
      by (simp add: enc percentByte_def eq)
  qed
qed

lemma decode_encode [simp]: "decodeURIComponent (encodeURIComponent s) = Some s"
proof (induction s)
  case Nil
  then show ?case by (simp add: encodeURIComponent_def)
next
  case (Cons c s)
  then show ?case using decode_encodeChar [of c "encodeURIComponent s"] by (simp add: encodeURIComponent_def)
qed


section \<open>State\<close>

datatype SessionStatus = Online | Closed

record TerminalSessionEntry =
  ekey :: string
  etitle :: string
  wsID :: int
  endpoint :: string
  eargs :: string
  sessionId :: string
  status :: SessionStatus
  latency :: int
  refresh :: nat

record TerminalState =
  entries :: "TerminalSessionEntry list"
  instances :: "string \<rightharpoonup> nat"
  slots :: "string \<rightharpoonup> nat option"
  drawn :: nat

record open_init =
  i_title :: string
  i_wsID :: int
  i_nodeName :: string
  i_args :: string
  i_status :: "SessionStatus option"
  i_initCmd :: string
  i_error :: string

record acceptParams =
  a_instance :: nat
  a_endpoint :: string
  a_args :: string
  a_initCmd :: string
  a_sessionId :: "string option"
  a_error :: string

record remote_session =
  s_id :: string
  s_kind :: string
  s_title :: string
  s_hostId :: int
  s_attached :: bool

definition localEndpoint :: string where "localEndpoint = ''/api/v2/hosts/terminal/local''"
definition sshEndpoint :: string where "sshEndpoint = ''/api/v2/hosts/terminal/ssh''"

definition initialTerminal :: TerminalState where
  "initialTerminal = \<lparr>entries = [], instances = Map.empty, slots = Map.empty, drawn = 0\<rparr>"


section \<open>Operations\<close>

definition findEntry :: "string \<Rightarrow> TerminalState \<Rightarrow> TerminalSessionEntry option" where
  "findEntry key s = find (\<lambda>e. ekey e = key) (entries s)"

fun instanceOf :: "nat \<Rightarrow> (string \<rightharpoonup> nat) list \<Rightarrow> string \<Rightarrow> nat option" where
  "instanceOf n [] key = None"
| "instanceOf 0 (m # ms) key = m key"
| "instanceOf (Suc n) (m # ms) key = (case m key of Some i \<Rightarrow> Some i | None \<Rightarrow> instanceOf n ms key)"

text \<open>The capture of \<open>/operateNode=([^&]+)/\<close>.\<close>

fun operateNodeOf :: "string \<Rightarrow> string" where
  "operateNodeOf [] = []"
| "operateNodeOf (c # s) =
     (let v = takeWhile (\<lambda>x. x \<noteq> CHR ''&'') (drop 12 (c # s))
      in if prefix ''operateNode='' (c # s) \<and> v \<noteq> [] then v else operateNodeOf s)"

definition joinArgs :: "string list \<Rightarrow> string" where
  "joinArgs xs = joinWith ''&'' (filter (\<lambda>x. x \<noteq> []) xs)"

text \<open>Title and arguments of a new session; \<open>None\<close> is a \<open>URIError\<close> of the node's name.\<close>

definition titleArgs :: "string \<Rightarrow> open_init \<Rightarrow> (string \<times> string) option" where
  "titleArgs currentNode init =
     (if i_wsID init = 0 then
        (let n0 = operateNodeOf (i_args init);
             name = (if i_nodeName init \<noteq> [] then i_nodeName init
                     else if currentNode \<noteq> [] then currentNode else ''local'');
             node = (if n0 \<noteq> [] then n0 else encodeURIComponent name);
             args = (if \<not> includesSub (i_args init) ''operateNode=''
                     then joinArgs [i_args init, ''operateNode='' @ node] else i_args init)
         in if node \<noteq> ''local'' \<and> i_nodeName init = [] then
              (case decodeURIComponent node of None \<Rightarrow> None
               | Some d \<Rightarrow> Some (i_title init @ '' ('' @ d @ '')'', args))
            else Some (i_title init, args))
      else Some (i_title init, i_args init))"

definition addSession ::
  "(nat \<Rightarrow> string) \<Rightarrow> string \<Rightarrow> open_init \<Rightarrow> TerminalState \<Rightarrow> (string \<times> TerminalState) option"
where
  "addSession uuid currentNode init s =
     (let key = uuid (drawn s); q = ''title='' @ encodeURIComponent (i_title init)
      in case titleArgs currentNode init of None \<Rightarrow> None
         | Some (title, args) \<Rightarrow>
             Some (key, s\<lparr>drawn := Suc (drawn s), entries := entries s @
               [\<lparr>ekey = key, etitle = title, wsID = i_wsID init,
                 endpoint = (if i_wsID init = 0 then localEndpoint else sshEndpoint),
                 eargs = joinArgs [if i_wsID init = 0 then [] else ''id='' @ decimalInt (i_wsID init), args, q],
                 sessionId = [], status = (case i_status init of Some st \<Rightarrow> st | None \<Rightarrow> Online),
                 latency = 0, refresh = 0\<rparr>]\<rparr>))"

definition openSession ::
  "(nat \<Rightarrow> string) \<Rightarrow> string \<Rightarrow> (string \<rightharpoonup> nat) list \<Rightarrow> open_init \<Rightarrow> TerminalState \<Rightarrow>
   (string \<times> acceptParams option \<times> TerminalState) option"
where
  "openSession uuid currentNode ticks init s =
     (case addSession uuid currentNode
             (init\<lparr>i_status := Some (if i_error init \<noteq> [] then Closed else Online)\<rparr>) s of
        None \<Rightarrow> None
      | Some (key, s1) \<Rightarrow>
          (case findEntry key s1 of None \<Rightarrow> None
           | Some e \<Rightarrow>
               Some (key,
                 map_option (\<lambda>inst. \<lparr>a_instance = inst, a_endpoint = endpoint e, a_args = eargs e,
                     a_initCmd = i_initCmd init, a_sessionId = None, a_error = i_error init\<rparr>)
                   (instanceOf 5 ticks key), s1)))"

definition bumpRefresh :: "TerminalSessionEntry \<Rightarrow> TerminalSessionEntry" where
  "bumpRefresh e = e\<lparr>refresh := Suc (refresh e)\<rparr>"

definition reconnect ::
  "(string \<rightharpoonup> nat) list \<Rightarrow> string \<Rightarrow> string \<Rightarrow> string \<Rightarrow> TerminalState \<Rightarrow> acceptParams option \<times> TerminalState"
where
  "reconnect ticks key err initCmd s =
     (case findEntry key s of None \<Rightarrow> (None, s)
      | Some e \<Rightarrow>
          (map_option (\<lambda>inst. \<lparr>a_instance = inst, a_endpoint = endpoint e, a_args = eargs e,
               a_initCmd = initCmd, a_sessionId = Some (sessionId e), a_error = err\<rparr>)
             (instanceOf 5 ticks key),
           s\<lparr>entries := updateFirst (\<lambda>x. ekey x = key) bumpRefresh (entries s)\<rparr>))"

definition assignSession :: "string \<Rightarrow> TerminalSessionEntry \<Rightarrow> TerminalSessionEntry" where
  "assignSession sid e = e\<lparr>sessionId := sid\<rparr>"

text \<open>The body of the loop of \<open>restore\<close> over the sessions of one answer; \<open>i\<close> is the answer's
  position and \<open>localhost\<close> the translation of the default title.\<close>

definition restoreOne ::
  "(nat \<Rightarrow> string) \<Rightarrow> string \<Rightarrow> string \<Rightarrow> nat \<Rightarrow> bool \<Rightarrow> remote_session \<Rightarrow> TerminalState \<Rightarrow> TerminalState option"
where
  "restoreOne uuid localhost currentNode i fromLocalNode r s =
     (if s_kind r \<noteq> ''local'' \<and> s_kind r \<noteq> ''ssh'' then Some s
      else if s_attached r \<or> list_ex (\<lambda>e. sessionId e = s_id r) (entries s) then Some s
      else if s_hostId r > 0 \<and> \<not> fromLocalNode then Some s
      else case addSession uuid currentNode
                  \<lparr>i_title = (if s_title r \<noteq> [] then s_title r else localhost), i_wsID = s_hostId r,
                   i_nodeName = [], i_args = (if s_hostId r = 0 \<and> i = 1 then ''operateNode=local'' else []),
                   i_status = None, i_initCmd = [], i_error = []\<rparr> s of
             None \<Rightarrow> None
           | Some (key, s1) \<Rightarrow>
               Some (s1\<lparr>entries := updateFirst (\<lambda>x. ekey x = key) (assignSession (s_id r)) (entries s1)\<rparr>))"

fun restoreAll ::
  "(nat \<Rightarrow> string) \<Rightarrow> string \<Rightarrow> string \<Rightarrow> nat \<Rightarrow> bool \<Rightarrow> remote_session list \<Rightarrow> TerminalState \<Rightarrow> TerminalState option"
where
  "restoreAll uuid localhost currentNode i fl [] s = Some s"
| "restoreAll uuid localhost currentNode i fl (r # rs) s =
     Option.bind (restoreOne uuid localhost currentNode i fl r s) (restoreAll uuid localhost currentNode i fl rs)"

text \<open>The first part of \<open>restore\<close>: the answers of the current node and, when that is not the local
  node, of the local node; \<open>None\<close> is a rejected request. The second part reconnects the entries
  that have a session, with the ticks each reconnection sees.\<close>

definition restoreEntries ::
  "(nat \<Rightarrow> string) \<Rightarrow> string \<Rightarrow> string \<Rightarrow> remote_session list option \<Rightarrow> remote_session list option \<Rightarrow>
   TerminalState \<Rightarrow> TerminalState option"
where
  "restoreEntries uuid localhost currentNode fromNode fromLocal s =
     (let node = (if currentNode \<noteq> [] then currentNode else ''local'');
          s1 = (case fromNode of None \<Rightarrow> Some s
                | Some rs \<Rightarrow> restoreAll uuid localhost currentNode 0 (node = ''local'') rs s)
      in if node = ''local'' then s1
         else Option.bind s1 (\<lambda>s1'. case fromLocal of None \<Rightarrow> Some s1'
                | Some rs \<Rightarrow> restoreAll uuid localhost currentNode 1 True rs s1'))"

fun reconnectAll ::
  "(string \<rightharpoonup> nat) list \<Rightarrow> TerminalSessionEntry list \<Rightarrow> TerminalState \<Rightarrow> acceptParams option list \<times> TerminalState"
where
  "reconnectAll ticks [] s = ([], s)"
| "reconnectAll ticks (e # es) s =
     (if sessionId e \<noteq> [] then
        (let (c, s1) = reconnect ticks (ekey e) [] [] s; (cs, s2) = reconnectAll ticks es s1
         in (c # cs, s2))
      else reconnectAll ticks es s)"

definition restore ::
  "(nat \<Rightarrow> string) \<Rightarrow> string \<Rightarrow> string \<Rightarrow> (string \<rightharpoonup> nat) list \<Rightarrow> remote_session list option \<Rightarrow>
   remote_session list option \<Rightarrow> TerminalState \<Rightarrow> (acceptParams option list \<times> TerminalState) option"
where
  "restore uuid localhost currentNode ticks fromNode fromLocal s =
     map_option (\<lambda>s1. reconnectAll ticks (entries s1) s1)
       (restoreEntries uuid localhost currentNode fromNode fromLocal s)"

definition removeWhere :: "(TerminalSessionEntry \<Rightarrow> bool) \<Rightarrow> TerminalState \<Rightarrow> TerminalState" where
  "removeWhere match s =
     (let ks = ekey ` set (filter match (entries s))
      in s\<lparr>instances := (\<lambda>k. if k \<in> ks then None else instances s k),
           slots := (\<lambda>k. if k \<in> ks then None else slots s k),
           entries := filter (\<lambda>e. \<not> match e) (entries s)\<rparr>)"

definition removeSession :: "string \<Rightarrow> TerminalState \<Rightarrow> TerminalState" where
  "removeSession key = removeWhere (\<lambda>e. ekey e = key)"

definition closeAll :: "TerminalState \<Rightarrow> TerminalState" where
  "closeAll = removeWhere (\<lambda>_. True)"

definition goOnline :: "string \<Rightarrow> TerminalSessionEntry \<Rightarrow> TerminalSessionEntry" where
  "goOnline sid e = e\<lparr>sessionId := sid, status := Online\<rparr>"

definition setSessionId :: "string \<Rightarrow> string \<Rightarrow> TerminalState \<Rightarrow> TerminalState" where
  "setSessionId key sid s = s\<lparr>entries := updateFirst (\<lambda>e. ekey e = key) (goOnline sid) (entries s)\<rparr>"

definition expire :: "TerminalSessionEntry \<Rightarrow> TerminalSessionEntry" where
  "expire e = e\<lparr>sessionId := [], status := Closed\<rparr>"

definition onExpired :: "string \<Rightarrow> TerminalState \<Rightarrow> TerminalState" where
  "onExpired key s = s\<lparr>entries := updateFirst (\<lambda>e. ekey e = key) expire (entries s)\<rparr>"

definition setInstance :: "string \<Rightarrow> nat option \<Rightarrow> TerminalState \<Rightarrow> TerminalState" where
  "setInstance key inst s = s\<lparr>instances := (instances s)(key := inst)\<rparr>"

definition setSlot :: "string \<Rightarrow> nat option \<Rightarrow> TerminalState \<Rightarrow> TerminalState" where
  "setSlot key el s = s\<lparr>slots := (slots s)(key \<mapsto> el)\<rparr>"

definition syncEntry ::
  "(nat \<Rightarrow> bool) \<Rightarrow> (nat \<Rightarrow> int) \<Rightarrow> (string \<rightharpoonup> nat) \<Rightarrow> TerminalSessionEntry \<Rightarrow> TerminalSessionEntry"
where
  "syncEntry isWsOpen getLatency insts e =
     (case insts (ekey e) of None \<Rightarrow> e
      | Some inst \<Rightarrow> e\<lparr>status := (if isWsOpen inst then Online else Closed), latency := getLatency inst\<rparr>)"

definition syncSessions :: "(nat \<Rightarrow> bool) \<Rightarrow> (nat \<Rightarrow> int) \<Rightarrow> TerminalState \<Rightarrow> TerminalState" where
  "syncSessions isWsOpen getLatency s =
     s\<lparr>entries := map (syncEntry isWsOpen getLatency (instances s)) (entries s)\<rparr>"


section \<open>Keys\<close>

interpretation eb: keyed_edit ekey bumpRefresh
  by unfold_locales (simp add: bumpRefresh_def)

interpretation ea: keyed_edit ekey "assignSession sid" for sid
  by unfold_locales (simp add: assignSession_def)

interpretation eg: keyed_edit ekey "goOnline sid" for sid
  by unfold_locales (simp add: goOnline_def)

interpretation ex: keyed_edit ekey expire
  by unfold_locales (simp add: expire_def)

interpretation es: keyed_edit ekey "syncEntry isWsOpen getLatency insts" for isWsOpen getLatency insts
  by unfold_locales (simp add: syncEntry_def split: option.split)

definition keysInv :: "(nat \<Rightarrow> string) \<Rightarrow> TerminalState \<Rightarrow> bool" where
  "keysInv uuid s \<longleftrightarrow> distinct (map ekey (entries s)) \<and> set (map ekey (entries s)) \<subseteq> uuid ` {..<drawn s}"

lemma keysInv_edit:
  "map ekey es = map ekey (entries s) \<Longrightarrow> keysInv uuid (s\<lparr>entries := es\<rparr>) = keysInv uuid s"
  by (simp add: keysInv_def del: set_map map_map)

lemma addSession_entries:
  assumes "addSession uuid node init s = Some (key, s1)"
  obtains e where "entries s1 = entries s @ [e]" "ekey e = key" "key = uuid (drawn s)" "sessionId e = []"
    "drawn s1 = Suc (drawn s)" "instances s1 = instances s" "slots s1 = slots s"
  using assms by (auto simp: addSession_def Let_def split: option.splits)

lemma keysInv_add:
  assumes "inj uuid" "keysInv uuid s" "addSession uuid node init s = Some (key, s1)"
  shows "keysInv uuid s1" "key \<notin> ekey ` set (entries s)"
proof -
  obtain e where e: "entries s1 = entries s @ [e]" "ekey e = key" "key = uuid (drawn s)" "drawn s1 = Suc (drawn s)"
    using addSession_entries [OF assms(3)] by blast
  show fresh: "key \<notin> ekey ` set (entries s)"
    using assms(1,2) e(3) by (auto simp: keysInv_def dest!: subsetD [of "ekey ` _"] injD [OF assms(1)])
  show "keysInv uuid s1"
    using assms(2) e fresh by (auto simp: keysInv_def lessThan_Suc)
qed

lemma reconnect_keys [simp]: "map ekey (entries (snd (reconnect ticks key err cmd s))) = map ekey (entries s)"
  "drawn (snd (reconnect ticks key err cmd s)) = drawn s"
  by (simp_all add: reconnect_def split: option.split)

lemma keysInv_reconnect: "keysInv uuid s \<Longrightarrow> keysInv uuid (snd (reconnect ticks key err cmd s))"
  by (simp add: keysInv_def del: set_map)

lemma keysInv_remove: "keysInv uuid s \<Longrightarrow> keysInv uuid (removeWhere match s)"
  by (auto simp: keysInv_def removeWhere_def Let_def distinct_map_filter)


section \<open>Restoring sessions\<close>

definition ids :: "TerminalState \<Rightarrow> string set" where
  "ids s = sessionId ` set (entries s)"

text \<open>The session is not one to restore, or is restored.\<close>

definition restored :: "bool \<Rightarrow> TerminalState \<Rightarrow> remote_session \<Rightarrow> bool" where
  "restored fl s r \<longleftrightarrow> (s_kind r \<noteq> ''local'' \<and> s_kind r \<noteq> ''ssh'') \<or> s_attached r \<or> s_id r \<in> ids s \<or>
     (s_hostId r > 0 \<and> \<not> fl)"

lemma restoreOne_restored: "restored fl s r \<Longrightarrow> restoreOne uuid lh node i fl r s = Some s"
  by (auto simp: restored_def restoreOne_def ids_def list_ex_iff)

lemma restored_mono: "restored fl s r \<Longrightarrow> ids s \<subseteq> ids s1 \<Longrightarrow> restored fl s1 r"
  by (auto simp: restored_def)

lemma titleArgs_total:
  assumes "i_args init = [] \<or> i_args init = ''operateNode=local''"
  shows "titleArgs node init \<noteq> None"
proof -
  have "operateNodeOf ''operateNode=local'' = ''local''" by code_simp
  with assms show ?thesis by (auto simp: titleArgs_def Let_def split: option.splits)
qed

lemma updateFirst_snoc:
  "\<forall>x \<in> set xs. \<not> P x \<Longrightarrow> P y \<Longrightarrow> updateFirst P f (xs @ [y]) = xs @ [f y]"
  by (induction xs) auto

lemma restoreOne_step:
  assumes "inj uuid" "keysInv uuid s"
  shows "\<exists>s1. restoreOne uuid lh node i fl r s = Some s1 \<and> keysInv uuid s1 \<and> ids s \<subseteq> ids s1 \<and> restored fl s1 r"
proof (cases "restored fl s r")
  case True
  then show ?thesis using assms restoreOne_restored by auto
next
  case False
  define init where "init = \<lparr>i_title = (if s_title r \<noteq> [] then s_title r else lh), i_wsID = s_hostId r,
    i_nodeName = [], i_args = (if s_hostId r = 0 \<and> i = 1 then ''operateNode=local'' else []),
    i_status = None, i_initCmd = [], i_error = []\<rparr>"
  have "titleArgs node init \<noteq> None" by (rule titleArgs_total) (simp add: init_def)
  then obtain key s1 where add: "addSession uuid node init s = Some (key, s1)"
    by (auto simp: addSession_def Let_def)
  obtain e where e: "entries s1 = entries s @ [e]" "ekey e = key" using addSession_entries [OF add] by blast
  let ?s2 = "s1\<lparr>entries := updateFirst (\<lambda>x. ekey x = key) (assignSession (s_id r)) (entries s1)\<rparr>"
  have "\<not> (s_kind r \<noteq> ''local'' \<and> s_kind r \<noteq> ''ssh'')"
    "\<not> (s_attached r \<or> list_ex (\<lambda>e. sessionId e = s_id r) (entries s))" "\<not> (s_hostId r > 0 \<and> \<not> fl)"
    using False by (force simp: restored_def ids_def list_ex_iff)+
  then have one: "restoreOne uuid lh node i fl r s = Some ?s2"
    using add by (simp only: restoreOne_def init_def [symmetric] if_False option.case prod.case)
  have "updateFirst (\<lambda>x. ekey x = key) (assignSession (s_id r)) (entries s1) = entries s @ [assignSession (s_id r) e]"
    using keysInv_add(2) [OF assms add] e(2) unfolding e(1) by (intro updateFirst_snoc) (metis imageI)+
  then have "ids ?s2 = insert (s_id r) (ids s)" by (simp add: ids_def assignSession_def)
  moreover have "keysInv uuid ?s2" using keysInv_add(1) [OF assms add] by (simp add: keysInv_edit)
  ultimately show ?thesis using one by (auto simp: restored_def)
qed

lemma restoreAll_step:
  assumes "inj uuid" "keysInv uuid s"
  shows "\<exists>s1. restoreAll uuid lh node i fl rs s = Some s1 \<and> keysInv uuid s1 \<and> ids s \<subseteq> ids s1 \<and>
    (\<forall>r \<in> set rs. restored fl s1 r)"
  using assms(2)
proof (induction rs arbitrary: s)
  case (Cons r rs)
  obtain s1 where s1: "restoreOne uuid lh node i fl r s = Some s1" "keysInv uuid s1" "ids s \<subseteq> ids s1" "restored fl s1 r"
    using restoreOne_step [OF assms(1) Cons.prems] by blast
  then obtain s2 where "restoreAll uuid lh node i fl rs s1 = Some s2" "keysInv uuid s2" "ids s1 \<subseteq> ids s2"
    "\<forall>r \<in> set rs. restored fl s2 r"
    using Cons.IH by blast
  with s1 restored_mono [of fl s1 r s2] show ?case by auto
qed simp

lemma restoreAll_restored: "\<forall>r \<in> set rs. restored fl s r \<Longrightarrow> restoreAll uuid lh node i fl rs s = Some s"
  by (induction rs) (auto simp: restoreOne_restored)

lemma restoreEntries_step:
  assumes "inj uuid" "keysInv uuid s"
  shows "\<exists>s1. restoreEntries uuid lh node a b s = Some s1 \<and> keysInv uuid s1 \<and>
    restoreEntries uuid lh node a b s1 = Some s1"
proof -
  define nd where "nd = (if node \<noteq> [] then node else ''local'')"
  define part where "part i fl ans s = (case ans of None \<Rightarrow> Some s | Some rs \<Rightarrow> restoreAll uuid lh node i fl rs s)"
    for i fl and ans :: "remote_session list option" and s
  have step: "\<exists>s1. part i fl ans s = Some s1 \<and> keysInv uuid s1 \<and> ids s \<subseteq> ids s1 \<and>
      (\<forall>s2. ids s1 \<subseteq> ids s2 \<longrightarrow> part i fl ans s2 = Some s2)" if inv: "keysInv uuid s" for i fl ans s
  proof (cases ans)
    case (Some rs)
    then show ?thesis
      using restoreAll_step [OF assms(1) inv, of lh node i fl rs] restored_mono restoreAll_restored
      unfolding part_def by (metis option.case(2))
  qed (use inv in \<open>simp add: part_def\<close>)
  have eq: "restoreEntries uuid lh node a b t = (if nd = ''local'' then part 0 (nd = ''local'') a t
      else Option.bind (part 0 (nd = ''local'') a t) (part 1 True b))" for t
    unfolding restoreEntries_def part_def [abs_def] nd_def [symmetric] Let_def by (rule refl)
  obtain s1 where s1: "part 0 (nd = ''local'') a s = Some s1" "keysInv uuid s1"
    "\<forall>s2. ids s1 \<subseteq> ids s2 \<longrightarrow> part 0 (nd = ''local'') a s2 = Some s2"
    using step [OF assms(2)] by blast
  obtain s2 where s2: "part 1 True b s1 = Some s2" "keysInv uuid s2" "ids s1 \<subseteq> ids s2" "part 1 True b s2 = Some s2"
    using step [OF s1(2)] by blast
  show ?thesis
  proof (cases "nd = ''local''")
    case True
    with s1 show ?thesis by (auto simp: eq)
  next
    case False
    with s1 s2 show ?thesis by (auto simp: eq)
  qed
qed

text \<open>Restoring never fails and never duplicates: adding the sessions the servers report
  succeeds whatever they answer, and doing it again with the same answers adds nothing.\<close>

theorem restore_once:
  assumes "inj uuid" "keysInv uuid s"
  shows "\<exists>s1. restoreEntries uuid localhost node fromNode fromLocal s = Some s1 \<and>
    restoreEntries uuid localhost node fromNode fromLocal s1 = Some s1"
  using restoreEntries_step [OF assms] by blast

lemma keysInv_initial: "keysInv uuid initialTerminal"
  by (simp add: keysInv_def initialTerminal_def)

theorem restore_once_witness:
  "\<exists>s1. restoreEntries decimal ''localhost'' ''edge-1'' None (Some [\<lparr>s_id = ''s1'', s_kind = ''ssh'',
       s_title = ''db'', s_hostId = 4, s_attached = False\<rparr>]) initialTerminal = Some s1"
  using restore_once [OF decimal_inj keysInv_initial] by blast


section \<open>Reachable states\<close>

inductive sessionsReach :: "(nat \<Rightarrow> string) \<Rightarrow> TerminalState \<Rightarrow> bool" for uuid where
  start: "sessionsReach uuid initialTerminal"
| opened: "sessionsReach uuid s \<Longrightarrow> openSession uuid node ticks init s = Some (key, c, s1) \<Longrightarrow> sessionsReach uuid s1"
| reconnected: "sessionsReach uuid s \<Longrightarrow> sessionsReach uuid (snd (reconnect ticks key err cmd s))"
| refetched: "sessionsReach uuid s \<Longrightarrow> restoreEntries uuid lh node a b s = Some s1 \<Longrightarrow> sessionsReach uuid s1"
| removed: "sessionsReach uuid s \<Longrightarrow> sessionsReach uuid (removeSession key s)"
| closed: "sessionsReach uuid s \<Longrightarrow> sessionsReach uuid (closeAll s)"
| bound: "sessionsReach uuid s \<Longrightarrow> sessionsReach uuid (setSessionId key sid s)"
| expired: "sessionsReach uuid s \<Longrightarrow> sessionsReach uuid (onExpired key s)"
| mounted: "sessionsReach uuid s \<Longrightarrow> sessionsReach uuid (setInstance key inst s)"
| slotted: "sessionsReach uuid s \<Longrightarrow> sessionsReach uuid (setSlot key el s)"
| synced: "sessionsReach uuid s \<Longrightarrow> sessionsReach uuid (syncSessions op lat s)"

lemma sessions_keysInv:
  assumes "inj uuid" "sessionsReach uuid s"
  shows "keysInv uuid s"
  using assms(2)
proof (induction rule: sessionsReach.induct)
  case (opened s node ticks init key c s1)
  then obtain k where "addSession uuid node (init\<lparr>i_status := Some (if i_error init \<noteq> [] then Closed else Online)\<rparr>) s
      = Some (k, s1)"
    by (auto simp: openSession_def split: option.splits)
  with opened.IH show ?case using keysInv_add(1) [OF assms(1)] by blast
next
  case (synced s op lat)
  then show ?case unfolding syncSessions_def by (subst keysInv_edit) (rule es.map_key_edit)
next
  case (refetched s lh node a b s1)
  then show ?case using restoreEntries_step [OF assms(1) refetched.IH, of lh node a b] by auto
qed (simp_all add: keysInv_initial keysInv_reconnect keysInv_remove removeSession_def closeAll_def
    setSessionId_def onExpired_def syncSessions_def keysInv_edit setInstance_def setSlot_def, simp_all add: keysInv_def)

text \<open>In every state the store can reach, keys are unique, so closing a session removes exactly
  the entry, the component and the slot of that key and touches no other session.\<close>

theorem removeSession_exact:
  assumes "inj uuid" "sessionsReach uuid s"
  shows "distinct (map ekey (entries s)) \<and>
    (\<forall>k. findEntry k (removeSession key s) = (if k = key then None else findEntry k s)) \<and>
    (findEntry key s \<noteq> None \<longrightarrow> instances (removeSession key s) = (instances s)(key := None) \<and>
       slots (removeSession key s) = (slots s)(key := None))"
proof -
  have f: "find (\<lambda>e. ekey e = k) (filter (\<lambda>e. ekey e \<noteq> key) es) =
      (if k = key then None else find (\<lambda>e. ekey e = k) es)" for k and es :: "TerminalSessionEntry list"
    by (induction es) auto
  have "ekey ` set (filter (\<lambda>e. ekey e = key) (entries s)) = {key}" if ne: "findEntry key s \<noteq> None"
  proof -
    obtain e where "e \<in> set (entries s)" "ekey e = key"
      using ne unfolding findEntry_def find_None_iff by blast
    then show ?thesis by force
  qed
  then have "instances (removeSession key s) = (instances s)(key := None) \<and>
      slots (removeSession key s) = (slots s)(key := None)" if "findEntry key s \<noteq> None"
    using that by (auto simp: removeSession_def removeWhere_def Let_def fun_eq_iff simp del: set_filter)
  moreover have "findEntry k (removeSession key s) = (if k = key then None else findEntry k s)" for k
    unfolding findEntry_def removeSession_def removeWhere_def Let_def by (simp add: f)
  ultimately show ?thesis
    using sessions_keysInv [OF assms] by (simp add: keysInv_def)
qed

theorem removeSession_exact_witness:
  "distinct (map ekey (entries (setInstance ''0'' (Some 1) initialTerminal))) \<and>
   findEntry ''0'' (removeSession ''0'' (setInstance ''0'' (Some 1) initialTerminal)) = None"
proof -
  have "sessionsReach decimal (setInstance ''0'' (Some 1) initialTerminal)"
    by (rule sessionsReach.mounted, rule sessionsReach.start)
  from removeSession_exact [OF decimal_inj this, of "''0''"] show ?thesis by simp
qed

text \<open>A local session opened without arguments runs on the given node, or on the current one:
  its arguments name the encoded node and title, and the shown title names the node exactly when
  it was not asked for by name and is not the local one.\<close>

theorem openSession_local:
  assumes "i_wsID init = 0" "i_args init = []"
    and "node = (if i_nodeName init \<noteq> [] then i_nodeName init else if cur \<noteq> [] then cur else ''local'')"
  shows "\<exists>key call s1 e. openSession uuid cur ticks init s = Some (key, call, s1) \<and>
    entries s1 = entries s @ [e] \<and> ekey e = key \<and> endpoint e = localEndpoint \<and>
    eargs e = ''operateNode='' @ encodeURIComponent node @ ''&title='' @ encodeURIComponent (i_title init) \<and>
    etitle e = (if i_nodeName init = [] \<and> encodeURIComponent node \<noteq> ''local''
                then i_title init @ '' ('' @ node @ '')'' else i_title init) \<and>
    status e = (if i_error init \<noteq> [] then Closed else Online)"
proof -
  let ?st = "if i_error init \<noteq> [] then Closed else Online"
  define title where "title = (if i_nodeName init = [] \<and> encodeURIComponent node \<noteq> ''local''
    then i_title init @ '' ('' @ node @ '')'' else i_title init)"
  define args where "args = ''operateNode='' @ encodeURIComponent node @ ''&title='' @ encodeURIComponent (i_title init)"
  define e where "e = \<lparr>ekey = uuid (drawn s), etitle = title, wsID = 0, endpoint = localEndpoint, eargs = args,
    sessionId = [], status = ?st, latency = 0, refresh = 0\<rparr>"
  let ?s1 = "s\<lparr>drawn := Suc (drawn s), entries := entries s @ [e]\<rparr>"
  have "titleArgs cur (init\<lparr>i_status := Some ?st\<rparr>) = Some (title, ''operateNode='' @ encodeURIComponent node)"
    using assms by (cases "i_nodeName init = []"; cases "cur = []")
      (simp_all add: titleArgs_def Let_def joinArgs_def title_def)
  then have add: "addSession uuid cur (init\<lparr>i_status := Some ?st\<rparr>) s = Some (uuid (drawn s), ?s1)"
    unfolding addSession_def Let_def using assms(1) by (simp add: joinArgs_def e_def args_def)
  have "e \<in> set (entries ?s1) \<and> ekey e = uuid (drawn s)" by (simp add: e_def)
  then have "findEntry (uuid (drawn s)) ?s1 \<noteq> None" unfolding findEntry_def find_None_iff by blast
  then obtain e' where e': "findEntry (uuid (drawn s)) ?s1 = Some e'" by blast
  have "\<exists>call. openSession uuid cur ticks init s = Some (uuid (drawn s), call, ?s1)"
    unfolding openSession_def add option.case prod.case e' by blast
  moreover have "ekey e = uuid (drawn s)" "endpoint e = localEndpoint" "eargs e = args" "etitle e = title" "status e = ?st"
    "entries ?s1 = entries s @ [e]"
    by (simp_all add: e_def)
  ultimately show ?thesis unfolding title_def args_def by blast
qed

theorem openSession_local_witness:
  "\<exists>key call s1 e. openSession decimal ''edge 1'' [] \<lparr>i_title = ''sh'', i_wsID = 0, i_nodeName = [], i_args = [],
      i_status = None, i_initCmd = [], i_error = []\<rparr> initialTerminal = Some (key, call, s1) \<and>
    entries s1 = [e] \<and> etitle e = ''sh (edge 1)'' \<and> eargs e = ''operateNode=edge%201&title=sh''"
proof -
  have enc: "encodeURIComponent ''edge 1'' = ''edge%201''" "encodeURIComponent ''sh'' = ''sh''" by code_simp+
  show ?thesis
    using openSession_local [of "\<lparr>i_title = ''sh'', i_wsID = 0, i_nodeName = [], i_args = [],
        i_status = None, i_initCmd = [], i_error = []\<rparr>" "''edge 1''" "''edge 1''" decimal "[]" initialTerminal]
    by (simp add: enc initialTerminal_def) blast
qed

end
