(* ===== verification/Tabs_Store.thy ===== *)
theory Tabs_Store
  imports Permissions
begin

text \<open>
  The menu tabs: \<open>store/modules/tabs.ts\<close> and \<open>utils/tab-cache.ts\<close>. A tab is the route it was
  opened for with its \<open>keepAlive\<close> mark; tabs are found by their path. The invariant is that no
  two opened tabs have the same path, hence none the same cache name.
\<close>

section \<open>State and operations\<close>

record tab =
  tabRoute :: route
  keepAlive :: bool

record TabsState =
  isShowTabIcon :: bool
  openedTabs :: "tab list"
  activeTabPath :: string

abbreviation tabPath :: "tab \<Rightarrow> string" where
  "tabPath t \<equiv> rpath (tabRoute t)"

definition initialTabs :: TabsState where
  "initialTabs = \<lparr>isShowTabIcon = True, openedTabs = [], activeTabPath = []\<rparr>"

definition getTabCacheName :: "string \<Rightarrow> string" where
  "getTabCacheName path = ''TabCache_'' @ joinWith ''_'' (map (\<lambda>c. toHex (of_char c)) path)"

definition keepAliveTabs :: "TabsState \<Rightarrow> string list" where
  "keepAliveTabs s = map (\<lambda>t. getTabCacheName (tabPath t)) (filter keepAlive (openedTabs s))"

definition getActivePath :: "string \<Rightarrow> string" where
  "getActivePath path =
     (let first = indexOf (CHR ''/'') path; last = lastIndexOf (CHR ''/'') path
      in if first = -1 \<or> first = last then path
         else take (nat (last - first)) (drop (nat first) path))"

definition getTabIdxByPath :: "string \<Rightarrow> TabsState \<Rightarrow> int" where
  "getTabIdxByPath path s = findIndex (\<lambda>v. tabPath v = path) (openedTabs s)"

definition removeAllTabs :: "TabsState \<Rightarrow> TabsState" where
  "removeAllTabs s = s\<lparr>openedTabs := []\<rparr>"

definition findTab :: "string \<Rightarrow> TabsState \<Rightarrow> tab option" where
  "findTab path s =
     (let idx = getTabIdxByPath path s in if idx > -1 then Some (openedTabs s ! nat idx) else None)"

definition addTab :: "route \<Rightarrow> TabsState \<Rightarrow> TabsState" where
  "addTab r s =
     (let idx = getTabIdxByPath (rpath r) s
      in if idx < 0 then s\<lparr>openedTabs := openedTabs s @ [\<lparr>tabRoute = r, keepAlive = False\<rparr>]\<rparr> else s)"

definition flipKeepAlive :: "tab \<Rightarrow> tab" where
  "flipKeepAlive t = t\<lparr>keepAlive := \<not> keepAlive t\<rparr>"

definition toggleKeepAlive :: "string \<Rightarrow> TabsState \<Rightarrow> TabsState" where
  "toggleKeepAlive path s =
     s\<lparr>openedTabs := updateFirst (\<lambda>v. tabPath v = path) flipKeepAlive (openedTabs s)\<rparr>"

definition removeTab :: "string \<Rightarrow> TabsState \<Rightarrow> string option \<times> TabsState" where
  "removeTab path s =
     (if length (openedTabs s) > 1 then
        (let idx = getTabIdxByPath path s;
             s' = (if idx > -1 then s\<lparr>openedTabs := spliceAt (openedTabs s) idx (Some 1)\<rparr> else s)
         in (Some (tabPath (openedTabs s' ! (length (openedTabs s') - 1))), s'))
      else (None, s))"

definition removeOtherTabs :: "string \<Rightarrow> TabsState \<Rightarrow> TabsState" where
  "removeOtherTabs path s =
     (let idx = getTabIdxByPath path s
      in if idx > -1 then s\<lparr>openedTabs := [openedTabs s ! nat idx]\<rparr> else s)"

definition removeUnActiveTabs :: "TabsState \<Rightarrow> TabsState" where
  "removeUnActiveTabs s =
     (if length (openedTabs s) \<noteq> 0 then
        (let i = getTabIdxByPath (activeTabPath s) s; idx = (if i > -1 then i else 0)
         in removeOtherTabs (tabPath (openedTabs s ! nat idx)) s)
      else s)"

definition removeTabs :: "string \<Rightarrow> string \<Rightarrow> TabsState \<Rightarrow> TabsState" where
  "removeTabs path type s =
     (if path \<noteq> [] then
        (let idx = getTabIdxByPath path s
         in if type = ''right'' then s\<lparr>openedTabs := spliceAt (openedTabs s) (idx + 1) None\<rparr>
            else if type = ''left'' then s\<lparr>openedTabs := spliceAt (openedTabs s) 0 (Some idx)\<rparr>
            else s)
      else s)"

definition hasCloseDropdown :: "string \<Rightarrow> string \<Rightarrow> TabsState \<Rightarrow> bool option" where
  "hasCloseDropdown path type s =
     (let idx = getTabIdxByPath path s
      in if type = ''close'' \<or> type = ''other'' then Some (length (openedTabs s) > 1)
         else if type = ''left'' then Some (idx \<noteq> 0)
         else if type = ''right'' then Some (idx \<noteq> int (length (openedTabs s)) - 1)
         else None)"

datatype tab_op =
    AddTab route | ToggleKeepAlive string | RemoveTab string | RemoveOtherTabs string
  | RemoveTabs string string | RemoveAllTabs | RemoveUnActiveTabs | Activate string

fun tabStep :: "tab_op \<Rightarrow> TabsState \<Rightarrow> TabsState" where
  "tabStep (AddTab r) s = addTab r s"
| "tabStep (ToggleKeepAlive p) s = toggleKeepAlive p s"
| "tabStep (RemoveTab p) s = snd (removeTab p s)"
| "tabStep (RemoveOtherTabs p) s = removeOtherTabs p s"
| "tabStep (RemoveTabs p d) s = removeTabs p d s"
| "tabStep RemoveAllTabs s = removeAllTabs s"
| "tabStep RemoveUnActiveTabs s = removeUnActiveTabs s"
| "tabStep (Activate p) s = s\<lparr>activeTabPath := p\<rparr>"

declare
  removeAllTabs_def [state_defs] addTab_def [state_defs] toggleKeepAlive_def [state_defs]
  removeTab_def [state_defs] removeOtherTabs_def [state_defs] removeUnActiveTabs_def [state_defs]
  removeTabs_def [state_defs] getTabIdxByPath_def [state_defs]


section \<open>Invariant\<close>

definition tabsInv :: "TabsState \<Rightarrow> bool" where
  "tabsInv s = distinct (map tabPath (openedTabs s))"

interpretation te: keyed_edit tabPath flipKeepAlive
  by unfold_locales (simp add: flipKeepAlive_def)

lemma tabsInv_addTab: "tabsInv s \<Longrightarrow> tabsInv (addTab r s)"
  by (auto simp: tabsInv_def addTab_def getTabIdxByPath_def findIndex_none Let_def)

lemma tabsInv_step: "tabsInv s \<Longrightarrow> tabsInv (tabStep a s)"
proof (cases a)
  case (AddTab r)
  assume "tabsInv s"
  with AddTab show ?thesis using tabsInv_addTab by simp
qed (auto simp: tabsInv_def state_defs Let_def distinct_spliceAt)

lemma tabsInv_run: "tabsInv s \<Longrightarrow> tabsInv (fold tabStep ops s)"
  by (induction ops arbitrary: s) (auto simp: tabsInv_step)

lemma getTabCacheName_inj: "getTabCacheName p = getTabCacheName q \<longleftrightarrow> p = q"
proof
  assume "getTabCacheName p = getTabCacheName q"
  then have "map (\<lambda>c. toHex (of_char c)) p = map (\<lambda>c. toHex (of_char c)) q"
    by (intro joinWith_inj [where c = "CHR ''_''"]) (auto simp: getTabCacheName_def toHex_sep)
  then show "p = q"
    by (rule map_injective) (auto simp: inj_def dest: toHex_inj)
qed simp

text \<open>However the tabs are used, no two opened tabs have the same path and no two kept-alive
  tabs the same cache name.\<close>

theorem tabs_distinct:
  "distinct (map tabPath (openedTabs (fold tabStep ops initialTabs))) \<and>
   distinct (keepAliveTabs (fold tabStep ops initialTabs))"
proof -
  have d: "distinct (map tabPath (openedTabs (fold tabStep ops initialTabs)))"
    using tabsInv_run [of initialTabs ops] by (simp add: tabsInv_def initialTabs_def)
  have "keepAliveTabs (fold tabStep ops initialTabs) =
      map getTabCacheName (map tabPath (filter keepAlive (openedTabs (fold tabStep ops initialTabs))))"
    by (simp add: keepAliveTabs_def)
  moreover have "distinct (map tabPath (filter keepAlive (openedTabs (fold tabStep ops initialTabs))))"
    using d by (rule distinct_map_filter)
  ultimately show ?thesis using d by (simp add: distinct_map inj_on_def getTabCacheName_inj)
qed


section \<open>Closing tabs\<close>

text \<open>Closing to one side of an opened tab keeps that tab and exactly the other side.\<close>

theorem removeTabs_sides:
  assumes "path \<noteq> []" "openedTabs s = ls @ t # rs" "tabPath t = path" "\<forall>l \<in> set ls. tabPath l \<noteq> path"
  shows "openedTabs (removeTabs path ''right'' s) = ls @ [t] \<and> openedTabs (removeTabs path ''left'' s) = t # rs"
proof -
  have "findIndex (\<lambda>v. tabPath v = path) (ls @ t # rs) = int (length ls)"
    using assms(3,4) by (induction ls) (auto simp: Let_def)
  then have idx: "getTabIdxByPath path s = int (length ls)" by (simp add: getTabIdxByPath_def assms(2))
  have "nat (1 + int (length ls)) = Suc (length ls)" by simp
  with idx assms(1,2) show ?thesis
    by (auto simp: removeTabs_def Let_def spliceAt_def nat_add_distrib add.commute)
qed

definition homeRoute :: route where
  "homeRoute = settingRoute\<lparr>rname := ''home'', rpath := ''/''\<rparr>"

theorem removeTabs_sides_witness:
  "let s = fold tabStep [AddTab homeRoute, AddTab settingRoute] initialTabs
   in map tabPath (openedTabs (removeTabs ''/'' ''right'' s)) = [''/''] \<and>
      map tabPath (openedTabs (removeTabs ''/'' ''left'' s)) = [''/'', ''/settings'']"
proof -
  let ?s = "fold tabStep [AddTab homeRoute, AddTab settingRoute] initialTabs"
  have "openedTabs ?s = [] @ \<lparr>tabRoute = homeRoute, keepAlive = False\<rparr> #
      [\<lparr>tabRoute = settingRoute, keepAlive = False\<rparr>]"
    by (simp add: addTab_def getTabIdxByPath_def initialTabs_def homeRoute_def settingRoute_def)
  from removeTabs_sides [OF _ this, of "''/''"] show ?thesis
    by (simp add: homeRoute_def settingRoute_def)
qed

text \<open>With the path of no opened tab, closing to the left changes nothing, but closing to the
  right removes every tab: the index -1 is not checked.\<close>

theorem removeTabs_unknown:
  assumes "path \<noteq> []" "path \<notin> tabPath ` set (openedTabs s)"
  shows "removeTabs path ''left'' s = s \<and> openedTabs (removeTabs path ''right'' s) = []"
proof -
  have "getTabIdxByPath path s = -1" using assms(2) by (auto simp: getTabIdxByPath_def findIndex_none)
  with assms(1) show ?thesis by (simp add: removeTabs_def spliceAt_def)
qed

theorem removeTabs_unknown_witness:
  "openedTabs (removeTabs ''/apps'' ''right'' (addTab homeRoute initialTabs)) = []"
  using removeTabs_unknown [of "''/apps''" "addTab homeRoute initialTabs"]
  by (simp add: addTab_def getTabIdxByPath_def initialTabs_def homeRoute_def settingRoute_def)

text \<open>Closing one tab never closes the last one; it answers the path of the tab that is then
  last, and removes at most the tab with the given path.\<close>

theorem removeTab_keeps_one:
  assumes "openedTabs s \<noteq> []"
  shows "openedTabs (snd (removeTab path s)) \<noteq> [] \<and>
    (1 < length (openedTabs s) \<longrightarrow>
       fst (removeTab path s) = Some (tabPath (last (openedTabs (snd (removeTab path s)))))) \<and>
    (\<forall>t \<in> set (openedTabs s). tabPath t \<noteq> path \<longrightarrow> t \<in> set (openedTabs (snd (removeTab path s))))"
proof (cases "length (openedTabs s) > 1 \<and> getTabIdxByPath path s \<noteq> -1")
  case True
  then have "findIndex (\<lambda>v. tabPath v = path) (openedTabs s) \<noteq> -1" by (simp add: getTabIdxByPath_def)
  then obtain ls t rs where s: "openedTabs s = ls @ t # rs" "tabPath t = path"
    "getTabIdxByPath path s = int (length ls)"
    by (rule findIndex_split) (auto simp: getTabIdxByPath_def)
  then have eq: "spliceAt (openedTabs s) (getTabIdxByPath path s) (Some 1) = ls @ rs"
    by (simp add: spliceAt_one)
  have "ls @ rs \<noteq> []" using True s by auto
  with True s eq show ?thesis by (auto simp: removeTab_def Let_def last_conv_nth)
qed (use assms in \<open>auto simp: removeTab_def Let_def last_conv_nth\<close>)

theorem removeTab_keeps_one_witness:
  "openedTabs (snd (removeTab ''/'' (addTab homeRoute initialTabs))) \<noteq> []"
proof -
  have "openedTabs (addTab homeRoute initialTabs) \<noteq> []"
    by (simp add: addTab_def getTabIdxByPath_def initialTabs_def)
  from removeTab_keeps_one [OF this, of "''/''"] show ?thesis by simp
qed

end
