(* ===== verification/Router_Guard.thy ===== *)
theory Router_Guard
  imports Permissions Terminal_Sessions Tabs_Store
begin

text \<open>
  Navigation: the guards of \<open>routers/index.ts\<close>, the navigation helpers of \<open>utils/router.ts\<close>, the
  request canceller \<open>api/helper/axios-cancel.ts\<close> that every navigation empties and the licence
  loading of \<open>utils/xpack.ts\<close> that the guard awaits. The state \<open>panel\<close> joins the stores they
  write. The router's \<open>resolve\<close>, the licence requests and the serialisation of a request's data
  are parameters; the progress bar and the document's title and icon are left out.
\<close>

section \<open>Pending requests\<close>

record canceler_state =
  pendingMap :: "(string \<times> nat) list"
  cancelled :: "nat list"

definition getPendingUrl :: "string \<Rightarrow> string \<Rightarrow> string \<Rightarrow> string \<Rightarrow> string" where
  "getPendingUrl httpMethod url dataText paramsText = joinWith ''&'' [httpMethod, url, dataText, paramsText]"

definition removePending :: "string \<Rightarrow> canceler_state \<Rightarrow> canceler_state" where
  "removePending url c =
     (case map_of (pendingMap c) url of
        Some cancel \<Rightarrow> c\<lparr>cancelled := cancelled c @ [cancel],
                         pendingMap := filter (\<lambda>e. fst e \<noteq> url) (pendingMap c)\<rparr>
      | None \<Rightarrow> c)"

text \<open>\<open>addPending\<close>: \<open>own\<close> says that the request brings its own token; \<open>cancel\<close> is the function of a
  new one.\<close>

definition addPending :: "string \<Rightarrow> bool \<Rightarrow> nat \<Rightarrow> canceler_state \<Rightarrow> canceler_state" where
  "addPending url own cancel c =
     (let c1 = removePending url c
      in if own then c1
         else if map_of (pendingMap c1) url = None then c1\<lparr>pendingMap := pendingMap c1 @ [(url, cancel)]\<rparr>
         else c1)"

definition removeAllPending :: "canceler_state \<Rightarrow> canceler_state" where
  "removeAllPending c = c\<lparr>cancelled := cancelled c @ map snd (pendingMap c), pendingMap := []\<rparr>"

definition resetPending :: "canceler_state \<Rightarrow> canceler_state" where
  "resetPending c = c\<lparr>pendingMap := []\<rparr>"


section \<open>Licence\<close>

record license_status =
  lic_status :: string
  lic_productPro :: jstr

text \<open>The answer of a licence request: rejected, without data, or with data.\<close>

datatype 'a answer = Rejected | NoData | Data 'a

definition loadProductProFromDB ::
  "license_status answer \<Rightarrow> license_status answer \<Rightarrow> GlobalState \<Rightarrow> bool \<times> GlobalState"
where
  "loadProductProFromDB getLicenseStatus getEnterpriseLicenseStatus s =
     (if \<not> isEnterprise s then
        (let s1 = s\<lparr>isEnterpriseLicenseLoaded := True\<rparr>
         in case getLicenseStatus of
              Rejected \<Rightarrow> (False, s1)
            | NoData \<Rightarrow> (True, s1\<lparr>isProductPro := False, productProExpires := Fin 0\<rparr>)
            | Data d \<Rightarrow>
                (let pro = (lic_status d = ''Bound'')
                 in (True, s1\<lparr>isProductPro := pro,
                       productProExpires := (if pro then toNumber (lic_productPro d) else Fin 0)\<rparr>)))
      else case getEnterpriseLicenseStatus of
             Rejected \<Rightarrow> (False, s)
           | NoData \<Rightarrow> (True, s\<lparr>isEnterpriseLicenseLoaded := True, isEnterpriseLicensed := False,
                            isProductPro := False, productProExpires := Fin 0\<rparr>)
           | Data d \<Rightarrow>
               (let bound = (lic_status d = ''Bound'')
                in (True, s\<lparr>isEnterpriseLicenseLoaded := True, isEnterpriseLicensed := bound,
                      isProductPro := bound,
                      productProExpires := (if bound then toNumber (lic_productPro d) else Fin 0)\<rparr>)))"

definition loadMasterProductProFromDB ::
  "license_status answer \<Rightarrow> license_status answer \<Rightarrow> GlobalState \<Rightarrow> bool \<times> GlobalState"
where
  "loadMasterProductProFromDB getMasterLicenseStatus getEnterpriseLicenseStatus s =
     (if \<not> isEnterprise s then
        (let s1 = s\<lparr>isEnterpriseLicenseLoaded := True\<rparr>
         in case getMasterLicenseStatus of
              Rejected \<Rightarrow> (False, s1)
            | NoData \<Rightarrow> (True, s1\<lparr>isMasterProductPro := False\<rparr>)
            | Data d \<Rightarrow> (True, s1\<lparr>isMasterProductPro := (lic_status d = ''Bound'')\<rparr>))
      else case getEnterpriseLicenseStatus of
             Rejected \<Rightarrow> (False, s)
           | NoData \<Rightarrow> (True, s\<lparr>isEnterpriseLicenseLoaded := True, isEnterpriseLicensed := False,
                            isMasterProductPro := False, isProductPro := False, productProExpires := Fin 0\<rparr>)
           | Data d \<Rightarrow>
               (let bound = (lic_status d = ''Bound'')
                in (True, s\<lparr>isEnterpriseLicenseLoaded := True, isEnterpriseLicensed := bound,
                      isMasterProductPro := bound, isProductPro := bound,
                      productProExpires := (if bound then toNumber (lic_productPro d) else Fin 0)\<rparr>)))"

definition resetXSetting :: "GlobalState \<Rightarrow> GlobalState" where
  "resetXSetting s = s\<lparr>themeConfig := (themeConfig s)\<lparr>title := [], logo := [], logoWithText := [], favicon := []\<rparr>,
     watermark := None, watermarkShow := False, masterAlias := []\<rparr>"


section \<open>The guards\<close>

record panel =
  gw :: world
  canceler :: canceler_state
  terminals :: TerminalState
  localStorage :: "string \<rightharpoonup> string"
  isRedirecting :: bool
  messages :: "string list"

abbreviation gstate :: "panel \<Rightarrow> GlobalState" where
  "gstate p \<equiv> store (gw p)"

definition setState :: "GlobalState \<Rightarrow> panel \<Rightarrow> panel" where
  "setState s p = p\<lparr>gw := (gw p)\<lparr>store := s\<rparr>\<rparr>"

datatype guard_result =
    Proceed
  | Cancel
  | ToEntrance "string option"
  | ToName string
  | ToLicense string
  | ToPath string "(string \<times> string option) list"
  | ToCached string
  | LoadError

definition enterpriseLicenseCheckWhiteList :: "string list" where
  "enterpriseLicenseCheckWhiteList = [''EnterpriseLicenseRequired'', ''entrance'', ''login'', ''Expired'']"

definition noLoginWhiteList :: "string list" where
  "noLoginWhiteList = [''entrance'', ''login'', ''file-share'', ''404'', ''Expired'']"

definition clearLicenseStatus :: "panel \<Rightarrow> panel" where
  "clearLicenseStatus p = setState ((gstate p)\<lparr>isEnterpriseLicensed := False, isEnterpriseLicenseLoaded := False\<rparr>) p"

definition clearLoginStatus :: "panel \<Rightarrow> panel" where
  "clearLoginStatus p =
     (let p1 = p\<lparr>gw := clearAuthInfo (setLogStatus False (gw p))\<rparr>;
          p2 = clearLicenseStatus p1
      in p2\<lparr>terminals := closeAll (terminals p2)\<rparr>)"

definition queryDefined :: "string \<Rightarrow> route \<Rightarrow> bool" where
  "queryDefined k to = (case map_of (rquery to) k of Some (Some v) \<Rightarrow> True | _ \<Rightarrow> False)"

text \<open>The part of \<open>beforeEach\<close> after the login and licence checks.\<close>

definition accessGuard :: "(string \<Rightarrow> route) \<Rightarrow> route \<Rightarrow> route \<Rightarrow> panel \<Rightarrow> guard_result \<times> panel" where
  "accessGuard resolve to frm p =
     (if rpath to = ''/apps/all'' \<and> queryDefined ''install'' to then (Proceed, p)
      else if rname to = ''Expired'' then (Proceed, p)
      else
        (let activeMenuKey = ''cachedRoute'' @ activeMenu (rmeta to)
         in if queryDefined ''uncached'' to then
              (ToPath (rpath to) (filter (\<lambda>kv. fst kv \<noteq> ''uncached'') (rquery to)),
               p\<lparr>localStorage := (localStorage p)(activeMenuKey := None)\<rparr>)
            else
              (let cachedRoute = localStorage p activeMenuKey;
                   try = (case cachedRoute of None \<Rightarrow> False
                          | Some c \<Rightarrow> activeMenu (rmeta to) \<noteq> [] \<and> activeMenu (rmeta to) \<noteq> activeMenu (rmeta frm) \<and>
                              c \<noteq> [] \<and> c \<noteq> rpath to \<and> \<not> isRedirecting p);
                   info = resolve (the cachedRoute);
                   a1 = (if try \<and> length (matched info) > 0 then hasRouteAccess info (gw p) else (False, gw p));
                   p1 = p\<lparr>gw := snd a1\<rparr>
               in if fst a1 then (ToCached (the cachedRoute), p1\<lparr>isRedirecting := True\<rparr>)
                  else
                    (let p2 = (if try then p1\<lparr>localStorage := (localStorage p1)(activeMenuKey := None)\<rparr> else p1);
                         a2 = hasRouteAccess to (gw p2);
                         p3 = p2\<lparr>gw := snd a2\<rparr>
                     in if \<not> fst a2 then (Cancel, p3\<lparr>messages := messages p3 @ [''commons.res.forbidden'']\<rparr>)
                        else (Proceed, p3)))))"

definition beforeEach ::
  "(string \<Rightarrow> route) \<Rightarrow> license_status answer \<Rightarrow> license_status answer \<Rightarrow> route \<Rightarrow> route \<Rightarrow> panel \<Rightarrow>
   guard_result \<times> panel"
where
  "beforeEach resolve getL getE to frm p0 =
     (let pa = p0\<lparr>canceler := removeAllPending (canceler p0)\<rparr>;
          p = (if \<not> isLogin (gstate pa) then clearLoginStatus pa else pa);
          login = isLogin (gstate p);
          ent = entrance (gstate p)
      in if \<not> login \<and> rname to \<notin> set noLoginWhiteList then
           ((if ent \<noteq> [] then ToEntrance (Some ent) else ToName ''login''), p)
         else if rname to = ''login'' \<and> \<not> login \<and> ent \<noteq> [] then (ToEntrance (Some ent), p)
         else if rname to = ''login'' \<and> login then (ToName ''home'', p)
         else if rname to = ''entrance'' \<and> login then
           ((if rcode to = Some ent then ToName ''home'' else ToName ''404''), p)
         else
           (let check = (login \<and> isEnterprise (gstate p) \<and> rname to \<notin> set enterpriseLicenseCheckWhiteList);
                load = (if check \<and> \<not> isEnterpriseLicenseLoaded (gstate p)
                        then loadProductProFromDB getL getE (gstate p) else (True, gstate p));
                p1 = setState (snd load) p
            in if \<not> fst load then (LoadError, p1)
               else if check \<and> \<not> isEnterpriseLicensed (gstate p1) then
                 (ToLicense (case rcode to of Some c \<Rightarrow> c | None \<Rightarrow> []), p1)
               else if rname to = ''EnterpriseLicenseRequired'' then
                 (if \<not> login then (ToEntrance (rcode to), p1)
                  else if \<not> isEnterprise (gstate p1) \<or> isEnterpriseLicensed (gstate p1) then (ToName ''home'', p1)
                  else (Proceed, p1))
               else accessGuard resolve to frm p1))"

definition cachedPath :: "route \<Rightarrow> string" where
  "cachedPath to =
     (if activeMenu (rmeta to) = ''/cronjobs'' \<and> rpath to = ''/cronjobs/cronjob/operate'' then ''/cronjobs/cronjob''
      else if activeMenu (rmeta to) = ''/containers'' \<and> rpath to = ''/containers/container/operate''
      then ''/containers/container''
      else if activeMenu (rmeta to) = ''/toolbox'' \<and> rpath to = ''/toolbox/clam/setting'' then ''/toolbox/clam''
      else rpath to)"

definition afterEach :: "route \<Rightarrow> panel \<Rightarrow> panel" where
  "afterEach to p =
     (let p1 = (if activeMenu (rmeta to) \<noteq> [] \<and> \<not> ignoreTab (rmeta to) \<and> \<not> isRedirecting p then
                  (let notMathParam = (\<not> list_ex (\<lambda>rec. CHR '':'' \<in> set (recPath rec)) (matched to))
                   in if notMathParam
                      then p\<lparr>localStorage := (localStorage p)(''cachedRoute'' @ activeMenu (rmeta to) \<mapsto> cachedPath to)\<rparr>
                      else p)
                else p)
      in p1\<lparr>isRedirecting := False\<rparr>)"


section \<open>Navigation helpers\<close>

definition tabStoreMiddleWare :: "route \<Rightarrow> TabsState \<Rightarrow> TabsState" where
  "tabStoreMiddleWare current s =
     (if ignoreTab (rmeta current) then s else (addTab current s)\<lparr>activeTabPath := rpath current\<rparr>)"

text \<open>\<open>pushWithAccessCheck\<close>: \<open>push\<close> stands for the router's navigation and answers the route that
  is current afterwards.\<close>

definition pushWithAccessCheck ::
  "route \<Rightarrow> (panel \<Rightarrow> route \<times> panel) \<Rightarrow> panel \<times> TabsState \<Rightarrow> panel \<times> TabsState"
where
  "pushWithAccessCheck resolved push st =
     (let (p, tabs) = st; a = hasRouteAccess resolved (gw p); p1 = p\<lparr>gw := snd a\<rparr>
      in if \<not> fst a then (p1\<lparr>messages := messages p1 @ [''commons.res.forbidden'']\<rparr>, tabs)
         else (let (current, p2) = push p1 in (p2, tabStoreMiddleWare current tabs)))"


section \<open>What the guards keep\<close>

lemma load_fields:
  "masterOnlyPermissions (snd (loadProductProFromDB l e s)) = masterOnlyPermissions s"
  "isLogin (snd (loadProductProFromDB l e s)) = isLogin s"
  "isEnterprise (snd (loadProductProFromDB l e s)) = isEnterprise s"
  "entrance (snd (loadProductProFromDB l e s)) = entrance s"
  by (simp_all add: loadProductProFromDB_def Let_def split: answer.split)

lemma setState_simps [simp]:
  "gstate (setState s p) = s" "isRedirecting (setState s p) = isRedirecting p"
  "localStorage (setState s p) = localStorage p"
  by (simp_all add: setState_def)

lemma reachable_setState:
  "reachable (gw p) \<Longrightarrow> masterOnlyPermissions s = masterOnlyPermissions (gstate p) \<Longrightarrow> reachable (gw (setState s p))"
  by (simp add: setState_def reachable.assigned)

lemma clearLoginStatus_kept:
  "entrance (gstate (clearLoginStatus p)) = entrance (gstate p)"
  "isEnterprise (gstate (clearLoginStatus p)) = isEnterprise (gstate p)"
  "isRedirecting (clearLoginStatus p) = isRedirecting p"
  by (simp_all add: clearLoginStatus_def clearLicenseStatus_def clearAuthInfo_def clearPageStateCache_def setLogStatus_def
      setMasterOnlyPermissionCodes_def Let_def)

lemma clearLoginStatus_state:
  assumes "reachable (gw p)"
  shows "reachable (gw (clearLoginStatus p))" "\<not> isLogin (gstate (clearLoginStatus p))"
    "\<not> isAdmin (gstate (clearLoginStatus p))" "permissions (gstate (clearLoginStatus p)) = []"
    "entries (terminals (clearLoginStatus p)) = []"
    "nodeRoles (gstate (clearLoginStatus p)) = []" "masterOnlyPermissions (gstate (clearLoginStatus p)) = []"
    "\<not> isEnterpriseLicensed (gstate (clearLoginStatus p))" "\<not> isEnterpriseLicenseLoaded (gstate (clearLoginStatus p))"
    "canceler (clearLoginStatus p) = canceler p"
proof -
  have "reachable (clearAuthInfo (setLogStatus False (gw p)))"
    using assms by (intro reachable.cleared reachable_actions)
  then show "reachable (gw (clearLoginStatus p))"
    by (simp add: clearLoginStatus_def clearLicenseStatus_def setState_def reachable.assigned Let_def)
qed (simp_all add: clearLoginStatus_def clearLicenseStatus_def clearAuthInfo_def clearPageStateCache_def
    setLogStatus_def closeAll_def removeWhere_def setState_def setMasterOnlyPermissionCodes_def Let_def)

text \<open>What \<open>accessGuard\<close> can answer, in a state where access checks answer by their specification.\<close>

lemma accessGuard_cases:
  assumes "reachable (gw p)"
  shows "fst (accessGuard resolve to frm p) = Proceed \<Longrightarrow>
      (rpath to = ''/apps/all'' \<and> queryDefined ''install'' to) \<or> rname to = ''Expired'' \<or> routeAllowed (gstate p) to"
    and "fst (accessGuard resolve to frm p) = ToCached c \<Longrightarrow>
      routeAllowed (gstate p) (resolve c) \<and> matched (resolve c) \<noteq> [] \<and> \<not> isRedirecting p \<and>
      localStorage p (''cachedRoute'' @ activeMenu (rmeta to)) = Some c \<and>
      isRedirecting (snd (accessGuard resolve to frm p))"
  using ra.check_spec [of "gw p"] ra.check_obs [of "gw p"] ra.check_inv [of "gw p"] assms
  by (auto simp: accessGuard_def Let_def ra.check_spec split: if_splits option.splits)

lemma accessGuard_answers:
  fixes resolve to frm p
  assumes "reachable (gw p)"
  defines "r \<equiv> accessGuard resolve to frm p"
  shows "gstate (snd r) = gstate p" "reachable (gw (snd r))"
    "fst r = Proceed \<or> fst r = Cancel \<or> (\<exists>c. fst r = ToCached c \<and> \<not> isRedirecting p \<and> isRedirecting (snd r)) \<or>
     (queryDefined ''uncached'' to \<and> fst r = ToPath (rpath to) (filter (\<lambda>kv. fst kv \<noteq> ''uncached'') (rquery to)) \<and>
      isRedirecting (snd r) = isRedirecting p)"
  using ra.check_obs [of "gw p"] ra.check_inv [of "gw p"] assms(1)
  by (auto simp: r_def accessGuard_def Let_def ra.check_obs ra.check_inv split: option.split)

lemma accessGuard_kept:
  "terminals (snd (accessGuard resolve to frm p)) = terminals p"
  "canceler (snd (accessGuard resolve to frm p)) = canceler p"
  by (simp_all add: accessGuard_def Let_def)

lemma accessGuard_forbidden:
  assumes "reachable (gw p)" "\<not> routeAllowed (gstate p) to"
    and "\<not> (rpath to = ''/apps/all'' \<and> queryDefined ''install'' to)" "rname to \<noteq> ''Expired''"
  shows "fst (accessGuard resolve to frm p) \<noteq> Proceed"
  using accessGuard_cases(1) [OF assms(1)] assms(2-4) by blast


section \<open>Properties\<close>

text \<open>The state in which the last part of the guard runs.\<close>

definition guardState :: "license_status answer \<Rightarrow> license_status answer \<Rightarrow> route \<Rightarrow> panel \<Rightarrow> panel" where
  "guardState getL getE to p0 =
     (let pa = p0\<lparr>canceler := removeAllPending (canceler p0)\<rparr>;
          p = (if \<not> isLogin (gstate pa) then clearLoginStatus pa else pa);
          check = (isLogin (gstate p) \<and> isEnterprise (gstate p) \<and> rname to \<notin> set enterpriseLicenseCheckWhiteList);
          load = (if check \<and> \<not> isEnterpriseLicenseLoaded (gstate p)
                  then loadProductProFromDB getL getE (gstate p) else (True, gstate p))
      in setState (snd load) p)"

lemma guardState_props:
  assumes "reachable (gw p)"
  shows "reachable (gw (guardState getL getE to p))"
    "isLogin (gstate (guardState getL getE to p)) = isLogin (gstate p)"
    "isRedirecting (guardState getL getE to p) = isRedirecting p"
proof -
  let ?pa = "p\<lparr>canceler := removeAllPending (canceler p)\<rparr>"
  have pa: "reachable (gw ?pa)" "isLogin (gstate ?pa) = isLogin (gstate p)" using assms by simp_all
  then have "reachable (gw (if \<not> isLogin (gstate ?pa) then clearLoginStatus ?pa else ?pa))"
    using clearLoginStatus_state(1) by simp
  then show "reachable (gw (guardState getL getE to p))"
    unfolding guardState_def Let_def by (rule reachable_setState) (simp add: load_fields)
  show "isLogin (gstate (guardState getL getE to p)) = isLogin (gstate p)"
    using clearLoginStatus_state(2) [OF pa(1)] by (simp add: guardState_def Let_def load_fields)
  show "isRedirecting (guardState getL getE to p) = isRedirecting p"
    by (simp add: guardState_def clearLoginStatus_def clearLicenseStatus_def Let_def)
qed

text \<open>A navigation goes on only past the login and licence checks: either to the licence page, or
  by the answer of \<open>accessGuard\<close>.\<close>

definition goesOn :: "guard_result \<Rightarrow> bool" where
  "goesOn r = (case r of Proceed \<Rightarrow> True | ToCached c \<Rightarrow> True | _ \<Rightarrow> False)"

lemma goesOn_simps [simp]:
  "goesOn Proceed" "goesOn (ToCached c)" "\<not> goesOn Cancel" "\<not> goesOn (ToEntrance e)" "\<not> goesOn (ToName n)"
  "\<not> goesOn (ToLicense l)" "\<not> goesOn (ToPath q k)" "\<not> goesOn LoadError"
  by (simp_all add: goesOn_def)

text \<open>The guard as a chain of answers, over the state \<open>p'\<close> after a guest's login status is cleared and
  the state \<open>s1\<close> of the store after the licence is loaded, which \<open>ok\<close> says.\<close>

definition guardChain ::
  "(string \<Rightarrow> route) \<Rightarrow> route \<Rightarrow> route \<Rightarrow> panel \<Rightarrow> panel \<Rightarrow> bool \<Rightarrow> GlobalState \<Rightarrow> guard_result \<times> panel"
where
  "guardChain resolve to frm p p' ok s1 =
      (if \<not> isLogin (gstate p) \<and> rname to \<notin> set noLoginWhiteList then
         ((if entrance (gstate p) \<noteq> [] then ToEntrance (Some (entrance (gstate p))) else ToName ''login''), p')
       else if rname to = ''login'' \<and> \<not> isLogin (gstate p) \<and> entrance (gstate p) \<noteq> []
       then (ToEntrance (Some (entrance (gstate p))), p')
       else if rname to = ''login'' \<and> isLogin (gstate p) then (ToName ''home'', p')
       else if rname to = ''entrance'' \<and> isLogin (gstate p) then
         ((if rcode to = Some (entrance (gstate p)) then ToName ''home'' else ToName ''404''), p')
       else if \<not> ok then (LoadError, setState s1 p')
       else if (isLogin (gstate p) \<and> isEnterprise (gstate p) \<and> rname to \<notin> set enterpriseLicenseCheckWhiteList) \<and>
         \<not> isEnterpriseLicensed s1
       then (ToLicense (case rcode to of Some c \<Rightarrow> c | None \<Rightarrow> []), setState s1 p')
       else if rname to = ''EnterpriseLicenseRequired'' then
         (if \<not> isLogin (gstate p) then (ToEntrance (rcode to), setState s1 p')
          else if \<not> isEnterprise (gstate p) \<or> isEnterpriseLicensed s1 then (ToName ''home'', setState s1 p')
          else (Proceed, setState s1 p'))
       else accessGuard resolve to frm (setState s1 p'))"

lemma beforeEach_shape:
  assumes "reachable (gw p)"
  obtains p' ok s1 where
    "reachable (gw p')" "guardState getL getE to p = setState s1 p'"
    "isLogin (gstate p') = isLogin (gstate p)" "isLogin s1 = isLogin (gstate p)"
    "entrance (gstate p') = entrance (gstate p)" "entrance s1 = entrance (gstate p)"
    "isEnterprise (gstate p') = isEnterprise (gstate p)" "isEnterprise s1 = isEnterprise (gstate p)"
    "isRedirecting p' = isRedirecting p"
    "isLogin (gstate p) \<Longrightarrow> rname to \<in> set enterpriseLicenseCheckWhiteList \<Longrightarrow>
       isEnterpriseLicensed s1 = isEnterpriseLicensed (gstate p)"
    "beforeEach resolve getL getE to frm p = guardChain resolve to frm p p' ok s1"
proof -
  define pa where "pa = p\<lparr>canceler := removeAllPending (canceler p)\<rparr>"
  define p' where "p' = (if \<not> isLogin (gstate pa) then clearLoginStatus pa else pa)"
  define check where "check = (isLogin (gstate p') \<and> isEnterprise (gstate p') \<and>
    rname to \<notin> set enterpriseLicenseCheckWhiteList)"
  define load where "load = (if check \<and> \<not> isEnterpriseLicenseLoaded (gstate p')
    then loadProductProFromDB getL getE (gstate p') else (True, gstate p'))"
  have pa: "reachable (gw pa)" "isLogin (gstate pa) = isLogin (gstate p)" using assms by (simp_all add: pa_def)
  have login: "isLogin (gstate p') = isLogin (gstate p)"
    using clearLoginStatus_state(2) [OF pa(1)] pa(2) by (simp add: p'_def)
  have r: "reachable (gw p')" using clearLoginStatus_state(1) [OF pa(1)] pa(1) by (simp add: p'_def)
  have kept: "entrance (gstate p') = entrance (gstate p)" "isEnterprise (gstate p') = isEnterprise (gstate p)"
    "isRedirecting p' = isRedirecting p"
    by (simp_all add: p'_def pa_def clearLoginStatus_kept)
  have s1: "isLogin (snd load) = isLogin (gstate p)" "entrance (snd load) = entrance (gstate p)"
    "isEnterprise (snd load) = isEnterprise (gstate p)"
    by (simp_all add: load_def load_fields login kept)
  have gs: "guardState getL getE to p = setState (snd load) p'"
    by (simp only: guardState_def Let_def pa_def [symmetric] p'_def [symmetric] check_def [symmetric] load_def [symmetric])
  have check: "check = (isLogin (gstate p) \<and> isEnterprise (gstate p) \<and> rname to \<notin> set enterpriseLicenseCheckWhiteList)"
    by (simp only: check_def login kept)
  show ?thesis
  proof (rule that [OF r gs login s1(1) kept(1) s1(2) kept(2) s1(3) kept(3)])
    show "isEnterpriseLicensed (snd load) = isEnterpriseLicensed (gstate p)"
      if "isLogin (gstate p)" "rname to \<in> set enterpriseLicenseCheckWhiteList"
      using that by (simp add: load_def check_def p'_def pa_def)
  qed (unfold beforeEach_def Let_def pa_def [symmetric] p'_def [symmetric] check_def [symmetric] load_def [symmetric],
      unfold login kept setState_simps s1 check guardChain_def, rule refl)
qed

lemma beforeEach_past:
  assumes "goesOn (fst (beforeEach resolve getL getE to frm p))"
    and "reachable (gw p)"
  shows "(isLogin (gstate p) \<or> rname to \<in> set noLoginWhiteList) \<and>
    (isLogin (gstate p) \<and> rname to = ''EnterpriseLicenseRequired'' \<and>
       fst (beforeEach resolve getL getE to frm p) = Proceed \<or>
     beforeEach resolve getL getE to frm p = accessGuard resolve to frm (guardState getL getE to p) \<and>
     (isLogin (gstate p) \<and> isEnterprise (gstate (guardState getL getE to p)) \<and>
        rname to \<notin> set enterpriseLicenseCheckWhiteList \<longrightarrow>
        isEnterpriseLicensed (gstate (guardState getL getE to p))))"
  by (rule beforeEach_shape [OF assms(2), of getL getE to resolve frm]) (use assms(1) in \<open>auto simp: guardChain_def split: if_splits\<close>)

text \<open>Sample panels: a guest, and an administrator on the master node.\<close>

definition guestPanel :: panel where
  "guestPanel = \<lparr>gw = initialWorld ''en'', canceler = \<lparr>pendingMap = [], cancelled = []\<rparr>,
     terminals = initialTerminal, localStorage = Map.empty, isRedirecting = False, messages = []\<rparr>"

definition adminWorld :: world where
  "adminWorld = setAuthInfo \<lparr>p_isAdmin = True, p_permissions = None, p_masterOnlyPermissions = None,
     p_nodeRoles = None\<rparr> (setLogStatus True (initialWorld ''en''))"

definition adminPanel :: panel where
  "adminPanel = guestPanel\<lparr>gw := adminWorld, localStorage := [''cachedRoute/settings'' \<mapsto> ''/settings/safe'']\<rparr>"

definition otherRoute :: route where
  "otherRoute = homeRoute\<lparr>rmeta := (rmeta settingRoute)\<lparr>activeMenu := ''/''\<rparr>\<rparr>"

lemma reachable_admin: "reachable (gw adminPanel)" "reachable (gw guestPanel)"
  unfolding adminPanel_def guestPanel_def adminWorld_def
  by (simp_all add: reachable_initial reachable.authed reachable_actions noLF_def orEmpty_def)

lemma admin_state:
  "isLogin (gstate adminPanel)" "isAdmin (gstate adminPanel)" "\<not> isEnterprise (gstate adminPanel)"
  "currentNode (gstate adminPanel) = ''local''"
  by (simp_all add: adminPanel_def adminWorld_def setAuthInfo_def setLogStatus_def initialWorld_def
      initialState_def Let_def)

lemma admin_access: "fst (hasRouteAccess settingRoute (gw adminPanel))"
proof -
  have "trim ''setting_manage'' = ''setting_manage''" by code_simp
  then have "routeAllowed (gstate adminPanel) settingRoute"
    by (simp add: routeAllowed_def settingRoute_def settingRecord_def recPermission_def roleAllowed_def
        metaAllowed_def allowed_def restricted_def isMaster_def admin_state Let_def)
  then show ?thesis using ra.check_spec [OF reachable_admin(1)] by simp
qed

text \<open>Every answer to a guest leaves the state of \<open>clearLoginStatus\<close>.\<close>

lemma guest_end:
  assumes "reachable (gw p)" "\<not> isLogin (gstate p)"
  defines "c \<equiv> clearLoginStatus (p\<lparr>canceler := removeAllPending (canceler p)\<rparr>)"
  shows "gstate (snd (beforeEach resolve getL getE to frm p)) = gstate c"
    "terminals (snd (beforeEach resolve getL getE to frm p)) = terminals c"
    "canceler (snd (beforeEach resolve getL getE to frm p)) = canceler c"
proof -
  have pa: "reachable (gw (p\<lparr>canceler := removeAllPending (canceler p)\<rparr>))" using assms(1) by simp
  have c: "reachable (gw c)" "\<not> isLogin (gstate c)"
    using clearLoginStatus_state(1,2) [OF pa] by (simp_all add: c_def)
  have s: "setState (gstate c) c = c" by (simp add: setState_def)
  have q: "snd (beforeEach resolve getL getE to frm p) \<in> {c, snd (accessGuard resolve to frm c)}"
    using assms(2) c(2) by (simp add: beforeEach_def c_def [symmetric] s Let_def)
  show "gstate (snd (beforeEach resolve getL getE to frm p)) = gstate c"
    using q accessGuard_answers(1) [OF c(1)] by auto
  show "terminals (snd (beforeEach resolve getL getE to frm p)) = terminals c"
    "canceler (snd (beforeEach resolve getL getE to frm p)) = canceler c"
    using q accessGuard_kept by auto
qed

text \<open>C14. A user who is not logged in gets only to the pages that need no login, and whatever the
  guard answers to such a user, the state it leaves has no login, administrator mark, permissions,
  node roles, master-only list or licence, every terminal session is closed, and every pending
  request has been cancelled.\<close>

theorem guard_login:
  assumes "reachable (gw p)" "\<not> isLogin (gstate p)" "beforeEach resolve getL getE to frm p = (r, q)"
  shows "(r = Proceed \<longrightarrow> rname to \<in> {''entrance'', ''login'', ''file-share'', ''404'', ''Expired''}) \<and>
    \<not> isLogin (gstate q) \<and> \<not> isAdmin (gstate q) \<and> permissions (gstate q) = [] \<and> nodeRoles (gstate q) = [] \<and>
    masterOnlyPermissions (gstate q) = [] \<and> \<not> isEnterpriseLicensed (gstate q) \<and>
    \<not> isEnterpriseLicenseLoaded (gstate q) \<and> entries (terminals q) = [] \<and> pendingMap (canceler q) = [] \<and>
    cancelled (canceler q) = cancelled (canceler p) @ map snd (pendingMap (canceler p))"
proof -
  have pa: "reachable (gw (p\<lparr>canceler := removeAllPending (canceler p)\<rparr>))" using assms(1) by simp
  have "rname to \<in> set noLoginWhiteList" if "r = Proceed"
    using beforeEach_past [of resolve getL getE to frm p] that assms by simp
  then show ?thesis
    using guest_end [OF assms(1,2), of resolve getL getE to frm] clearLoginStatus_state [OF pa]
    by (simp add: assms(3) noLoginWhiteList_def removeAllPending_def)
qed

theorem guard_login_witness:
  "fst (beforeEach (\<lambda>_. settingRoute) NoData NoData settingRoute otherRoute guestPanel) \<noteq> Proceed \<and>
   nodeRoles (gstate (snd (beforeEach (\<lambda>_. settingRoute) NoData NoData settingRoute otherRoute guestPanel))) = []"
proof -
  have "\<not> isLogin (gstate guestPanel)" by (simp add: guestPanel_def initialWorld_def initialState_def)
  from guard_login [OF reachable_admin(2) this surjective_pairing,
      of "\<lambda>_. settingRoute" NoData NoData settingRoute otherRoute]
  show ?thesis by (auto simp: settingRoute_def)
qed

lemma guard_answers:
  fixes resolve getL getE to frm p
  assumes "reachable (gw p)" "isLogin (gstate p)"
  defines "q \<equiv> snd (beforeEach resolve getL getE to frm p)"
  assumes "fst (beforeEach resolve getL getE to frm p) = Proceed"
  shows "rname to \<notin> {''login'', ''entrance''} \<and>
    (rname to = ''EnterpriseLicenseRequired'' \<longrightarrow> isEnterprise (gstate q) \<and> \<not> isEnterpriseLicensed (gstate q)) \<and>
    (isEnterprise (gstate q) \<and> rname to \<notin> {''EnterpriseLicenseRequired'', ''Expired''} \<longrightarrow>
       isEnterpriseLicensed (gstate q)) \<and>
    (routeAllowed (gstate q) to \<or> rname to = ''EnterpriseLicenseRequired'' \<or> rname to = ''Expired'' \<or>
       rpath to = ''/apps/all'' \<and> queryDefined ''install'' to)"
proof (rule beforeEach_shape [OF assms(1), of getL getE to resolve frm])
  fix p' ok s1
  assume r: "reachable (gw p')" and gs: "guardState getL getE to p = setState s1 p'"
    and l: "isLogin s1 = isLogin (gstate p)" and e: "isEnterprise s1 = isEnterprise (gstate p)"
    and chain: "beforeEach resolve getL getE to frm p = guardChain resolve to frm p p' ok s1"
  have s: "reachable (gw (setState s1 p'))" using guardState_props(1) [OF assms(1), of getL getE to] by (simp add: gs)
  note ag = accessGuard_answers(1) [OF s, of resolve to frm] accessGuard_cases(1) [OF s, of resolve to frm]
  show ?thesis
    using assms(2,4) ag e unfolding q_def chain
    by (simp add: guardChain_def enterpriseLicenseCheckWhiteList_def split: if_splits) blast
qed

text \<open>C2. What a logged-in user proceeds to, in the state \<open>q\<close> that the guard leaves: never the login
  or entrance page; the licence page only in the enterprise edition and without a bound licence;
  every other page but the expiry page, in the enterprise edition, only with a bound licence; and
  only a route of which every matched record admits the user, with three exceptions that the guard
  lets through unchecked: the licence page, the expiry page and \<open>/apps/all\<close> with an \<open>install\<close> query.\<close>

theorem guard_access:
  assumes "reachable (gw p)" "isLogin (gstate p)" "beforeEach resolve getL getE to frm p = (Proceed, q)"
  shows "rname to \<notin> {''login'', ''entrance''} \<and>
    (rname to = ''EnterpriseLicenseRequired'' \<longrightarrow> isEnterprise (gstate q) \<and> \<not> isEnterpriseLicensed (gstate q)) \<and>
    (isEnterprise (gstate q) \<and> rname to \<notin> {''EnterpriseLicenseRequired'', ''Expired''} \<longrightarrow>
       isEnterpriseLicensed (gstate q)) \<and>
    (routeAllowed (gstate q) to \<or> rname to = ''EnterpriseLicenseRequired'' \<or> rname to = ''Expired'' \<or>
       rpath to = ''/apps/all'' \<and> queryDefined ''install'' to)"
  using guard_answers [OF assms(1,2), of resolve getL getE to frm] assms(3) by simp

lemma setting_fields:
  "rpath settingRoute = ''/settings''" "rname settingRoute = ''Setting''" "rquery settingRoute = []"
  "activeMenu (rmeta settingRoute) = ''/settings''" "matched settingRoute \<noteq> []" "activeMenu (rmeta otherRoute) = ''/''"
  by (simp_all add: settingRoute_def otherRoute_def)

lemma admin_before:
  "beforeEach resolve NoData NoData settingRoute frm (adminPanel\<lparr>localStorage := ls\<rparr>) =
     accessGuard resolve settingRoute frm (adminPanel\<lparr>localStorage := ls, canceler := removeAllPending (canceler adminPanel)\<rparr>)"
  using admin_state by (simp add: beforeEach_def setState_def setting_fields Let_def)

theorem guard_access_witness:
  "routeAllowed (gstate (snd (beforeEach (\<lambda>_. settingRoute) NoData NoData settingRoute otherRoute
     (adminPanel\<lparr>localStorage := Map.empty\<rparr>)))) settingRoute"
proof -
  let ?p = "adminPanel\<lparr>localStorage := Map.empty\<rparr>"
  have "fst (beforeEach (\<lambda>_. settingRoute) NoData NoData settingRoute otherRoute ?p) = Proceed"
    unfolding admin_before by (simp add: accessGuard_def setting_fields queryDefined_def admin_access Let_def)
  then have "beforeEach (\<lambda>_. settingRoute) NoData NoData settingRoute otherRoute ?p =
    (Proceed, snd (beforeEach (\<lambda>_. settingRoute) NoData NoData settingRoute otherRoute ?p))"
    by (metis prod.collapse)
  from guard_access [OF _ _ this] show ?thesis
    using reachable_admin(1) admin_state(1) by (simp add: setting_fields)
qed

text \<open>C35. A redirection to the cached page of a menu goes only to an existing route the user may
  enter, and never twice in a row: it marks the navigation, and a marked navigation is not
  redirected again until it has ended.\<close>

theorem guard_cached_redirect:
  assumes "reachable (gw p)" "fst (beforeEach resolve getL getE to frm p) = ToCached c"
  shows "routeAllowed (gstate (snd (beforeEach resolve getL getE to frm p))) (resolve c) \<and> matched (resolve c) \<noteq> [] \<and>
    isRedirecting (snd (beforeEach resolve getL getE to frm p)) \<and>
    (\<forall>q to' frm' c'. reachable (gw q) \<and> isRedirecting q \<longrightarrow>
       fst (beforeEach resolve getL getE to' frm' q) \<noteq> ToCached c')"
proof -
  have one: "routeAllowed (gstate (snd (beforeEach resolve getL getE to' frm' q))) (resolve c') \<and> matched (resolve c') \<noteq> [] \<and>
      isRedirecting (snd (beforeEach resolve getL getE to' frm' q)) \<and> \<not> isRedirecting q"
    if q: "reachable (gw q)" "fst (beforeEach resolve getL getE to' frm' q) = ToCached c'" for q to' frm' c'
  proof -
    have "beforeEach resolve getL getE to' frm' q = accessGuard resolve to' frm' (guardState getL getE to' q)"
      using beforeEach_past [of resolve getL getE to' frm' q] q by auto
    then show ?thesis
      using accessGuard_cases(2) [OF guardState_props(1) [OF q(1)]] accessGuard_answers(1) [OF guardState_props(1) [OF q(1)]]
        guardState_props(3) [OF q(1)] q(2) by auto
  qed
  from one [OF assms] one show ?thesis by blast
qed

theorem guard_cached_redirect_witness:
  "routeAllowed (gstate (snd (beforeEach (\<lambda>_. settingRoute) NoData NoData settingRoute otherRoute adminPanel)))
     settingRoute \<and>
   isRedirecting (snd (beforeEach (\<lambda>_. settingRoute) NoData NoData settingRoute otherRoute adminPanel))"
proof -
  have eq: "adminPanel = adminPanel\<lparr>localStorage := [''cachedRoute/settings'' \<mapsto> ''/settings/safe'']\<rparr>"
    and r: "\<not> isRedirecting adminPanel"
    by (simp_all add: adminPanel_def guestPanel_def)
  have "fst (beforeEach (\<lambda>_. settingRoute) NoData NoData settingRoute otherRoute adminPanel) = ToCached ''/settings/safe''"
    by (subst eq, unfold admin_before) (simp add: accessGuard_def setting_fields queryDefined_def admin_access r Let_def)
  then show ?thesis
    using guard_cached_redirect [OF reachable_admin(1)] by blast
qed

text \<open>Of the requests with the same key only the newest is pending: adding one cancels the
  previous one, and a navigation cancels all.\<close>

theorem addPending_latest:
  assumes "distinct (map fst (pendingMap c))"
  shows "map_of (pendingMap (addPending url False n c)) url = Some n \<and>
    (\<forall>m. map_of (pendingMap c) url = Some m \<longrightarrow> m \<in> set (cancelled (addPending url False n c))) \<and>
    (\<forall>u. u \<noteq> url \<longrightarrow> map_of (pendingMap (addPending url False n c)) u = map_of (pendingMap c) u) \<and>
    distinct (map fst (pendingMap (addPending url False n c))) \<and>
    pendingMap (removeAllPending c) = [] \<and> snd ` set (pendingMap c) \<subseteq> set (cancelled (removeAllPending c))"
proof -
  have f: "map_of (filter (\<lambda>e. fst e \<noteq> url) xs) u = (if u = url then None else map_of xs u)"
    for u and xs :: "(string \<times> nat) list"
    by (induction xs) auto
  have d: "distinct (map fst (filter (\<lambda>e. fst e \<noteq> url) (pendingMap c)))" "url \<notin> fst ` set (filter (\<lambda>e. fst e \<noteq> url) (pendingMap c))"
    using assms by (auto simp: distinct_map_filter)
  show ?thesis
  proof (cases "map_of (pendingMap c) url")
    case None
    then have "url \<notin> fst ` set (pendingMap c)" by (simp add: map_of_eq_None_iff)
    with None assms show ?thesis
      by (auto simp: addPending_def removePending_def removeAllPending_def map_add_def Let_def split: option.split)
  next
    case (Some m)
    with d show ?thesis
      by (auto simp: addPending_def removePending_def removeAllPending_def f map_add_def Let_def split: option.split)
  qed
qed

theorem addPending_latest_witness:
  "map_of (pendingMap (addPending ''GET&/x&&'' False 8 \<lparr>pendingMap = [(''GET&/x&&'', 7)], cancelled = []\<rparr>)) ''GET&/x&&'' = Some 8"
  using addPending_latest [of "\<lparr>pendingMap = [(''GET&/x&&'', 7)], cancelled = []\<rparr>"] by simp

end
