(* ===== verification/Process_Store.thy ===== *)
theory Process_Store
  imports JS_Number
begin

text \<open>
  The process monitor's store (\<open>store/modules/process.ts\<close>): one web socket shared by the views,
  a request at a time, polling. The state holds the module's variables together with what the
  browser keeps for it: the sockets it created with their ready state, the pending timers, the
  authorisation checks under way and the log of what was sent on which socket. The handlers are
  functions on the state; \<open>step\<close> is the relation of all events, in which timers and sockets fire
  in any order. Rows of the answers are a type parameter fixed to \<open>nat\<close>; the authorisation
  check's answer, the parsed message and the socket's events come with the event.
\<close>

section \<open>State\<close>

datatype req = Ps | Net

datatype numField = NumUndef | NumVal jsnum | NumText jstr

record PsSearch =
  pid :: numField
  username :: string
  name :: string

record NetSearch =
  processID :: numField
  processName :: string
  port :: numField

datatype message = PsMessage PsSearch | NetMessage NetSearch

datatype readyState = SConnecting | SOpen | SClosing | SClosed

datatype timer = PollTimer req | InitialTimer req | CheckTimer req nat | CheckStop nat | DisconnectTimer

record proc =
  websocket :: "nat option"
  pollingTimer :: "nat option"
  disconnectTimer :: "nat option"
  initWebSocketToken :: nat
  connectionRefCount :: nat
  isConnected :: bool
  isConnecting :: bool
  psData :: "nat list"
  psLoading :: bool
  psSearch :: PsSearch
  netData :: "nat list"
  netLoading :: bool
  netSearch :: NetSearch
  pendingRequestType :: "req option"
  queuedRequestType :: "req option"
  isPsFetching :: bool
  isNetFetching :: bool
  activePollingType :: "req option"
  sockets :: "readyState list"
  timers :: "nat \<rightharpoonup> timer"
  nextTimer :: nat
  awaiting :: "nat list"
  sent :: "(nat \<times> message) list"
  errors :: "string list"

definition initialProc :: proc where
  "initialProc = \<lparr>websocket = None, pollingTimer = None, disconnectTimer = None, initWebSocketToken = 0,
     connectionRefCount = 0, isConnected = False, isConnecting = False, psData = [], psLoading = False,
     psSearch = \<lparr>pid = NumUndef, username = [], name = []\<rparr>, netData = [], netLoading = False,
     netSearch = \<lparr>processID = NumUndef, processName = [], port = NumUndef\<rparr>,
     pendingRequestType = None, queuedRequestType = None, isPsFetching = False, isNetFetching = False,
     activePollingType = None, sockets = [], timers = Map.empty, nextTimer = 0, awaiting = [], sent = [],
     errors = []\<rparr>"


section \<open>Messages\<close>

definition isWsOpen :: "proc \<Rightarrow> bool" where
  "isWsOpen s = (case websocket s of None \<Rightarrow> False | Some i \<Rightarrow> i < length (sockets s) \<and> sockets s ! i = SOpen)"

definition onOpen :: "proc \<Rightarrow> proc" where
  "onOpen s = s\<lparr>isConnected := True, isConnecting := False\<rparr>"

definition asNumber :: "numField \<Rightarrow> numField" where
  "asNumber f = (case f of NumText t \<Rightarrow> NumVal (toNumber t) | _ \<Rightarrow> f)"

definition send :: "message \<Rightarrow> proc \<Rightarrow> proc" where
  "send m s = (case websocket s of None \<Rightarrow> s | Some i \<Rightarrow> s\<lparr>sent := sent s @ [(i, m)]\<rparr>)"

definition doSendMessage :: "req \<Rightarrow> proc \<Rightarrow> proc" where
  "doSendMessage type s0 =
     (let s = s0\<lparr>pendingRequestType := Some type\<rparr>
      in if type = Ps then
           send (PsMessage ((psSearch s)\<lparr>pid := asNumber (pid (psSearch s))\<rparr>))
             (s\<lparr>isPsFetching := True, psLoading := (length (psData s) = 0)\<rparr>)
         else
           send (NetMessage ((netSearch s)\<lparr>processID := asNumber (processID (netSearch s)),
                   port := asNumber (port (netSearch s))\<rparr>))
             (s\<lparr>isNetFetching := True, netLoading := (length (netData s) = 0)\<rparr>))"

text \<open>\<open>onMessage\<close>: \<open>None\<close> is text that does not parse, \<open>Some None\<close> a null.\<close>

definition onMessage :: "nat list option option \<Rightarrow> proc \<Rightarrow> proc" where
  "onMessage parsed s =
     (case parsed of None \<Rightarrow> s
      | Some d \<Rightarrow>
          (let rows = (case d of None \<Rightarrow> [] | Some r \<Rightarrow> r);
               responseType = pendingRequestType s;
               s1 = (if pendingRequestType s = Some Ps then s\<lparr>isPsFetching := False\<rparr>
                     else if pendingRequestType s = Some Net then s\<lparr>isNetFetching := False\<rparr> else s);
               s2 = s1\<lparr>pendingRequestType := None\<rparr>;
               s3 = (if responseType = activePollingType s2 then
                       (if responseType = Some Ps then s2\<lparr>psData := rows, psLoading := False\<rparr>
                        else if responseType = Some Net then s2\<lparr>netData := rows, netLoading := False\<rparr>
                        else s2)
                     else s2)
           in case queuedRequestType s3 of
                Some t \<Rightarrow> if isWsOpen s3 then doSendMessage t (s3\<lparr>queuedRequestType := None\<rparr>) else s3
              | None \<Rightarrow> s3))"

definition onClose :: "proc \<Rightarrow> proc" where
  "onClose s = s\<lparr>isConnected := False, isConnecting := False, websocket := None\<rparr>"

definition sendPsMessage :: "proc \<Rightarrow> proc" where
  "sendPsMessage s =
     (if \<not> isWsOpen s then s
      else if pendingRequestType s \<noteq> None then s\<lparr>queuedRequestType := Some Ps\<rparr>
      else if isPsFetching s then s
      else doSendMessage Ps s)"

definition sendNetMessage :: "proc \<Rightarrow> proc" where
  "sendNetMessage s =
     (if \<not> isWsOpen s then s
      else if pendingRequestType s \<noteq> None then s\<lparr>queuedRequestType := Some Net\<rparr>
      else if isNetFetching s then s
      else doSendMessage Net s)"

definition sendOf :: "req \<Rightarrow> proc \<Rightarrow> proc" where
  "sendOf type s = (if type = Ps then sendPsMessage s else sendNetMessage s)"


section \<open>Connection\<close>

text \<open>\<open>initWebSocket\<close> up to its \<open>await\<close>, and from there with the answer of the check.\<close>

definition initWebSocket :: "proc \<Rightarrow> proc" where
  "initWebSocket s =
     (if websocket s \<noteq> None \<or> isConnecting s then s
      else (let token = initWebSocketToken s + 1
            in s\<lparr>initWebSocketToken := token, isConnecting := True, awaiting := awaiting s @ [token]\<rparr>))"

definition initWebSocketResume :: "nat \<Rightarrow> string \<Rightarrow> proc \<Rightarrow> proc" where
  "initWebSocketResume token authError s0 =
     (let s = s0\<lparr>awaiting := remove1 token (awaiting s0)\<rparr>
      in if token \<noteq> initWebSocketToken s \<or> connectionRefCount s = 0 then
           (if token = initWebSocketToken s then s\<lparr>isConnecting := False\<rparr> else s)
         else if authError \<noteq> [] then s\<lparr>errors := errors s @ [authError], isConnecting := False\<rparr>
         else s\<lparr>websocket := Some (length (sockets s)), sockets := sockets s @ [SConnecting]\<rparr>)"

definition stopPolling :: "proc \<Rightarrow> proc" where
  "stopPolling s =
     (case pollingTimer s of
        Some t \<Rightarrow> s\<lparr>timers := (timers s)(t := None), pollingTimer := None, activePollingType := None\<rparr>
      | None \<Rightarrow> s\<lparr>activePollingType := None\<rparr>)"

definition closeWebSocket :: "proc \<Rightarrow> proc" where
  "closeWebSocket s0 =
     (let s = stopPolling (s0\<lparr>initWebSocketToken := initWebSocketToken s0 + 1\<rparr>);
          s1 = (case websocket s of
                  Some i \<Rightarrow> s\<lparr>sockets := (sockets s)[i := (if sockets s ! i = SClosed then SClosed else SClosing)],
                              websocket := None\<rparr>
                | None \<Rightarrow> s)
      in s1\<lparr>isConnected := False, isConnecting := False\<rparr>)"

definition connect :: "proc \<Rightarrow> proc" where
  "connect s =
     (let s1 = (case disconnectTimer s of
                  Some t \<Rightarrow> s\<lparr>timers := (timers s)(t := None), disconnectTimer := None\<rparr> | None \<Rightarrow> s);
          s2 = s1\<lparr>connectionRefCount := connectionRefCount s1 + 1\<rparr>
      in if websocket s2 = None \<and> \<not> isConnecting s2 then initWebSocket s2 else s2)"

definition startTimer :: "timer \<Rightarrow> proc \<Rightarrow> proc" where
  "startTimer k s = s\<lparr>timers := (timers s)(nextTimer s \<mapsto> k), nextTimer := Suc (nextTimer s)\<rparr>"

definition disconnect :: "proc \<Rightarrow> proc" where
  "disconnect s =
     (let s1 = s\<lparr>connectionRefCount := connectionRefCount s - 1\<rparr>
      in if connectionRefCount s1 = 0
         then startTimer DisconnectTimer (s1\<lparr>disconnectTimer := Some (nextTimer s1)\<rparr>) else s1)"


section \<open>Polling\<close>

definition scheduleInitialFetch :: "req \<Rightarrow> nat \<Rightarrow> proc \<Rightarrow> proc" where
  "scheduleInitialFetch type initialDelay s =
     (if initialDelay > 0 then startTimer (InitialTimer type) s else sendOf type s)"

definition startPolling :: "req \<Rightarrow> nat \<Rightarrow> proc \<Rightarrow> proc" where
  "startPolling type initialDelay s =
     (let s1 = (stopPolling s)\<lparr>activePollingType := Some type\<rparr>;
          s2 = (if isWsOpen s1 then scheduleInitialFetch type initialDelay s1
                else startTimer (CheckStop (nextTimer s1)) (startTimer (CheckTimer type initialDelay) s1))
      in startTimer (PollTimer type) (s2\<lparr>pollingTimer := Some (nextTimer s2)\<rparr>))"

definition fireTimer :: "nat \<Rightarrow> proc \<Rightarrow> proc" where
  "fireTimer t s =
     (case timers s t of
        None \<Rightarrow> s
      | Some (PollTimer type) \<Rightarrow> sendOf type s
      | Some (InitialTimer type) \<Rightarrow> sendOf type (s\<lparr>timers := (timers s)(t := None)\<rparr>)
      | Some (CheckTimer type initialDelay) \<Rightarrow>
          if isWsOpen s then scheduleInitialFetch type initialDelay (s\<lparr>timers := (timers s)(t := None)\<rparr>) else s
      | Some (CheckStop c) \<Rightarrow> s\<lparr>timers := ((timers s)(t := None))(c := None)\<rparr>
      | Some DisconnectTimer \<Rightarrow>
          (let s1 = s\<lparr>timers := (timers s)(t := None)\<rparr>
           in if connectionRefCount s1 = 0 then closeWebSocket s1 else s1))"

definition updatePsSearch :: "(PsSearch \<Rightarrow> PsSearch) \<Rightarrow> proc \<Rightarrow> proc" where
  "updatePsSearch params s = s\<lparr>psSearch := params (psSearch s)\<rparr>"

definition updateNetSearch :: "(NetSearch \<Rightarrow> NetSearch) \<Rightarrow> proc \<Rightarrow> proc" where
  "updateNetSearch params s = s\<lparr>netSearch := params (netSearch s)\<rparr>"

definition resetPsSearch :: "proc \<Rightarrow> proc" where
  "resetPsSearch s = s\<lparr>psSearch := (psSearch s)\<lparr>pid := NumUndef, username := [], name := []\<rparr>\<rparr>"

definition resetNetSearch :: "proc \<Rightarrow> proc" where
  "resetNetSearch s = s\<lparr>netSearch := (netSearch s)\<lparr>processID := NumUndef, processName := [], port := NumUndef\<rparr>\<rparr>"


section \<open>Events\<close>

datatype event =
    Connect | Disconnect | InitWebSocket | CloseWebSocket | SendMessage req | StartPolling req nat | StopPolling
  | UpdatePs "PsSearch \<Rightarrow> PsSearch" | UpdateNet "NetSearch \<Rightarrow> NetSearch" | ResetPs | ResetNet
  | Timer nat | Authorised nat string | SocketOpen nat | SocketMessage nat "nat list option option" | SocketClose nat

inductive step :: "event \<Rightarrow> proc \<Rightarrow> proc \<Rightarrow> bool" where
  "step Connect s (connect s)"
| "step Disconnect s (disconnect s)"
| "step InitWebSocket s (initWebSocket s)"
| "step CloseWebSocket s (closeWebSocket s)"
| "step (SendMessage r) s (sendOf r s)"
| "step (StartPolling r d) s (startPolling r d s)"
| "step StopPolling s (stopPolling s)"
| "step (UpdatePs f) s (updatePsSearch f s)"
| "step (UpdateNet g) s (updateNetSearch g s)"
| "step ResetPs s (resetPsSearch s)"
| "step ResetNet s (resetNetSearch s)"
| "step (Timer t) s (fireTimer t s)"
| "token \<in> set (awaiting s) \<Longrightarrow> step (Authorised token err) s (initWebSocketResume token err s)"
| "i < length (sockets s) \<Longrightarrow> sockets s ! i = SConnecting \<Longrightarrow>
     step (SocketOpen i) s (onOpen (s\<lparr>sockets := (sockets s)[i := SOpen]\<rparr>))"
| "i < length (sockets s) \<Longrightarrow> sockets s ! i = SOpen \<Longrightarrow> step (SocketMessage i d) s (onMessage d s)"
| "i < length (sockets s) \<Longrightarrow> sockets s ! i \<noteq> SClosed \<Longrightarrow>
     step (SocketClose i) s (onClose (s\<lparr>sockets := (sockets s)[i := SClosed]\<rparr>))"

inductive_cases stepE: "step e s t"

inductive run :: "event list \<Rightarrow> proc \<Rightarrow> proc \<Rightarrow> bool" where
  run_Nil: "run [] s s"
| run_Cons: "step e s t \<Longrightarrow> run es t u \<Longrightarrow> run (e # es) s u"

lemmas proc_defs = onOpen_def onClose_def initWebSocket_def initWebSocketResume_def stopPolling_def closeWebSocket_def
  connect_def startTimer_def disconnect_def updatePsSearch_def updateNetSearch_def resetPsSearch_def resetNetSearch_def


section \<open>Invariant\<close>

text \<open>The fetching marks mirror the pending request, a socket in use is one that was created, and
  an authorisation check that may still create a socket is the latest and finds none in use.\<close>

definition procInv :: "proc \<Rightarrow> bool" where
  "procInv s \<longleftrightarrow> isPsFetching s = (pendingRequestType s = Some Ps) \<and>
     isNetFetching s = (pendingRequestType s = Some Net) \<and>
     (\<forall>i. websocket s = Some i \<longrightarrow> i < length (sockets s)) \<and>
     distinct (awaiting s) \<and> (\<forall>k \<in> set (awaiting s). k \<le> initWebSocketToken s) \<and>
     (initWebSocketToken s \<in> set (awaiting s) \<longrightarrow> websocket s = None)"

text \<open>One send: the request goes to the open socket in use and becomes the pending one.\<close>

definition sendsOne :: "proc \<Rightarrow> proc \<Rightarrow> bool" where
  "sendsOne s t \<longleftrightarrow> (\<exists>i m. websocket s = Some i \<and> isWsOpen s \<and> sent t = sent s @ [(i, m)] \<and>
     websocket t = websocket s \<and> sockets t = sockets s \<and> awaiting t = awaiting s \<and>
     initWebSocketToken t = initWebSocketToken s \<and>
     (\<exists>r. pendingRequestType t = Some r \<and> isPsFetching t = (r = Ps \<or> isPsFetching s) \<and>
        isNetFetching t = (r = Net \<or> isNetFetching s)))"

definition sameCore :: "proc \<Rightarrow> proc \<Rightarrow> bool" where
  "sameCore s t \<longleftrightarrow> websocket t = websocket s \<and> sockets t = sockets s \<and> awaiting t = awaiting s \<and>
     initWebSocketToken t = initWebSocketToken s \<and> pendingRequestType t = pendingRequestType s \<and>
     isPsFetching t = isPsFetching s \<and> isNetFetching t = isNetFetching s \<and> sent t = sent s"

lemma sameCore_refl [simp]: "sameCore s s"
  by (simp add: sameCore_def)

lemma sameCore_procInv: "sameCore s t \<Longrightarrow> procInv t = procInv s"
  by (simp add: sameCore_def procInv_def)

lemma sameCore_isWsOpen: "sameCore s t \<Longrightarrow> isWsOpen t = isWsOpen s"
  by (simp add: sameCore_def isWsOpen_def split: option.split)

lemma sendsOne_core: "sameCore s s' \<Longrightarrow> sendsOne s' t \<Longrightarrow> sendsOne s t"
  by (auto simp: sameCore_def sendsOne_def isWsOpen_def)

lemma doSendMessage_sends: "isWsOpen s \<Longrightarrow> sendsOne s (doSendMessage r s)"
  by (cases r) (auto simp: sendsOne_def doSendMessage_def send_def isWsOpen_def Let_def split: option.splits)

lemma sendsOne_procInv: "procInv s \<Longrightarrow> pendingRequestType s = None \<Longrightarrow> sendsOne s t \<Longrightarrow> procInv t"
  unfolding procInv_def sendsOne_def by (elim exE conjE) (case_tac r; simp)

text \<open>Everything that asks for data either leaves the core alone or sends once, and the latter
  only when nothing is pending.\<close>

definition asks :: "proc \<Rightarrow> proc \<Rightarrow> bool" where
  "asks s t \<longleftrightarrow> sameCore s t \<or> (pendingRequestType s = None \<and> sendsOne s t)"

lemma asks_core: "sameCore s s' \<Longrightarrow> asks s' t \<Longrightarrow> asks s t"
  by (auto simp: asks_def sendsOne_core) (auto simp: sameCore_def)

lemma asks_after: "asks s t \<Longrightarrow> sameCore t u \<Longrightarrow> asks s u"
  unfolding asks_def sendsOne_def sameCore_def by metis

lemma asks_procInv: "procInv s \<Longrightarrow> asks s t \<Longrightarrow> procInv t"
  by (auto simp: asks_def sameCore_procInv sendsOne_procInv)

lemma sendOf_asks: "asks s (sendOf r s)"
  using doSendMessage_sends [of s]
  by (cases r) (auto simp: sendOf_def sendPsMessage_def sendNetMessage_def asks_def sameCore_def)

lemma startTimer_core: "sameCore s (startTimer k s)"
  by (simp add: sameCore_def startTimer_def)

lemma schedule_asks: "asks s (scheduleInitialFetch r d s)"
  using sendOf_asks startTimer_core by (simp add: scheduleInitialFetch_def asks_def)

lemma stopPolling_core: "sameCore s (stopPolling s)"
  by (simp add: sameCore_def stopPolling_def split: option.split)

lemma sameCore_trans: "sameCore s t \<Longrightarrow> sameCore t u \<Longrightarrow> sameCore s u"
  by (simp add: sameCore_def)

lemma startPolling_asks: "asks s (startPolling r d s)"
proof -
  define s1 where "s1 = (stopPolling s)\<lparr>activePollingType := Some r\<rparr>"
  define s2 where "s2 = (if isWsOpen s1 then scheduleInitialFetch r d s1
    else startTimer (CheckStop (nextTimer s1)) (startTimer (CheckTimer r d) s1))"
  have "sameCore s s1" using stopPolling_core [of s] by (simp add: sameCore_def s1_def)
  moreover have "asks s1 s2"
    using schedule_asks sameCore_trans [OF startTimer_core startTimer_core] by (simp add: s2_def asks_def)
  ultimately have "asks s s2" by (rule asks_core)
  then show ?thesis
    by (rule asks_after) (simp add: startPolling_def s1_def [symmetric] s2_def [symmetric] Let_def sameCore_def startTimer_def)
qed

lemma closeWebSocket_fields [simp]:
  "websocket (closeWebSocket s) = None" "initWebSocketToken (closeWebSocket s) = Suc (initWebSocketToken s)"
  "awaiting (closeWebSocket s) = awaiting s" "pendingRequestType (closeWebSocket s) = pendingRequestType s"
  "isPsFetching (closeWebSocket s) = isPsFetching s" "isNetFetching (closeWebSocket s) = isNetFetching s"
  "sent (closeWebSocket s) = sent s"
  by (simp_all add: closeWebSocket_def stopPolling_def Let_def split: option.split)

lemma closeWebSocket_procInv: "procInv s \<Longrightarrow> procInv (closeWebSocket s)"
  by (auto simp: procInv_def intro: le_SucI)

lemma fireTimer_cases: "asks s (fireTimer t s) \<or> (\<exists>s1. sameCore s s1 \<and> fireTimer t s = closeWebSocket s1)"
proof (cases "timers s t")
  case (Some k)
  let ?s1 = "s\<lparr>timers := (timers s)(t := None)\<rparr>"
  have core: "sameCore s ?s1" by (simp add: sameCore_def)
  show ?thesis
  proof (cases k)
    case (InitialTimer r)
    with Some show ?thesis using asks_core [OF core sendOf_asks] by (simp add: fireTimer_def)
  next
    case (CheckTimer r d)
    with Some show ?thesis
      using asks_core [OF core schedule_asks] sameCore_refl by (auto simp: fireTimer_def asks_def)
  next
    case DisconnectTimer
    with Some core show ?thesis
      by (cases "connectionRefCount s = 0") (auto simp: fireTimer_def asks_def Let_def)
  next
    case (PollTimer r)
    with Some show ?thesis by (simp add: fireTimer_def sendOf_asks)
  next
    case (CheckStop c)
    with Some show ?thesis by (simp add: fireTimer_def asks_def sameCore_def)
  qed
qed (simp add: fireTimer_def asks_def)

lemma initWebSocket_procInv: "procInv s \<Longrightarrow> procInv (initWebSocket s)"
  by (auto simp: procInv_def initWebSocket_def Let_def)

lemma connect_procInv: "procInv s \<Longrightarrow> procInv (connect s)"
proof -
  assume inv: "procInv s"
  define s2 where "s2 = (let s1 = (case disconnectTimer s of
      Some t \<Rightarrow> s\<lparr>timers := (timers s)(t := None), disconnectTimer := None\<rparr> | None \<Rightarrow> s)
    in s1\<lparr>connectionRefCount := connectionRefCount s1 + 1\<rparr>)"
  have "sameCore s s2" by (simp add: sameCore_def s2_def split: option.split)
  with inv have "procInv s2" by (simp add: sameCore_procInv)
  moreover have "connect s = s2 \<or> connect s = initWebSocket s2" by (simp add: connect_def s2_def Let_def)
  ultimately show ?thesis using initWebSocket_procInv by auto
qed

lemma resume_procInv: "procInv s \<Longrightarrow> token \<in> set (awaiting s) \<Longrightarrow> procInv (initWebSocketResume token err s)"
  by (auto simp: procInv_def initWebSocketResume_def Let_def dest: bspec)

text \<open>A message clears the pending request and may send the queued one.\<close>

lemma onMessage_cases:
  assumes "procInv s"
  shows "onMessage None s = s" "\<exists>s1. procInv s1 \<and> pendingRequestType s1 = None \<and> sent s1 = sent s \<and>
    websocket s1 = websocket s \<and> sockets s1 = sockets s \<and> asks s1 (onMessage (Some d) s)"
proof -
  let ?rows = "case d of None \<Rightarrow> [] | Some r \<Rightarrow> r"
  define s1 where "s1 = (if pendingRequestType s = Some Ps then s\<lparr>isPsFetching := False\<rparr>
     else if pendingRequestType s = Some Net then s\<lparr>isNetFetching := False\<rparr> else s)"
  define s2 where "s2 = s1\<lparr>pendingRequestType := None\<rparr>"
  define s3 where "s3 = (if pendingRequestType s = activePollingType s2 then
      (if pendingRequestType s = Some Ps then s2\<lparr>psData := ?rows, psLoading := False\<rparr>
       else if pendingRequestType s = Some Net then s2\<lparr>netData := ?rows, netLoading := False\<rparr> else s2) else s2)"
  have inv: "procInv s2"
    using assms by (cases "pendingRequestType s"; cases "the (pendingRequestType s)")
      (auto simp: procInv_def s1_def s2_def)
  have s2: "pendingRequestType s2 = None" "sent s2 = sent s" "websocket s2 = websocket s" "sockets s2 = sockets s"
    by (simp_all add: s2_def s1_def)
  have core: "sameCore s2 s3" by (simp add: sameCore_def s3_def)
  have eq: "onMessage (Some d) s = (case queuedRequestType s3 of
      Some t \<Rightarrow> if isWsOpen s3 then doSendMessage t (s3\<lparr>queuedRequestType := None\<rparr>) else s3 | None \<Rightarrow> s3)"
    by (simp only: onMessage_def option.case Let_def s1_def [symmetric] s2_def [symmetric] s3_def [symmetric])
  have c4: "sameCore s3 (s3\<lparr>queuedRequestType := None\<rparr>)" by (simp add: sameCore_def)
  have "pendingRequestType s3 = None" using core s2(1) by (simp add: sameCore_def)
  then have "asks s3 (onMessage (Some d) s)"
    using sendsOne_core [OF c4 doSendMessage_sends] sameCore_isWsOpen [OF c4]
    by (auto simp: eq asks_def split: option.split)
  then have "asks s2 (onMessage (Some d) s)" using core by (rule asks_core [rotated])
  with inv s2 show "\<exists>s1. procInv s1 \<and> pendingRequestType s1 = None \<and> sent s1 = sent s \<and>
    websocket s1 = websocket s \<and> sockets s1 = sockets s \<and> asks s1 (onMessage (Some d) s)" by blast
qed (simp add: onMessage_def)

lemma onOpen_core: "i < length (sockets s) \<Longrightarrow> procInv s \<Longrightarrow> procInv (onOpen (s\<lparr>sockets := (sockets s)[i := x]\<rparr>))"
  by (simp add: procInv_def onOpen_def)

lemma onClose_procInv: "procInv s \<Longrightarrow> procInv (onClose (s\<lparr>sockets := x\<rparr>))"
  by (simp add: procInv_def onClose_def)

lemma step_procInv: "step e s t \<Longrightarrow> procInv s \<Longrightarrow> procInv t"
proof (induction rule: step.induct)
  case (2 s)
  have "sameCore s (disconnect s)" by (simp add: disconnect_def sameCore_def startTimer_def Let_def)
  with 2 show ?case by (simp add: sameCore_procInv)
next
  case (7 s)
  then show ?case using sameCore_procInv [OF stopPolling_core] by simp
next
  case (12 t s)
  then show ?case
    using fireTimer_cases [of s t] asks_procInv closeWebSocket_procInv sameCore_procInv by metis
next
  case (15 i s d)
  then show ?case using onMessage_cases [of s] asks_procInv by (cases d) auto
next
  case (5 r s)
  then show ?case using asks_procInv sendOf_asks by blast
next
  case (6 r d s)
  then show ?case using asks_procInv startPolling_asks by blast
next
  case (14 i s)
  then show ?case by (simp add: onOpen_core)
qed (simp_all add: connect_procInv initWebSocket_procInv closeWebSocket_procInv resume_procInv onClose_procInv,
    simp_all add: updatePsSearch_def updateNetSearch_def resetPsSearch_def resetNetSearch_def procInv_def)

lemma run_procInv: "run es s t \<Longrightarrow> procInv s \<Longrightarrow> procInv t"
  by (induction rule: run.induct) (auto dest: step_procInv)

lemma procInv_initial: "procInv initialProc"
  by (simp add: procInv_def initialProc_def)

text \<open>A step that is no answer of the server sends only when nothing is pending.\<close>

lemma resume_sent: "pendingRequestType (initWebSocketResume k err s) = pendingRequestType s \<and>
    sent (initWebSocketResume k err s) = sent s"
  by (simp add: initWebSocketResume_def Let_def)

lemma connect_sent: "pendingRequestType (connect s) = pendingRequestType s \<and> sent (connect s) = sent s"
  by (simp add: connect_def initWebSocket_def Let_def split: option.split)

lemma asks_pending: "asks s t \<Longrightarrow> pendingRequestType s \<noteq> None \<Longrightarrow> pendingRequestType t = pendingRequestType s \<and> sent t = sent s"
  by (auto simp: asks_def sameCore_def)

definition answered :: "event \<Rightarrow> bool" where
  "answered e = (case e of SocketMessage i (Some d) \<Rightarrow> True | _ \<Rightarrow> False)"

lemma step_pending:
  "step e s t \<Longrightarrow> pendingRequestType s \<noteq> None \<Longrightarrow> \<not> answered e \<Longrightarrow>
   pendingRequestType t = pendingRequestType s \<and> sent t = sent s"
proof (induction rule: step.induct)
  case (12 t s)
  then show ?case using fireTimer_cases [of s t] asks_pending closeWebSocket_fields(4,7)
    by (metis sameCore_def)
next
  case (15 i s d)
  then show ?case by (cases d) (auto simp: answered_def onMessage_def)
next
  case (5 r s)
  then show ?case using asks_pending sendOf_asks by blast
next
  case (6 r d s)
  then show ?case using asks_pending startPolling_asks by blast
qed (simp_all add: connect_sent resume_sent initWebSocket_def disconnect_def startTimer_def
    stopPolling_def updatePsSearch_def updateNetSearch_def resetPsSearch_def resetNetSearch_def onOpen_def onClose_def
    Let_def split: option.split)


section \<open>Executing events\<close>

fun perform :: "event \<Rightarrow> proc \<Rightarrow> proc option" where
  "perform Connect s = Some (connect s)"
| "perform Disconnect s = Some (disconnect s)"
| "perform InitWebSocket s = Some (initWebSocket s)"
| "perform CloseWebSocket s = Some (closeWebSocket s)"
| "perform (SendMessage r) s = Some (sendOf r s)"
| "perform (StartPolling r d) s = Some (startPolling r d s)"
| "perform StopPolling s = Some (stopPolling s)"
| "perform (UpdatePs f) s = Some (updatePsSearch f s)"
| "perform (UpdateNet g) s = Some (updateNetSearch g s)"
| "perform ResetPs s = Some (resetPsSearch s)"
| "perform ResetNet s = Some (resetNetSearch s)"
| "perform (Timer t) s = Some (fireTimer t s)"
| "perform (Authorised token err) s = (if token \<in> set (awaiting s) then Some (initWebSocketResume token err s) else None)"
| "perform (SocketOpen i) s = (if i < length (sockets s) \<and> sockets s ! i = SConnecting
     then Some (onOpen (s\<lparr>sockets := (sockets s)[i := SOpen]\<rparr>)) else None)"
| "perform (SocketMessage i d) s = (if i < length (sockets s) \<and> sockets s ! i = SOpen then Some (onMessage d s) else None)"
| "perform (SocketClose i) s = (if i < length (sockets s) \<and> sockets s ! i \<noteq> SClosed
     then Some (onClose (s\<lparr>sockets := (sockets s)[i := SClosed]\<rparr>)) else None)"

lemma perform_step: "perform e s = Some t \<longleftrightarrow> step e s t"
proof
  assume "perform e s = Some t"
  then show "step e s t" by (cases e) (auto intro: step.intros split: if_splits)
next
  assume "step e s t"
  then show "perform e s = Some t" by (induction rule: step.induct) auto
qed

fun execute :: "event list \<Rightarrow> proc \<Rightarrow> proc option" where
  "execute [] s = Some s"
| "execute (e # es) s = Option.bind (perform e s) (execute es)"

lemma execute_run: "execute es s = Some t \<Longrightarrow> run es s t"
  by (induction es arbitrary: s) (auto simp: perform_step bind_eq_Some_conv intro: run.intros)

definition coreOf :: "proc \<Rightarrow> nat option \<times> bool \<times> nat \<times> req option \<times> readyState list \<times> nat list" where
  "coreOf s = (websocket s, isConnected s, connectionRefCount s, pendingRequestType s, sockets s, map fst (sent s))"

text \<open>A view is opened, asks, is left and opened again before its request was answered; in the
  second trace the first socket's close event arrives last.\<close>

definition reopenTrace :: "event list" where
  "reopenTrace = [Connect, Authorised 1 [], SocketOpen 0, SendMessage Ps, Disconnect, Timer 0,
     Connect, Authorised 3 [], SocketOpen 1]"

lemma reopen_executes:
  "\<exists>s. execute reopenTrace initialProc = Some s \<and> coreOf s = (Some 1, True, 1, Some Ps, [SClosing, SOpen], [0])"
  by (simp add: reopenTrace_def coreOf_def initialProc_def connect_def initWebSocket_def initWebSocketResume_def
      onOpen_def sendOf_def sendPsMessage_def isWsOpen_def doSendMessage_def send_def disconnect_def startTimer_def
      fireTimer_def closeWebSocket_def stopPolling_def Let_def)

lemma run_append: "run es s t \<Longrightarrow> step e t u \<Longrightarrow> run (es @ [e]) s u"
  by (induction rule: run.induct) (auto intro: run.intros)


section \<open>Properties\<close>

text \<open>C15. One request at a time: in every reachable state the fetching marks mirror the pending
  request, and an event sends at most one message, on the socket in use, which is open, and only
  if no request is pending or the event is the answer to it.\<close>

theorem process_one_request:
  assumes "run es initialProc s" "step e s t"
  shows "isPsFetching s = (pendingRequestType s = Some Ps) \<and> isNetFetching s = (pendingRequestType s = Some Net) \<and>
    (sent t = sent s \<or>
     (pendingRequestType s = None \<or> answered e) \<and> pendingRequestType t \<noteq> None \<and>
     (\<exists>i m. websocket s = Some i \<and> sockets s ! i = SOpen \<and> sent t = sent s @ [(i, m)]))"
proof -
  have inv: "procInv s" using run_procInv [OF assms(1) procInv_initial] .
  have one: "sent u = sent s \<or> pendingRequestType u \<noteq> None \<and>
      (\<exists>i m. websocket s = Some i \<and> sockets s ! i = SOpen \<and> sent u = sent s @ [(i, m)])"
    if "asks s' u" "sent s' = sent s" "websocket s' = websocket s" "sockets s' = sockets s" for s' u
    using that unfolding asks_def sendsOne_def sameCore_def isWsOpen_def by (auto split: option.splits)
  have "sent t = sent s \<or> pendingRequestType t \<noteq> None \<and>
      (\<exists>i m. websocket s = Some i \<and> sockets s ! i = SOpen \<and> sent t = sent s @ [(i, m)])"
    using assms(2)
  proof (cases rule: step.cases)
    case (12 k)
    then show ?thesis
      using fireTimer_cases [of s k] one [of s] closeWebSocket_fields(7) unfolding sameCore_def by metis
  next
    case (15 i d)
    show ?thesis
    proof (cases d)
      case None
      with 15 show ?thesis by (simp add: onMessage_def)
    next
      case (Some d')
      obtain s1 where "sent s1 = sent s" "websocket s1 = websocket s" "sockets s1 = sockets s"
        "asks s1 (onMessage (Some d') s)"
        using onMessage_cases(2) [OF inv] by blast
      with 15 Some one show ?thesis by blast
    qed
  next
    case (5 r)
    then show ?thesis using one [OF sendOf_asks] by simp
  next
    case (6 r d)
    then show ?thesis using one [OF startPolling_asks] by simp
  qed (simp_all add: connect_sent resume_sent initWebSocket_def disconnect_def startTimer_def stopPolling_def
      updatePsSearch_def updateNetSearch_def resetPsSearch_def resetNetSearch_def onOpen_def onClose_def Let_def
      split: option.split)
  moreover have "sent t = sent s" if "pendingRequestType s \<noteq> None" "\<not> answered e"
    using step_pending [OF assms(2) that] by simp
  ultimately show ?thesis using inv unfolding procInv_def by blast
qed

theorem process_one_request_witness:
  "\<exists>s. run reopenTrace initialProc s \<and> isPsFetching s = (pendingRequestType s = Some Ps)"
proof -
  obtain s where "execute reopenTrace initialProc = Some s" using reopen_executes by blast
  then have r: "run reopenTrace initialProc s" by (rule execute_run)
  from process_one_request [OF r step.intros(7)] r show ?thesis by blast
qed

lemma run_pending:
  "run es s t \<Longrightarrow> \<not> list_ex answered es \<Longrightarrow> pendingRequestType s \<noteq> None \<Longrightarrow>
   pendingRequestType t = pendingRequestType s \<and> sent t = sent s"
  by (induction rule: run.induct) (auto dest: step_pending)

text \<open>A view that connects without a socket in use gets a new one, once the check and the server let it.\<close>

lemma reopens:
  assumes "websocket s = None" "\<not> isConnecting s"
  shows "\<exists>es t. run es s t \<and> \<not> list_ex answered es \<and> isWsOpen t \<and> isConnected t \<and> websocket t = Some (length (sockets s))"
proof -
  define k i where "k = initWebSocketToken s + 1" and "i = length (sockets s)"
  define s1 s2 s3 where "s1 = connect s" and "s2 = initWebSocketResume k [] s1"
    and "s3 = onOpen (s2\<lparr>sockets := (sockets s2)[i := SOpen]\<rparr>)"
  have 1: "k \<in> set (awaiting s1)" "initWebSocketToken s1 = k" "connectionRefCount s1 \<noteq> 0" "sockets s1 = sockets s"
    using assms by (auto simp: s1_def connect_def initWebSocket_def k_def Let_def split: option.split)
  have 2: "websocket s2 = Some i" "sockets s2 = sockets s @ [SConnecting]"
    using 1 by (simp_all add: s2_def initWebSocketResume_def i_def Let_def)
  have "run [Connect, Authorised k [], SocketOpen i] s s3"
  proof (intro run.intros)
    show "step Connect s s1" unfolding s1_def by (rule step.intros)
    show "step (Authorised k []) s1 s2" unfolding s2_def by (rule step.intros) (rule 1(1))
    show "step (SocketOpen i) s2 s3" unfolding s3_def by (rule step.intros) (simp_all add: 2 i_def)
  qed (rule run_Nil)
  moreover have "isWsOpen s3" "isConnected s3" "websocket s3 = Some i"
    using 2 by (simp_all add: s3_def onOpen_def isWsOpen_def i_def)
  ultimately show ?thesis by (intro exI [of _ "[Connect, Authorised k [], SocketOpen i]"] exI [of _ s3]) (simp add: i_def answered_def)
qed

text \<open>C37. A request of either type that is pending when the connection is closed is never given up. From
  every state with such a request, once the socket is closed, a view can connect again to a new socket
  that opens, and yet, whatever is connected, polled or searched, and whichever timers and sockets
  fire, the request stays pending and nothing is sent any more, of either type, until a message of
  the server arrives that parses.\<close>

theorem reconnect_stalls:
  assumes "pendingRequestType s = Some r"
  shows "(\<exists>fs t. run fs (closeWebSocket s) t \<and> \<not> list_ex answered fs \<and> isWsOpen t \<and> isConnected t \<and>
      websocket t = Some (length (sockets s))) \<and>
    (\<forall>fs t. run fs (closeWebSocket s) t \<and> \<not> list_ex answered fs \<longrightarrow>
      pendingRequestType t = Some r \<and> sent t = sent s)"
proof -
  have c: "websocket (closeWebSocket s) = None" "\<not> isConnecting (closeWebSocket s)"
    "length (sockets (closeWebSocket s)) = length (sockets s)"
    by (simp_all add: closeWebSocket_def stopPolling_def Let_def split: option.split)
  have p: "pendingRequestType (closeWebSocket s) = Some r" "sent (closeWebSocket s) = sent s"
    using assms by simp_all
  show ?thesis
  proof (intro conjI allI impI)
    show "\<exists>fs t. run fs (closeWebSocket s) t \<and> \<not> list_ex answered fs \<and> isWsOpen t \<and> isConnected t \<and>
        websocket t = Some (length (sockets s))"
      using reopens [OF c(1,2)] by (simp add: c(3))
    show "pendingRequestType t = Some r" "sent t = sent s" if "run fs (closeWebSocket s) t \<and> \<not> list_ex answered fs" for fs t
      using run_pending [of fs "closeWebSocket s" t] that p by simp_all
  qed
qed

theorem reconnect_stalls_witness:
  "\<exists>s fs t. run reopenTrace initialProc s \<and> run fs (closeWebSocket s) t \<and> isWsOpen t \<and> isConnected t \<and>
     pendingRequestType t = Some Ps \<and> sent t = sent s"
proof -
  obtain s where s: "execute reopenTrace initialProc = Some s"
    "coreOf s = (Some 1, True, 1, Some Ps, [SClosing, SOpen], [0])"
    using reopen_executes by blast
  then have "pendingRequestType s = Some Ps" by (simp add: coreOf_def)
  from reconnect_stalls [OF this] execute_run [OF s(1)] show ?thesis by blast
qed

text \<open>The close event of a socket that was given up earlier drops the socket in use: a run
  exists after which the second socket is open and a view is connected, but the store holds no
  socket and calls itself disconnected.\<close>

theorem stale_close_drops:
  "\<exists>s. run (reopenTrace @ [SocketClose 0]) initialProc s \<and> sockets s ! 1 = SOpen \<and>
     connectionRefCount s = 1 \<and> websocket s = None \<and> \<not> isConnected s"
proof -
  obtain s where s: "execute reopenTrace initialProc = Some s"
    "coreOf s = (Some 1, True, 1, Some Ps, [SClosing, SOpen], [0])"
    using reopen_executes by blast
  then have "step (SocketClose 0) s (onClose (s\<lparr>sockets := (sockets s)[0 := SClosed]\<rparr>))"
    by (intro step.intros) (simp_all add: coreOf_def)
  from run_append [OF execute_run [OF s(1)] this] s(2) show ?thesis
    by (intro exI [of _ "onClose (s\<lparr>sockets := (sockets s)[0 := SClosed]\<rparr>)"]) (simp add: coreOf_def onClose_def)
qed

text \<open>An answer reaches the data of the type that asked for it, and only while that type is
  the one polled; other answers change neither table.\<close>

theorem onMessage_delivers:
  "psData (onMessage (Some (Some rows)) s) =
     (if pendingRequestType s = Some Ps \<and> activePollingType s = Some Ps then rows else psData s) \<and>
   netData (onMessage (Some (Some rows)) s) =
     (if pendingRequestType s = Some Net \<and> activePollingType s = Some Net then rows else netData s)"
proof -
  have "psData (doSendMessage r u) = psData u" "netData (doSendMessage r u) = netData u" for r u
    by (simp_all add: doSendMessage_def send_def Let_def split: option.split)
  then show ?thesis by (auto simp: onMessage_def Let_def split: option.split)
qed

end
