(* ===== verification/Cronjob_Spec.thy ===== *)
theory Cronjob_Spec
  imports JS_Number
begin

text \<open>
  Schedules of cron jobs (\<open>views/cronjob/cronjob/helper.ts\<close>): the form's schedule object is printed
  as a cron expression, read back for editing and shown as a sentence. Printing takes integers, as
  the form's number inputs hold; reading converts with \<open>Number\<close>, so its fields are \<open>jsnum\<close>. The
  translation function is outside the model: a sentence is its message key with the arguments.
\<close>

section \<open>Options and defaults\<close>

record SpecObj =
  specType :: string
  week :: jsnum
  day :: jsnum
  hour :: jsnum
  minute :: jsnum
  second :: jsnum

definition specOptions :: "string list" where
  "specOptions = [''perMonth'', ''perWeek'', ''perDay'', ''perHour'', ''perNDay'', ''perNHour'', ''perNMinute'', ''perNSecond'']"

definition weekOptions :: "(string \<times> int) list" where
  "weekOptions = [(''cronjob.monday'', 1), (''cronjob.tuesday'', 2), (''cronjob.wednesday'', 3),
     (''cronjob.thursday'', 4), (''cronjob.friday'', 5), (''cronjob.saturday'', 6), (''cronjob.sunday'', 0)]"

definition mysqlArgs :: "(string \<times> string list option) list" where
  "mysqlArgs = [(''--single-transaction'', None), (''--quick'', None), (''--skip-lock-tables'', None),
     (''--set-gtid-purged=OFF'', Some [''mysql'', ''mysql-cluster''])]"

definition loadMysqlArgs :: "string \<Rightarrow> (string \<times> string list option) list" where
  "loadMysqlArgs dbType = filter (\<lambda>item. case snd item of None \<Rightarrow> True | Some ts \<Rightarrow> dbType \<in> set ts) mysqlArgs"

definition loadWeek :: "jsnum \<Rightarrow> string" where
  "loadWeek i = (case find (\<lambda>w. Fin (of_int (snd w)) = i) weekOptions of Some w \<Rightarrow> fst w | None \<Rightarrow> [])"

text \<open>The schedule the form starts with: an unknown job type leaves the kind undefined, here empty.\<close>

record SpecInts =
  si_type :: string
  si_week :: int
  si_day :: int
  si_hour :: int
  si_minute :: int
  si_second :: int

definition loadDefaultSpec :: "string \<Rightarrow> SpecInts" where
  "loadDefaultSpec type =
     (let item = \<lparr>si_type = [], si_week = 0, si_day = 0, si_hour = 0, si_minute = 0, si_second = 0\<rparr>
      in if type \<in> {''shell'', ''clean'', ''website'', ''log'', ''snapshot'', ''curl''} then
           item\<lparr>si_type := ''perWeek'', si_week := 1, si_hour := 1, si_minute := 30\<rparr>
         else if type \<in> {''app'', ''database''} then
           item\<lparr>si_type := ''perDay'', si_hour := 2, si_minute := 30\<rparr>
         else if type \<in> {''directory'', ''cutWebsiteLog'', ''cleanLog'', ''syncIpGroup'', ''ntp''} then
           item\<lparr>si_type := ''perDay'', si_hour := 1, si_minute := 30\<rparr>
         else item)"

definition loadDefaultSpecCustom :: "string \<Rightarrow> string" where
  "loadDefaultSpecCustom type =
     (if type \<in> {''shell'', ''clean'', ''website'', ''log'', ''snapshot'', ''curl''} then ''30 1 * * 1''
      else if type \<in> {''app'', ''database''} then ''30 2 * * *''
      else if type \<in> {''directory'', ''cutWebsiteLog'', ''ntp'', ''syncIpGroup''} then ''30 1 * * *''
      else ''30 1 * * 1'')"

definition hasBackup :: "string \<Rightarrow> bool" where
  "hasBackup type \<longleftrightarrow> type \<in> {''app'', ''website'', ''database'', ''directory'', ''snapshot'', ''log'', ''cutWebsiteLog''}"

definition cronjobTypes :: "string list" where
  "cronjobTypes = [''shell'', ''app'', ''website'', ''database'', ''directory'', ''log'', ''curl'', ''cutWebsiteLog'',
     ''clean'', ''snapshot'', ''ntp'', ''syncIpGroup'', ''cleanLog'']"


section \<open>Printing and reading\<close>

definition transObjToSpec :: "string \<Rightarrow> int \<Rightarrow> int \<Rightarrow> int \<Rightarrow> int \<Rightarrow> int \<Rightarrow> string" where
  "transObjToSpec type w d h m s =
     (if type = ''perMonth'' then decimalInt m @ '' '' @ decimalInt h @ '' '' @ decimalInt d @ '' * *''
      else if type = ''perWeek'' then decimalInt m @ '' '' @ decimalInt h @ '' * * '' @ decimalInt w
      else if type = ''perNDay'' then decimalInt m @ '' '' @ decimalInt h @ '' */'' @ decimalInt d @ '' * *''
      else if type = ''perDay'' then decimalInt m @ '' '' @ decimalInt h @ '' * * *''
      else if type = ''perNHour'' then decimalInt m @ '' */'' @ decimalInt h @ '' * * *''
      else if type = ''perHour'' then decimalInt m @ '' * * * *''
      else if type = ''perNMinute'' then ''@every '' @ decimalInt m @ ''m''
      else if type = ''perNSecond'' then ''@every '' @ decimalInt s @ ''s''
      else [])"

definition num :: "string \<Rightarrow> jsnum" where
  "num s = toNumber (units s)"

definition emptySpec :: SpecObj where
  "emptySpec = \<lparr>specType = ''perNMinute'', week = Fin 0, day = Fin 0, hour = Fin 0, minute = Fin 0, second = Fin 0\<rparr>"

definition transSpecToObj :: "string \<Rightarrow> SpecObj option" where
  "transSpecToObj spec =
     (let specs = splitOn (CHR '' '') spec
      in if length specs = 2 then
           (if includesSub (specs ! 1) ''m''
            then Some (emptySpec\<lparr>specType := ''perNMinute'', minute := num (removeSub ''m'' (specs ! 1))\<rparr>)
            else Some (emptySpec\<lparr>specType := ''perNSecond'', second := num (removeSub ''s'' (specs ! 1))\<rparr>))
         else if length specs \<noteq> 5 \<or> specs ! 0 = ''*'' then None
         else
           (let i1 = emptySpec\<lparr>minute := num (specs ! 0)\<rparr>
            in if specs ! 1 = ''*'' then Some (i1\<lparr>specType := ''perHour''\<rparr>)
               else if includesSub (specs ! 1) ''*/''
               then Some (i1\<lparr>specType := ''perNHour'', hour := num (removeSub ''*/'' (specs ! 1))\<rparr>)
               else
                 (let i2 = i1\<lparr>hour := num (specs ! 1)\<rparr>
                  in if includesSub (specs ! 2) ''*/''
                     then Some (i2\<lparr>specType := ''perNDay'', day := num (removeSub ''*/'' (specs ! 2))\<rparr>)
                     else if specs ! 2 \<noteq> ''*'' then Some (i2\<lparr>specType := ''perMonth'', day := num (specs ! 2)\<rparr>)
                     else if specs ! 4 \<noteq> ''*'' then Some (i2\<lparr>specType := ''perWeek'', week := num (specs ! 4)\<rparr>)
                     else Some (i2\<lparr>specType := ''perDay''\<rparr>))))"

text \<open>Arguments of a sentence: a number, a number with a leading zero when it is below ten, and the
  label of a week day. Dereferencing a null schedule throws.\<close>

datatype sentence_arg = Shown jsnum | Zeroed bool jsnum | Label string

datatype sentence = TypeError | Sentence string "sentence_arg list" | NoSentence

definition loadZero :: "jsnum \<Rightarrow> sentence_arg" where
  "loadZero i = Zeroed (ltNum i (Fin 10)) i"

definition transSpecToStr :: "string \<Rightarrow> sentence" where
  "transSpecToStr spec =
     (case transSpecToObj spec of
        None \<Rightarrow> TypeError
      | Some obj \<Rightarrow>
          let t = specType obj
          in if t = ''perMonth'' then Sentence ''cronjob.perMonthHelper'' [Shown (day obj), Shown (hour obj), loadZero (minute obj)]
             else if t = ''perWeek'' then
               Sentence ''cronjob.perWeekHelper'' [Label (loadWeek (week obj)), Shown (hour obj), loadZero (minute obj)]
             else if t = ''perDay'' then Sentence ''cronjob.perDayHelper'' [Shown (hour obj), loadZero (minute obj)]
             else if t = ''perHour'' then Sentence ''cronjob.perHourHelper'' [loadZero (minute obj)]
             else if t = ''perNDay'' then
               Sentence ''cronjob.perNDayHelper'' [Shown (day obj), Shown (hour obj), loadZero (minute obj)]
             else if t = ''perNHour'' then Sentence ''cronjob.perNHourHelper'' [Shown (hour obj), loadZero (minute obj)]
             else if t = ''perNMinute'' then Sentence ''cronjob.perNMinuteHelper'' [loadZero (minute obj)]
             else if t = ''perNSecond'' then Sentence ''cronjob.perNSecondHelper'' [loadZero (second obj)]
             else NoSentence)"


section \<open>Reading back what was printed\<close>

lemma num_decimal: "num (decimal n) = Fin (of_nat n)"
  by (simp add: num_def units_decimal toNumber_decUnits)

lemma decimalInt_nat [simp]: "decimalInt (int n) = decimal n"
  by (simp add: decimalInt_def)

lemma decimal_no_space [simp]: "CHR '' '' \<notin> set (decimal n)"
  by (rule decimal_notin) simp

lemma decimal_no_star [simp]: "CHR ''*'' \<notin> set (decimal n)"
  by (rule decimal_notin) simp

lemma decimal_no_m [simp]: "CHR ''m'' \<notin> set (decimal n)" "CHR ''s'' \<notin> set (decimal n)"
  by (rule decimal_notin, simp)+

lemma decimal_not_star [simp]: "decimal n \<noteq> ''*''"
  using decimal_no_star [of n] by (metis list.set_intros(1))

lemma decimal_no_step [simp]: "\<not> includesSub (decimal n) ''*/''"
  by (rule includesSub_first) simp_all

lemma removeSub_step [simp]: "removeSub ''*/'' (decimal n) = decimal n"
  by (simp add: removeSub_id)

lemma removeSub_unit [simp]: "removeSub ''m'' (decimal n @ ''m'') = decimal n" "removeSub ''s'' (decimal n @ ''s'') = decimal n"
  by (auto simp: removeSub_single filter_id_conv dest: decimal_notin [rotated])

text \<open>The schedule that a kind of job keeps: the fields its expression shows.\<close>

definition shownSpec :: "string \<Rightarrow> nat \<Rightarrow> nat \<Rightarrow> nat \<Rightarrow> nat \<Rightarrow> nat \<Rightarrow> SpecObj" where
  "shownSpec type w d h m s =
     (let on = (\<lambda>kinds n. if type \<in> kinds then Fin (of_nat n) else Fin 0)
      in \<lparr>specType = type, week = on {''perWeek''} w, day = on {''perMonth'', ''perNDay''} d,
          hour = on {''perMonth'', ''perWeek'', ''perNDay'', ''perDay'', ''perNHour''} h,
          minute = on {''perMonth'', ''perWeek'', ''perNDay'', ''perDay'', ''perNHour'', ''perHour'', ''perNMinute''} m,
          second = on {''perNSecond''} s\<rparr>)"

text \<open>C32. Reading a printed schedule gives it back: for each of the eight kinds and all
  non-negative numbers, \<open>transSpecToObj\<close> recovers the kind and the fields it shows, the others 0.\<close>

theorem spec_roundtrip:
  assumes "type \<in> set specOptions"
  shows "transSpecToObj (transObjToSpec type (int w) (int d) (int h) (int m) (int s)) = Some (shownSpec type w d h m s)"
proof -
  have n: "splitOn (CHR '' '') (w @ CHR '' '' # s) = w # splitOn (CHR '' '') s" if "CHR '' '' \<notin> set w" for w s
    using that by (rule splitOn_append)
  from assms show ?thesis
    unfolding specOptions_def
    by (auto simp: transObjToSpec_def transSpecToObj_def shownSpec_def emptySpec_def n num_decimal)
qed

theorem spec_roundtrip_witness:
  "transSpecToObj (transObjToSpec ''perNHour'' (int 0) (int 0) (int 6) (int 30) (int 0)) =
     Some (shownSpec ''perNHour'' 0 0 6 30 0)"
  by (rule spec_roundtrip) (simp add: specOptions_def)

text \<open>Exactly the expressions that are not of two or five fields, or whose minute is a star,
  make \<open>transSpecToStr\<close> dereference null; every other one has a sentence.\<close>

theorem transSpecToStr_throws:
  "(transSpecToStr spec = TypeError \<longleftrightarrow>
      (let specs = splitOn (CHR '' '') spec in \<not> (length specs = 2) \<and> \<not> (length specs = 5 \<and> specs ! 0 \<noteq> ''*''))) \<and>
   transSpecToStr spec \<noteq> NoSentence"
proof -
  have none: "transSpecToObj spec = None \<longleftrightarrow>
      (let specs = splitOn (CHR '' '') spec in \<not> (length specs = 2) \<and> \<not> (length specs = 5 \<and> specs ! 0 \<noteq> ''*''))"
    by (auto simp: transSpecToObj_def Let_def)
  have kinds: "specType obj \<in> set specOptions" if "transSpecToObj spec = Some obj" for obj
    using that by (auto simp: transSpecToObj_def Let_def specOptions_def split: if_splits)
  have "transSpecToStr spec \<noteq> TypeError \<and> transSpecToStr spec \<noteq> NoSentence" if "transSpecToObj spec = Some obj" for obj
    using kinds [OF that] that by (auto simp: transSpecToStr_def specOptions_def)
  moreover have "transSpecToStr spec = TypeError" if "transSpecToObj spec = None"
    using that by (simp add: transSpecToStr_def)
  ultimately show ?thesis using none by (cases "transSpecToObj spec") auto
qed

text \<open>The form's two defaults agree: the default expression of a job type is the printed
  default schedule, for every type on offer but \<open>cleanLog\<close>, whose expression is weekly where its
  schedule is daily.\<close>

theorem default_spec_agrees:
  "filter (\<lambda>type. let i = loadDefaultSpec type
       in transObjToSpec (si_type i) (si_week i) (si_day i) (si_hour i) (si_minute i) (si_second i) \<noteq>
          loadDefaultSpecCustom type) cronjobTypes = [''cleanLog'']"
  by code_simp

end
