(* ===== verification/Sizes.thy ===== *)
theory Sizes
  imports Prelude Complex_Main
begin

text \<open>
  Sizes shown with binary units (\<open>utils/size.ts\<close>). Sizes are natural numbers. A division by a power
  of 1024 is exact on the integers below 2 to the 53, so the rational quotient is the number the
  program formats; \<open>toFixed\<close> rounds to the nearest decimal and takes the larger of two. The
  functions that divide by powers of 1000 (\<open>computeSize2\<close>, \<open>computeCPU\<close>) are left out: their
  quotients are rounded before they are formatted.
\<close>

section \<open>Fixed-point text\<close>

definition toFixedN :: "nat \<Rightarrow> rat \<Rightarrow> nat" where
  "toFixedN p q = nat \<lfloor>q * 10 ^ p + 1 / 2\<rfloor>"

definition twoDigits :: "nat \<Rightarrow> string" where
  "twoDigits n = [char_of (48 + n div 10 :: nat), char_of (48 + n mod 10 :: nat)]"

text \<open>The text of \<open>toFixed (2)\<close>.\<close>

definition toFixed2 :: "rat \<Rightarrow> string" where
  "toFixed2 q = (let n = toFixedN 2 q in decimal (n div 100) @ ''.'' @ twoDigits (n mod 100))"

text \<open>\<open>formattedNumber\<close> of such a text, as the text of the number it answers: a fraction of two
  zeros is cut, a last zero disappears.\<close>

definition formattedNumber :: "string \<Rightarrow> string" where
  "formattedNumber s =
     (if suffix ''.00'' s then take (length s - 3) s else if suffix ''0'' s then butlast s else s)"

section \<open>Units\<close>

datatype BinarySizeUnit = B | KiB | MiB | GiB | TiB

primrec binarySizeUnitPower :: "BinarySizeUnit \<Rightarrow> nat" where
  "binarySizeUnitPower B = 0"
| "binarySizeUnitPower KiB = 1"
| "binarySizeUnitPower MiB = 2"
| "binarySizeUnitPower GiB = 3"
| "binarySizeUnitPower TiB = 4"

definition convertBinarySize :: "nat \<Rightarrow> BinarySizeUnit \<Rightarrow> BinarySizeUnit \<Rightarrow> nat \<Rightarrow> rat" where
  "convertBinarySize sz frm to precision =
     (if sz = 0 \<or> frm = to then of_nat sz
      else (let bytes = of_nat sz * 1024 ^ binarySizeUnitPower frm
            in of_nat (toFixedN precision (bytes / 1024 ^ binarySizeUnitPower to)) / 10 ^ precision))"

definition quotient :: "nat \<Rightarrow> nat \<Rightarrow> rat" where
  "quotient sz k = of_nat sz / 1024 ^ k"

definition computeSize :: "nat \<Rightarrow> string" where
  "computeSize sz =
     (if sz < 1024 then decimal sz @ '' B''
      else if sz < 1024 ^ 2 then formattedNumber (toFixed2 (quotient sz 1)) @ '' KB''
      else if sz < 1024 ^ 3 then formattedNumber (toFixed2 (quotient sz 2)) @ '' MB''
      else if sz < 1024 ^ 4 then formattedNumber (toFixed2 (quotient sz 3)) @ '' GB''
      else formattedNumber (toFixed2 (quotient sz 4)) @ '' TB'')"

definition computeSizeForDocker :: "nat \<Rightarrow> string" where
  "computeSizeForDocker sz =
     (if sz < 1024 then decimal sz @ '' B''
      else if sz < 1024 ^ 2 then formattedNumber (toFixed2 (quotient sz 1)) @ '' KiB''
      else if sz < 1024 ^ 3 then formattedNumber (toFixed2 (quotient sz 2)) @ '' MiB''
      else if sz < 1024 ^ 4 then formattedNumber (toFixed2 (quotient sz 3)) @ '' GiB''
      else formattedNumber (toFixed2 (quotient sz 4)) @ '' TiB'')"

text \<open>\<open>splitSize\<close> answers the number and its unit.\<close>

definition hundredths :: "rat \<Rightarrow> rat" where
  "hundredths q = of_nat (toFixedN 2 q) / 100"

definition splitSize :: "nat \<Rightarrow> rat \<times> string" where
  "splitSize sz =
     (if sz < 1024 then (of_nat sz, ''B'')
      else if sz < 1024 ^ 2 then (hundredths (quotient sz 1), ''KB'')
      else if sz < 1024 ^ 3 then (hundredths (quotient sz 2), ''MB'')
      else if sz < 1024 ^ 4 then (hundredths (quotient sz 3), ''GB'')
      else (hundredths (quotient sz 4), ''TB''))"

definition computeSizeFromMB :: "nat \<Rightarrow> string" where
  "computeSizeFromMB sz =
     (if sz < 1024 then decimal sz @ '' MB''
      else if sz < 1024 ^ 2 then toFixed2 (quotient sz 1) @ '' GB''
      else toFixed2 (quotient sz 3) @ '' TB'')"

definition computeSizeFromKB :: "nat \<Rightarrow> string" where
  "computeSizeFromKB sz =
     (if sz < 1024 then decimal sz @ '' KB''
      else if sz < 1024 ^ 2 then toFixed2 (quotient sz 1) @ '' MB''
      else if sz < 1024 ^ 3 then toFixed2 (quotient sz 2) @ '' GB''
      else toFixed2 (quotient sz 3) @ '' TB'')"

definition computeSizeFromByte :: "nat \<Rightarrow> string" where
  "computeSizeFromByte sz =
     (if sz < 1024 then decimal sz @ '' B''
      else if sz < 1024 ^ 2 then toFixed2 (quotient sz 1) @ '' KB''
      else if sz < 1024 ^ 3 then toFixed2 (quotient sz 2) @ '' MB''
      else if sz < 1024 ^ 4 then toFixed2 (quotient sz 3) @ '' GB''
      else toFixed2 (quotient sz 4) @ '' TB'')"

definition computeSizeFromKBs :: "nat \<Rightarrow> string" where
  "computeSizeFromKBs sz =
     (if sz < 1024 then decimal sz @ '' KB/s''
      else if sz < 1024 ^ 2 then toFixed2 (quotient sz 1) @ '' MB/s''
      else if sz < 1024 ^ 3 then toFixed2 (quotient sz 2) @ '' GB/s''
      else toFixed2 (quotient sz 3) @ '' TB/s'')"


section \<open>Properties\<close>

text \<open>The tables agree on what a size is: from a thousand and twenty-four units up, a size in
  KB shows as the same size in bytes, and so does a size in MB below a terabyte; but a size in MB
  from a terabyte up shows 1024 times too small.\<close>

theorem size_tables:
  assumes "1024 \<le> n"
  shows "computeSizeFromKB n = computeSizeFromByte (n * 1024) \<and>
    (n < 1024 ^ 2 \<longrightarrow> computeSizeFromMB n = computeSizeFromByte (n * 1024 ^ 2)) \<and>
    (1024 ^ 2 \<le> n \<longrightarrow> computeSizeFromByte (n * 1024 ^ 2) = toFixed2 (quotient n 2) @ '' TB'' \<and>
       computeSizeFromMB n = toFixed2 (quotient n 2 / 1024) @ '' TB'')"
proof -
  have kb: "quotient (n * 1024) 2 = quotient n 1" "quotient (n * 1024) 3 = quotient n 2" "quotient (n * 1024) 4 = quotient n 3"
    by (simp_all add: quotient_def)
  have mb: "quotient (n * 1048576) 3 = quotient n 1" "quotient (n * 1048576) 4 = quotient n 2"
    by (simp_all add: quotient_def)
  have tb: "quotient n 3 = quotient n 2 / 1024" by (simp add: quotient_def)
  show ?thesis
    using assms by (simp add: computeSizeFromKB_def computeSizeFromByte_def computeSizeFromMB_def kb mb tb)
qed

theorem size_tables_witness:
  "computeSizeFromByte (1048576 * 1024 ^ 2) = toFixed2 (quotient 1048576 2) @ '' TB'' \<and>
   computeSizeFromMB 1048576 = toFixed2 (quotient 1048576 2 / 1024) @ '' TB''"
  using size_tables [of 1048576] by simp

lemma toFixedN_close: "0 \<le> q \<Longrightarrow> \<bar>of_nat (toFixedN p q) / 10 ^ p - q\<bar> \<le> 1 / (2 * 10 ^ p)"
proof -
  assume q: "0 \<le> q"
  let ?x = "q * 10 ^ p + 1 / 2"
  have "0 \<le> ?x" using q by simp
  then have n: "(of_nat (toFixedN p q) :: rat) = of_int \<lfloor>?x\<rfloor>" by (simp add: toFixedN_def)
  have "of_int \<lfloor>?x\<rfloor> \<le> ?x" "?x < of_int \<lfloor>?x\<rfloor> + 1" by linarith+
  then have "\<bar>of_int \<lfloor>?x\<rfloor> - q * 10 ^ p\<bar> \<le> 1 / 2" by linarith
  then have "\<bar>(of_int \<lfloor>?x\<rfloor> - q * 10 ^ p) / 10 ^ p\<bar> \<le> 1 / 2 / 10 ^ p"
    unfolding abs_divide by (intro frac_le divide_right_mono) simp_all
  then show ?thesis by (simp add: n diff_divide_distrib)
qed

text \<open>A shown size is within half a hundredth of its unit of the true one, and the unit is one
  the size reaches.\<close>

theorem splitSize_close:
  "\<exists>k. snd (splitSize sz) = [''B'', ''KB'', ''MB'', ''GB'', ''TB''] ! k \<and> k \<le> 4 \<and> (k = 0 \<or> 1024 ^ k \<le> sz) \<and>
     \<bar>fst (splitSize sz) - of_nat sz / 1024 ^ k\<bar> \<le> 1 / 200"
proof -
  have c: "\<bar>hundredths (quotient sz k) - of_nat sz / 1024 ^ k\<bar> \<le> 1 / 200" for k
    using toFixedN_close [of "quotient sz k" 2] by (simp add: hundredths_def quotient_def)
  show ?thesis
  proof (cases "sz < 1024")
    case True
    then show ?thesis by (intro exI [of _ 0]) (simp add: splitSize_def)
  next
    case False
    have pick: ?thesis if "splitSize sz = (hundredths (quotient sz k), [''B'', ''KB'', ''MB'', ''GB'', ''TB''] ! k)"
      "k \<le> 4" "1024 ^ k \<le> sz" for k
      using that c [of k] by (intro exI [of _ k]) simp
    consider "sz < 1024 ^ 2" | "1024 ^ 2 \<le> sz" "sz < 1024 ^ 3" | "1024 ^ 3 \<le> sz" "sz < 1024 ^ 4" | "1024 ^ 4 \<le> sz"
      by linarith
    then show ?thesis
    proof cases
      case 1
      with False show ?thesis by (intro pick [of 1]) (simp_all add: splitSize_def)
    next
      case 2
      with False show ?thesis by (intro pick [of 2]) (simp_all add: splitSize_def)
    next
      case 3
      with False show ?thesis by (intro pick [of 3]) (simp_all add: splitSize_def)
    next
      case 4
      with False show ?thesis by (intro pick [of 4]) (simp_all add: splitSize_def)
    qed
  qed
qed

end
