(* ===== verification/Json_Text.thy ===== *)
theory Json_Text
  imports Prelude
begin

text \<open>
  \<open>JSON.parse\<close> of the language, as a recursive descent parser on code units. A number is recognised
  but its value dropped, since no source looks at it; of members with the same key the last one
  counts, as in the object that \<open>JSON.parse\<close> builds. The parsers for elements and members compare
  the length of the rest with that of the input: the comparison always holds
  (\<open>parse_shorter\<close>) and makes the recursion plainly well-founded.
\<close>

section \<open>Tokens\<close>

datatype json = JNull | JBool bool | JNum | JStr jstr | JArr "json list" | JObj "(jstr \<times> json) list"

definition isWs :: "nat \<Rightarrow> bool" where
  "isWs c \<longleftrightarrow> c = 32 \<or> c = 9 \<or> c = 10 \<or> c = 13"

abbreviation skipWs :: "jstr \<Rightarrow> jstr" where
  "skipWs s \<equiv> dropWhile isWs s"

definition hexVal :: "nat \<Rightarrow> nat option" where
  "hexVal c = (if 48 \<le> c \<and> c \<le> 57 then Some (c - 48) else if 97 \<le> c \<and> c \<le> 102 then Some (c - 87)
     else if 65 \<le> c \<and> c \<le> 70 then Some (c - 55) else None)"

definition hex4 :: "nat \<Rightarrow> nat \<Rightarrow> nat \<Rightarrow> nat \<Rightarrow> nat option" where
  "hex4 a b c d =
     (case hexVal a of None \<Rightarrow> None | Some x \<Rightarrow> case hexVal b of None \<Rightarrow> None | Some y \<Rightarrow>
      case hexVal c of None \<Rightarrow> None | Some z \<Rightarrow> case hexVal d of None \<Rightarrow> None | Some u \<Rightarrow>
      Some (((16 * x + y) * 16 + z) * 16 + u))"

text \<open>The body of a string after its opening quote.\<close>

fun parseStr :: "jstr \<Rightarrow> (jstr \<times> jstr) option" where
  "parseStr [] = None"
| "parseStr (c # s) =
     (if c = 34 then Some ([], s)
      else if c < 32 then None
      else if c \<noteq> 92 then map_option (\<lambda>(t, r). (c # t, r)) (parseStr s)
      else case s of
        [] \<Rightarrow> None
      | e # s1 \<Rightarrow>
          if e = 117 then
            (case s1 of
               a # b # c4 # d # s2 \<Rightarrow>
                 (case hex4 a b c4 d of None \<Rightarrow> None
                  | Some u \<Rightarrow> map_option (\<lambda>(t, r). (u # t, r)) (parseStr s2))
             | _ \<Rightarrow> None)
          else
            (case map_of [(34, 34), (92, 92), (47, 47), (98, 8), (102, 12), (110, 10), (114, 13), (116, 9)] e of
               None \<Rightarrow> None
             | Some u \<Rightarrow> map_option (\<lambda>(t, r). (u # t, r)) (parseStr s1)))"

definition isDig :: "nat \<Rightarrow> bool" where
  "isDig c \<longleftrightarrow> 48 \<le> c \<and> c \<le> 57"

definition digits1 :: "jstr \<Rightarrow> jstr option" where
  "digits1 s = (if takeWhile isDig s = [] then None else Some (dropWhile isDig s))"

definition parseInt :: "jstr \<Rightarrow> jstr option" where
  "parseInt s = (case s of [] \<Rightarrow> None | c # r \<Rightarrow> if c = 48 then Some r else digits1 s)"

definition parseFrac :: "jstr \<Rightarrow> jstr option" where
  "parseFrac s = (case s of [] \<Rightarrow> Some [] | c # r \<Rightarrow> if c = 46 then digits1 r else Some s)"

definition parseExp :: "jstr \<Rightarrow> jstr option" where
  "parseExp s = (case s of [] \<Rightarrow> Some []
     | c # r \<Rightarrow> if c = 101 \<or> c = 69 then
         (case r of [] \<Rightarrow> None | d # r1 \<Rightarrow> if d = 43 \<or> d = 45 then digits1 r1 else digits1 r)
       else Some s)"

definition parseNum :: "jstr \<Rightarrow> jstr option" where
  "parseNum s = Option.bind (Option.bind (parseInt (case s of [] \<Rightarrow> [] | c # r \<Rightarrow> if c = 45 then r else s)) parseFrac) parseExp"

definition keyword :: "nat list \<Rightarrow> 'a \<Rightarrow> jstr \<Rightarrow> ('a \<times> jstr) option" where
  "keyword w v s = (if prefix w s then Some (v, drop (length w) s) else None)"


section \<open>Values\<close>

text \<open>\<open>parseVal\<close> reads a value after white space; \<open>parseElems\<close> the elements of an array and
  \<open>parseMembers\<close> the members of an object, each up to and with the closing bracket.\<close>

function parseVal :: "jstr \<Rightarrow> (json \<times> jstr) option"
  and parseElems :: "jstr \<Rightarrow> (json list \<times> jstr) option"
  and parseMembers :: "jstr \<Rightarrow> ((jstr \<times> json) list \<times> jstr) option"
where
  "parseVal s =
     (case s of
        [] \<Rightarrow> None
      | c # s1 \<Rightarrow>
          if isWs c then parseVal s1
          else if c = 34 then map_option (\<lambda>(t, r). (JStr t, r)) (parseStr s1)
          else if c = 91 then
            (case skipWs s1 of
               [] \<Rightarrow> None
             | d # s2 \<Rightarrow> if d = 93 then Some (JArr [], s2) else map_option (\<lambda>(es, r). (JArr es, r)) (parseElems s1))
          else if c = 123 then
            (case skipWs s1 of
               [] \<Rightarrow> None
             | d # s2 \<Rightarrow> if d = 125 then Some (JObj [], s2) else map_option (\<lambda>(ms, r). (JObj ms, r)) (parseMembers s1))
          else if c = 110 then keyword [110, 117, 108, 108] JNull s
          else if c = 116 then keyword [116, 114, 117, 101] (JBool True) s
          else if c = 102 then keyword [102, 97, 108, 115, 101] (JBool False) s
          else map_option (Pair JNum) (parseNum s))"
| "parseElems s =
     (case parseVal s of
        None \<Rightarrow> None
      | Some (v, r) \<Rightarrow>
          (case skipWs r of
             [] \<Rightarrow> None
           | d # r1 \<Rightarrow>
               if d = 93 then Some ([v], r1)
               else if d = 44 \<and> length r1 < length s then map_option (\<lambda>(es, r2). (v # es, r2)) (parseElems r1)
               else None))"
| "parseMembers s =
     (case skipWs s of
        [] \<Rightarrow> None
      | q # s1 \<Rightarrow>
          if q \<noteq> 34 then None
          else case parseStr s1 of
            None \<Rightarrow> None
          | Some (k, s2) \<Rightarrow>
              (case skipWs s2 of
                 [] \<Rightarrow> None
               | c # s3 \<Rightarrow>
                   if c \<noteq> 58 \<or> \<not> length s3 < length s then None
                   else case parseVal s3 of
                     None \<Rightarrow> None
                   | Some (v, r) \<Rightarrow>
                       (case skipWs r of
                          [] \<Rightarrow> None
                        | d # r1 \<Rightarrow>
                            if d = 125 then Some ([(k, v)], r1)
                            else if d = 44 \<and> length r1 < length s
                            then map_option (\<lambda>(ms, r2). ((k, v) # ms, r2)) (parseMembers r1)
                            else None)))"
  by pat_completeness auto
termination
  by (relation "measure (\<lambda>x. case x of Inl s \<Rightarrow> 2 * length s | Inr (Inl s) \<Rightarrow> 2 * length s + 1 | Inr (Inr s) \<Rightarrow> 2 * length s + 1)")
    (auto simp: not_less)

declare parseVal.simps [simp del] parseElems.simps [simp del] parseMembers.simps [simp del]

definition JSON_parse :: "jstr \<Rightarrow> json option" where
  "JSON_parse s = (case parseVal s of Some (v, r) \<Rightarrow> if skipWs r = [] then Some v else None | None \<Rightarrow> None)"


section \<open>The parsers consume\<close>

lemma dropWhile_shorter: "length (dropWhile P s) \<le> length s"
  by (induction s) auto

lemma parseStr_shorter: "parseStr s = Some (t, r) \<Longrightarrow> length r < length s"
proof (induction s arbitrary: t r rule: parseStr.induct)
  case (2 c s)
  then show ?case by (fastforce split: if_splits list.splits option.splits)
qed simp

lemma digits1_shorter: "digits1 s = Some r \<Longrightarrow> length r < length s"
  by (cases s) (auto simp: digits1_def dropWhile_shorter le_imp_less_Suc split: if_splits)

lemma parseNum_shorter: "parseNum s = Some r \<Longrightarrow> length r < length s"
proof -
  assume "parseNum s = Some r"
  then obtain a b where ab: "parseInt (case s of [] \<Rightarrow> [] | c # r \<Rightarrow> if c = 45 then r else s) = Some a"
    "parseFrac a = Some b" "parseExp b = Some r"
    by (auto simp: parseNum_def bind_eq_Some_conv)
  have "length a < length s"
    using ab(1) digits1_shorter by (auto simp: parseInt_def less_Suc_eq split: list.splits if_splits dest!: digits1_shorter)
  moreover have "length b \<le> length a"
    using ab(2) by (auto simp: parseFrac_def split: list.splits if_splits dest!: digits1_shorter)
  moreover have "length r \<le> length b"
    using ab(3) by (auto simp: parseExp_def split: list.splits if_splits dest!: digits1_shorter)
  ultimately show ?thesis by linarith
qed

lemma keyword_shorter: "w \<noteq> [] \<Longrightarrow> keyword w v s = Some (u, r) \<Longrightarrow> length r < length s"
  by (auto simp: keyword_def prefix_def split: if_splits)

lemma skip_shorter: "skipWs s = d # r \<Longrightarrow> length r < length s"
  using dropWhile_shorter [of isWs s] by auto

lemma bracket_shorter:
  assumes "(case skipWs s of [] \<Rightarrow> None
      | d # s2 \<Rightarrow> if d = e then Some (x, s2) else map_option (\<lambda>(y, r). (g y, r)) p) = Some (v, r)"
    and "\<And>d s2 y r. skipWs s = d # s2 \<Longrightarrow> d \<noteq> e \<Longrightarrow> p = Some (y, r) \<Longrightarrow> length r < length s"
  shows "length r < length s"
  using assms by (auto split: list.splits if_splits dest!: skip_shorter)

text \<open>Every parser that succeeds leaves a shorter rest, so no comparison of lengths above ever fails.\<close>

lemma parse_shorter:
  "parseVal s = Some (v, r) \<Longrightarrow> length r < length s"
  "parseElems s = Some (es, r) \<Longrightarrow> length r < length s"
  "parseMembers s = Some (ms, r) \<Longrightarrow> length r < length s"
proof (induction s and s and s arbitrary: v r and es r and ms r rule: parseVal_parseElems_parseMembers.induct)
  case (1 s)
  show ?case
  proof (cases s)
    case (Cons c s1)
    note eq = parseVal.simps [of s, unfolded Cons list.case]
    note ih = 1(1) [OF Cons] 1(2,3) [OF Cons]
    have s: "parseVal (c # s1) = Some (v, r)" using 1(4) Cons by simp
    consider "isWs c" | "\<not> isWs c" "c = 34" | "\<not> isWs c" "c = 91" | "\<not> isWs c" "c = 123" | "\<not> isWs c" "c = 110"
      | "\<not> isWs c" "c = 116" | "\<not> isWs c" "c = 102" | "\<not> isWs c" "c \<notin> {34, 91, 123, 110, 116, 102}"
      by blast
    then show ?thesis
    proof cases
      case 1
      then show ?thesis using s ih(1) eq Cons by (auto intro: less_SucI)
    next
      case 3
      then show ?thesis using s ih(2) Cons unfolding eq
        by (auto intro!: less_SucI elim!: bracket_shorter)
    next
      case 4
      then show ?thesis using s ih(3) Cons unfolding eq
        by (auto intro!: less_SucI elim!: bracket_shorter)
    qed (use s [unfolded eq] Cons in \<open>auto simp: isWs_def dest!: parseStr_shorter parseNum_shorter keyword_shorter [rotated]\<close>)
  qed (use 1 in \<open>simp add: parseVal.simps\<close>)
next
  case (2 s)
  from 2(3) obtain v' r' d r1 where v: "parseVal s = Some (v', r')" "skipWs r' = d # r1"
    and c: "r = r1 \<or> d \<noteq> 93 \<and> d = 44 \<and> length r1 < length s \<and> (\<exists>es'. parseElems r1 = Some (es', r))"
    by (auto simp: parseElems.simps [of s] split: option.splits list.splits if_splits)
  have short: "length r1 < length s" using 2(1) [OF v(1)] skip_shorter [OF v(2)] by linarith
  from c show ?case
  proof (elim disjE conjE exE)
    fix es'
    assume "d \<noteq> 93" "d = 44" "length r1 < length s" "parseElems r1 = Some (es', r)"
    then have "length r < length r1" using 2(2) [OF v(1) refl v(2)] by simp
    with short show ?thesis by simp
  qed (use short in simp)
next
  case (3 s)
  from 3(3) obtain s1 k s2 s3 v' r' d r1 where v: "skipWs s = 34 # s1" "parseStr s1 = Some (k, s2)" "skipWs s2 = 58 # s3"
    "length s3 < length s" "parseVal s3 = Some (v', r')" "skipWs r' = d # r1"
    and c: "r = r1 \<or> d \<noteq> 125 \<and> d = 44 \<and> length r1 < length s \<and> (\<exists>ms'. parseMembers r1 = Some (ms', r))"
    by (auto simp: parseMembers.simps [of s] split: option.splits list.splits if_splits)
  have "length r' < length s3" using 3(1) [OF v(1) _ v(2) refl v(3) _ v(5)] v(4) by simp
  then have short: "length r1 < length s" using skip_shorter [OF v(6)] v(4) by linarith
  from c show ?case
  proof (elim disjE conjE exE)
    fix ms'
    assume "d \<noteq> 125" "d = 44" "length r1 < length s" "parseMembers r1 = Some (ms', r)"
    then have "length r < length r1" using 3(2) [OF v(1) _ v(2) refl v(3) _ v(5) refl v(6)] v(4) by simp
    with short show ?thesis by simp
  qed (use short in simp)
qed

end
