(* ===== verification/Custom_Webhook.thy ===== *)
theory Custom_Webhook
  imports Json_Text "HOL-Library.Word"
begin

unbundle bit_operations_syntax

text \<open>
  The custom webhook of alert settings (\<open>views/setting/alert/setting/drawer/custom-webhook.ts\<close>): a
  stored configuration becomes a draft to edit (\<open>hydrateCustomWebhookDraft\<close>), the draft is
  validated and becomes an update to send (\<open>serializeCustomWebhookDraft\<close>). Secrets (the URL and
  the secret headers) carry an action: kept, replaced or cleared. Parsing an URL is the browser's
  and a parameter; random ids are parameters; \<open>JSON.parse\<close> is \<open>JSON_parse\<close>.
\<close>

section \<open>Data\<close>

datatype CustomWebhookPreset = GenericJson | Slack | Discord | TeamsWorkflows | CustomPreset
datatype CustomWebhookBodyType = JsonBody | FormBody | TextBody
datatype CustomWebhookSecretAction = Keep | Replace | Clear
datatype ConfigState = Legacy | Invalid

record CustomWebhookSecretView =
  v_configured :: bool
  v_masked :: "string option"
  v_value :: "string option"

record CustomWebhookSecretDraft =
  configured :: bool
  masked :: string
  action :: CustomWebhookSecretAction
  sval :: string
  originalValue :: "string option"

record CustomWebhookFormField =
  f_uid :: string
  f_key :: string
  f_value :: string

record CustomWebhookFormFieldView =
  fv_uid :: "string option"
  fv_key :: string
  fv_value :: string

record CustomWebhookHeaderView =
  hv_uid :: string
  hv_key :: string
  hv_secret :: bool
  hv_value :: "string option"
  hv_configured :: "bool option"
  hv_masked :: "string option"

record CustomWebhookHeaderDraft =
  h_uid :: string
  h_key :: string
  h_secret :: bool
  h_configured :: bool
  h_masked :: string
  h_action :: CustomWebhookSecretAction
  h_value :: string
  h_originalValue :: "string option"

record CustomWebhookBody =
  b_type :: CustomWebhookBodyType
  b_template :: string
  b_fields :: "CustomWebhookFormField list"

record CustomWebhookBodyView =
  bv_type :: "string option"
  bv_template :: "string option"
  bv_fields :: "CustomWebhookFormFieldView list option"

datatype UrlView = UrlMissing | UrlText string | UrlSanitized CustomWebhookSecretView

record CustomWebhookConfigView =
  c_state :: "string option"
  c_displayName :: string
  c_preset :: "string option"
  c_url :: UrlView
  c_body :: "CustomWebhookBodyView option"
  c_headers :: "CustomWebhookHeaderView list option"

record CustomWebhookDraft =
  state :: "ConfigState option"
  displayName :: string
  preset :: CustomWebhookPreset
  url :: CustomWebhookSecretDraft
  body :: CustomWebhookBody
  headers :: "CustomWebhookHeaderDraft list"

record CustomWebhookSecretMutation =
  m_action :: CustomWebhookSecretAction
  m_value :: "string option"

record header_update =
  uh_uid :: string
  uh_key :: string
  uh_secret :: bool
  uh_action :: CustomWebhookSecretAction
  uh_value :: "string option"

record CustomWebhookConfigUpdate =
  u_displayName :: string
  u_preset :: CustomWebhookPreset
  u_url :: CustomWebhookSecretMutation
  u_bodyType :: CustomWebhookBodyType
  u_template :: string
  u_fields :: "(string \<times> string) list"
  u_headers :: "header_update list"


section \<open>Presets\<close>

definition lf :: "string list \<Rightarrow> string" where
  "lf ls = joinWith [CHR 0x0A] ls"

fun presetTemplate :: "CustomWebhookPreset \<Rightarrow> string" where
  \<open>presetTemplate GenericJson = lf
     [''{'',
      ''  "schema_version": "1",'',
      ''  "title": "{{title}}",'',
      ''  "message": "{{message}}",'',
      ''  "type": "{{type}}",'',
      ''  "node_name": "{{nodeName}}",'',
      ''  "timestamp": "{{timestamp}}"'',
      ''}'']\<close>
| \<open>presetTemplate Slack = lf
     [''{'',
      ''  "text": "*{{title}}*'' @ [CHR 0x5C] @ ''n{{message}}"'',
      ''}'']\<close>
| \<open>presetTemplate Discord = lf
     [''{'',
      ''  "content": "**{{title}}**'' @ [CHR 0x5C] @ ''n{{message}}",'',
      ''  "allowed_mentions": { "parse": [] }'',
      ''}'']\<close>
| \<open>presetTemplate TeamsWorkflows = lf
     [''{'',
      ''  "type": "message",'',
      ''  "attachments": ['',
      ''    {'',
      ''      "contentType": "application/vnd.microsoft.card.adaptive",'',
      ''      "contentUrl": null,'',
      ''      "content": {'',
      ''        "$schema": "http://adaptivecards.io/schemas/adaptive-card.json",'',
      ''        "type": "AdaptiveCard",'',
      ''        "version": "1.4",'',
      ''        "body": ['',
      ''          { "type": "TextBlock", "weight": "Bolder", "text": "{{title}}" },'',
      ''          { "type": "TextBlock", "wrap": true, "text": "{{message}}" }'',
      ''        ]'',
      ''      }'',
      ''    }'',
      ''  ]'',
      ''}'']\<close>
| "presetTemplate CustomPreset = []"

definition CUSTOM_WEBHOOK_VARIABLES :: "string list" where
  "CUSTOM_WEBHOOK_VARIABLES = [''{{title}}'', ''{{message}}'', ''{{type}}'', ''{{nodeName}}'', ''{{timestamp}}'']"

definition RESERVED_HEADERS :: "string list" where
  "RESERVED_HEADERS = [''connection'', ''content-length'', ''content-type'', ''host'', ''proxy-connection'',
     ''proxy-authorization'', ''te'', ''trailer'', ''transfer-encoding'', ''upgrade'']"

text \<open>\<open>HEADER_NAME_PATTERN\<close>: one or more token characters.\<close>

definition headerNameOk :: "string \<Rightarrow> bool" where
  "headerNameOk key \<longleftrightarrow> key \<noteq> [] \<and> list_all (\<lambda>c. let n = (of_char c :: nat) in
     c \<in> set ''!#$%&*+.^_`|~-'' \<or> n = 39 \<or> (48 \<le> n \<and> n \<le> 57) \<or> (65 \<le> n \<and> n \<le> 90) \<or> (97 \<le> n \<and> n \<le> 122)) key"

fun contentTypeForBodyType :: "CustomWebhookBodyType \<Rightarrow> string" where
  "contentTypeForBodyType FormBody = ''application/x-www-form-urlencoded''"
| "contentTypeForBodyType TextBody = ''text/plain''"
| "contentTypeForBodyType JsonBody = ''application/json''"

text \<open>The id made of sixteen random bytes where the browser has no \<open>randomUUID\<close>.\<close>

definition hexPair :: "8 word \<Rightarrow> string" where
  "hexPair b = (let h = toHex (unat b) in if length h = 1 then ''0'' @ h else h)"

definition createCustomWebhookUid :: "8 word list \<Rightarrow> string" where
  "createCustomWebhookUid bytes0 =
     (let bytes = bytes0[6 := ((bytes0 ! 6) AND 0x0f) OR 0x40, 8 := ((bytes0 ! 8) AND 0x3f) OR 0x80];
          hex = concat (map hexPair bytes)
      in take 8 hex @ ''-'' @ take 4 (drop 8 hex) @ ''-'' @ take 4 (drop 12 hex) @ ''-'' @
         take 4 (drop 16 hex) @ ''-'' @ drop 20 hex)"

definition isCustomWebhookSecretHeader :: "string \<Rightarrow> bool" where
  "isCustomWebhookSecretHeader key =
     (let normalized = toLowerCase (trim key);
          compact = filter (\<lambda>c. c \<noteq> CHR ''-'' \<and> c \<noteq> CHR ''_'') normalized
      in normalized = ''authorization'' \<or> normalized = ''cookie'' \<or> suffix ''-key'' normalized \<or>
         suffix ''_key'' normalized \<or> includesSub compact ''apikey'' \<or> includesSub compact ''token'' \<or>
         includesSub compact ''secret'' \<or> includesSub compact ''signature'')"

definition createCustomWebhookFormField :: "string \<Rightarrow> CustomWebhookFormField" where
  "createCustomWebhookFormField uid = \<lparr>f_uid = uid, f_key = [], f_value = []\<rparr>"

definition createCustomWebhookHeader :: "string \<Rightarrow> CustomWebhookHeaderDraft" where
  "createCustomWebhookHeader uid = \<lparr>h_uid = uid, h_key = [], h_secret = False, h_configured = False,
     h_masked = [], h_action = Replace, h_value = [], h_originalValue = None\<rparr>"

definition applyCustomWebhookPreset :: "CustomWebhookDraft \<Rightarrow> CustomWebhookPreset \<Rightarrow> CustomWebhookDraft" where
  "applyCustomWebhookPreset source p =
     (if p = CustomPreset then source\<lparr>preset := CustomPreset\<rparr>
      else source\<lparr>preset := p, body := \<lparr>b_type = JsonBody, b_template = presetTemplate p, b_fields = []\<rparr>\<rparr>)"

definition createDefaultCustomWebhookDraft :: CustomWebhookDraft where
  "createDefaultCustomWebhookDraft = applyCustomWebhookPreset
     \<lparr>state = None, displayName = [], preset = GenericJson,
      url = \<lparr>configured = False, masked = [], action = Replace, sval = [], originalValue = None\<rparr>,
      body = \<lparr>b_type = JsonBody, b_template = [], b_fields = []\<rparr>, headers = []\<rparr> GenericJson"

definition isCustomWebhookPresetPristine :: "CustomWebhookDraft \<Rightarrow> bool" where
  "isCustomWebhookPresetPristine draft =
     (if preset draft = CustomPreset then False
      else (let expected = applyCustomWebhookPreset draft (preset draft)
            in b_type (body draft) = b_type (body expected) \<and> b_template (body draft) = b_template (body expected) \<and>
               length (b_fields (body draft)) = length (b_fields (body expected))))"

definition updateCustomWebhookBodyTemplate :: "CustomWebhookDraft \<Rightarrow> string \<Rightarrow> CustomWebhookDraft" where
  "updateCustomWebhookBodyTemplate draft t = draft\<lparr>body := (body draft)\<lparr>b_template := t\<rparr>\<rparr>"


section \<open>From the configuration to the draft\<close>

definition normalizePreset :: "string option \<Rightarrow> CustomWebhookPreset" where
  "normalizePreset v =
     (if v = Some ''genericJson'' then GenericJson else if v = Some ''slack'' then Slack
      else if v = Some ''discord'' then Discord else if v = Some ''teamsWorkflows'' then TeamsWorkflows
      else CustomPreset)"

definition normalizeBodyType :: "string option \<Rightarrow> CustomWebhookBodyType" where
  "normalizeBodyType v = (if v = Some ''form'' then FormBody else if v = Some ''text'' then TextBody else JsonBody)"

definition maskCustomWebhookUrl :: "string \<Rightarrow> string" where
  "maskCustomWebhookUrl v = (if v \<noteq> [] then ''******'' else [])"

definition textOr :: "string \<Rightarrow> string option \<Rightarrow> string" where
  "textOr d v = (case v of Some t \<Rightarrow> if t \<noteq> [] then t else d | None \<Rightarrow> d)"

definition hydrateHeader :: "string \<Rightarrow> CustomWebhookHeaderView \<Rightarrow> CustomWebhookHeaderDraft" where
  "hydrateHeader fresh header =
     (let secret = (hv_secret header \<or> isCustomWebhookSecretHeader (hv_key header));
          secretValue = (if secret then textOr [] (hv_value header) else []);
          conf = (if secret then (case hv_configured header of Some b \<Rightarrow> b | None \<Rightarrow> secretValue \<noteq> []) else False)
      in \<lparr>h_uid = (if hv_uid header \<noteq> [] then hv_uid header else fresh), h_key = hv_key header, h_secret = secret,
          h_configured = conf,
          h_masked = (if secret then textOr (if textOr [] (hv_value header) \<noteq> [] then ''***'' else []) (hv_masked header) else []),
          h_action = (if secret then (if secretValue \<noteq> [] then Keep else if conf then Keep else Clear) else Replace),
          h_value = (if secret then secretValue else textOr [] (hv_value header)),
          h_originalValue = (if secretValue \<noteq> [] then Some secretValue else None)\<rparr>)"

definition hydrateUrl :: "UrlView \<Rightarrow> CustomWebhookSecretDraft" where
  "hydrateUrl rawUrl =
     (let urlConfigured = (case rawUrl of UrlText t \<Rightarrow> t \<noteq> [] | UrlSanitized v \<Rightarrow> v_configured v | UrlMissing \<Rightarrow> False);
          urlValue = (case rawUrl of UrlText t \<Rightarrow> t | _ \<Rightarrow> []);
          urlMasked = (case rawUrl of UrlSanitized v \<Rightarrow> textOr [] (v_masked v) | _ \<Rightarrow> []);
          sanitized = (case rawUrl of UrlSanitized v \<Rightarrow> True | _ \<Rightarrow> False)
      in \<lparr>configured = urlConfigured, masked = urlMasked,
          action = (if urlValue \<noteq> [] then Keep else if urlConfigured then Keep else if sanitized then Clear else Replace),
          sval = urlValue, originalValue = (if urlValue \<noteq> [] then Some urlValue else None)\<rparr>)"

text \<open>\<open>hydrateCustomWebhookDraft\<close>: the parameters give the random id drawn for the header or the form
  field at a position.\<close>

definition hydrateCustomWebhookDraft ::
  "(nat \<Rightarrow> string) \<Rightarrow> (nat \<Rightarrow> string) \<Rightarrow> CustomWebhookConfigView \<Rightarrow> CustomWebhookDraft"
where
  "hydrateCustomWebhookDraft headerUid fieldUid raw =
     (let bodyType = normalizeBodyType (case c_body raw of Some b \<Rightarrow> bv_type b | None \<Rightarrow> None);
          tmpl = (case c_body raw of Some b \<Rightarrow> bv_template b | None \<Rightarrow> None);
          flds = (case c_body raw of Some b \<Rightarrow> bv_fields b | None \<Rightarrow> None)
      in \<lparr>state = (if c_state raw = Some ''legacy'' then Some Legacy else if c_state raw = Some ''invalid'' then Some Invalid else None),
          displayName = c_displayName raw,
          preset = normalizePreset (c_preset raw),
          url = hydrateUrl (c_url raw),
          body = \<lparr>b_type = bodyType,
            b_template = (if bodyType = FormBody then []
              else case tmpl of None \<Rightarrow> if bodyType = TextBody then ''{{message}}''
                                      else b_template (body createDefaultCustomWebhookDraft)
                   | Some t \<Rightarrow> t),
            b_fields = (case flds of None \<Rightarrow> []
              | Some fs \<Rightarrow> map (\<lambda>(i, f). \<lparr>f_uid = textOr (fieldUid i) (fv_uid f), f_key = fv_key f, f_value = fv_value f\<rparr>)
                            (enumerate 0 fs))\<rparr>,
          headers = (case c_headers raw of None \<Rightarrow> []
            | Some hs \<Rightarrow> map (\<lambda>(i, h). hydrateHeader (headerUid i) h) (enumerate 0 hs))\<rparr>)"


section \<open>From the draft to the update\<close>

definition serializeSecret :: "CustomWebhookSecretDraft \<Rightarrow> CustomWebhookSecretMutation" where
  "serializeSecret s =
     (if action s = Replace then \<lparr>m_action = Replace, m_value = Some (trim (sval s))\<rparr>
      else \<lparr>m_action = action s, m_value = None\<rparr>)"

definition serializeHeader :: "CustomWebhookHeaderDraft \<Rightarrow> header_update" where
  "serializeHeader h = \<lparr>uh_uid = h_uid h, uh_key = trim (h_key h), uh_secret = h_secret h,
     uh_action = (if h_secret h then h_action h else Replace),
     uh_value = (if h_secret h \<and> h_action h \<noteq> Replace then None else Some (h_value h))\<rparr>"

definition serializeCustomWebhookDraft :: "CustomWebhookDraft \<Rightarrow> CustomWebhookConfigUpdate" where
  "serializeCustomWebhookDraft draft =
     \<lparr>u_displayName = trim (displayName draft), u_preset = preset draft, u_url = serializeSecret (url draft),
      u_bodyType = b_type (body draft),
      u_template = (if b_type (body draft) = FormBody then [] else b_template (body draft)),
      u_fields = (if b_type (body draft) = FormBody
                  then map (\<lambda>f. (trim (f_key f), f_value f)) (b_fields (body draft)) else []),
      u_headers = map serializeHeader (headers draft)\<rparr>"


section \<open>Templates\<close>

record parsed_url =
  pu_protocol :: string
  pu_username :: string
  pu_password :: string
  pu_hash :: string

definition isValidHttpUrl :: "(string \<Rightarrow> parsed_url option) \<Rightarrow> string \<Rightarrow> bool" where
  "isValidHttpUrl parseURL v =
     (case parseURL v of None \<Rightarrow> False
      | Some p \<Rightarrow> (pu_protocol p = ''http:'' \<or> pu_protocol p = ''https:'') \<and> pu_username p = [] \<and>
          pu_password p = [] \<and> pu_hash p = [])"

definition isJsonTemplateValid :: "string \<Rightarrow> bool" where
  "isJsonTemplateValid v = (JSON_parse (units v) \<noteq> None)"

text \<open>\<open>hasTemplateJsonKey\<close>: a key of the object holds \<open>{{\<close> or \<open>}}\<close>, at any depth. Of members with the
  same key only the last has its value visited.\<close>

definition bracesIn :: "jstr \<Rightarrow> bool" where
  "bracesIn k \<longleftrightarrow> includesSub k (units ''{{'') \<or> includesSub k (units ''}}'')"

fun templateKeyIn :: "json \<Rightarrow> bool" and templateKeyMembers :: "(jstr \<times> json) list \<Rightarrow> bool" where
  "templateKeyIn (JArr es) = list_ex templateKeyIn es"
| "templateKeyIn (JObj ms) = templateKeyMembers ms"
| "templateKeyIn JNull = False"
| "templateKeyIn (JBool b) = False"
| "templateKeyIn JNum = False"
| "templateKeyIn (JStr s) = False"
| "templateKeyMembers [] = False"
| "templateKeyMembers ((k, v) # ms) =
     (bracesIn k \<or> (k \<notin> fst ` set ms \<and> templateKeyIn v) \<or> templateKeyMembers ms)"

definition hasTemplateJsonKey :: "string \<Rightarrow> bool" where
  "hasTemplateJsonKey v = (case JSON_parse (units v) of None \<Rightarrow> False | Some j \<Rightarrow> templateKeyIn j)"

function hasInvalidTemplateVariable :: "string \<Rightarrow> bool" where
  "hasInvalidTemplateVariable remainder =
     (if remainder = [] then False
      else
        (let start = indexSub remainder ''{{''
         in if start < 0 then includesSub remainder ''}}''
            else if includesSub (take (nat start) remainder) ''}}'' then True
            else
              (let endOffset = indexSub (drop (nat start + 2) remainder) ''}}''
               in if endOffset < 0 then True
                  else
                    (let e = nat start + 2 + nat endOffset + 2
                     in if take (e - nat start) (drop (nat start) remainder) \<notin> set CUSTOM_WEBHOOK_VARIABLES then True
                        else hasInvalidTemplateVariable (drop e remainder)))))"
  by pat_completeness auto
termination by (relation "measure length") (auto simp: Let_def)

declare hasInvalidTemplateVariable.simps [simp del]

record insertion =
  ins_template :: string
  ins_cursor :: nat

text \<open>The two patterns of \<open>insertCustomWebhookVariable\<close>: the rest of the text after a string literal's
  body and closing quote; then the colon, white space and the literal; the first also has the key.\<close>

fun afterString :: "string \<Rightarrow> string option" where
  "afterString [] = None"
| "afterString (c # s) =
     (if c = CHR 0x22 then Some s
      else if c = CHR 0x5C then
        (case s of [] \<Rightarrow> None | d # s1 \<Rightarrow> if d = CHR 0x0A \<or> d = CHR 0x0D then None else afterString s1)
      else afterString s)"

definition afterValue :: "string \<Rightarrow> string option" where
  "afterValue s = (case s of [] \<Rightarrow> None
     | c # s1 \<Rightarrow> if c \<noteq> CHR '':'' then None
         else (case dropWhile isSpace s1 of [] \<Rightarrow> None | q # s2 \<Rightarrow> if q = CHR 0x22 then afterString s2 else None))"

definition afterKeyValue :: "string \<Rightarrow> string option" where
  "afterKeyValue s =
     (case find (\<lambda>k. prefix ([CHR 0x22] @ k @ [CHR 0x22]) s) [''message'', ''text'', ''content''] of
        None \<Rightarrow> None
      | Some k \<Rightarrow> afterValue (dropWhile isSpace (drop (length k + 2) s)))"

text \<open>The leftmost match of a pattern: the position behind it.\<close>

fun firstMatchEnd :: "(string \<Rightarrow> string option) \<Rightarrow> string \<Rightarrow> nat option" where
  "firstMatchEnd pat [] = (case pat [] of Some r \<Rightarrow> Some 0 | None \<Rightarrow> None)"
| "firstMatchEnd pat (c # s) =
     (case pat (c # s) of Some r \<Rightarrow> Some (Suc (length s) - length r) | None \<Rightarrow> map_option Suc (firstMatchEnd pat s))"

definition insertUnselected :: "string \<Rightarrow> string \<Rightarrow> CustomWebhookBodyType \<Rightarrow> insertion" where
  "insertUnselected template variable bodyType =
     (if bodyType = TextBody
      then \<lparr>ins_template = template @ variable, ins_cursor = length template + length variable\<rparr>
      else
        (let m = (case firstMatchEnd afterKeyValue template of
                    Some e \<Rightarrow> Some e | None \<Rightarrow> firstMatchEnd afterValue template)
         in case m of
              Some e \<Rightarrow>
                (let insertAt = e - 1
                 in \<lparr>ins_template = take insertAt template @ variable @ drop insertAt template,
                     ins_cursor = insertAt + length variable\<rparr>)
            | None \<Rightarrow>
                (let trimmed = trim template;
                     withNext = (\<lambda>next. \<lparr>ins_template = next,
                       ins_cursor = nat (indexSub next variable + int (length variable))\<rparr>)
                 in if trimmed = ''{}'' then
                      withNext (lf [''{'', ''  '' @ [CHR 0x22] @ ''message'' @ [CHR 0x22] @ '': '' @ [CHR 0x22] @ variable @ [CHR 0x22], ''}''])
                    else if trimmed = ''[]'' then
                      withNext (lf [''['', ''  '' @ [CHR 0x22] @ variable @ [CHR 0x22], '']''])
                    else \<lparr>ins_template = template, ins_cursor = length template\<rparr>)))"

definition insertCustomWebhookVariable ::
  "string \<Rightarrow> string \<Rightarrow> CustomWebhookBodyType \<Rightarrow> (int \<times> int) option \<Rightarrow> insertion"
where
  "insertCustomWebhookVariable template variable bodyType selection =
     (case selection of
        Some (st, en) \<Rightarrow>
          if st \<ge> 0 \<and> en \<ge> st \<and> en \<le> int (length template)
          then \<lparr>ins_template = take (nat st) template @ variable @ drop (nat en) template,
                ins_cursor = nat st + length variable\<rparr>
          else insertUnselected template variable bodyType
      | None \<Rightarrow> insertUnselected template variable bodyType)"


section \<open>Validation\<close>

datatype issue_code =
    DisplayNameRequired | UrlRequired | UrlInvalid | BodyRequired | JsonInvalid | FormFieldRequired
  | FormFieldDuplicate | HeaderRequired | HeaderInvalid | HeaderDuplicate | HeaderReserved
  | HeaderMustBeSecret | TemplateVariableInvalid | SecretRequired

type_synonym issue = "string \<times> issue_code"

definition urlIssues :: "(string \<Rightarrow> parsed_url option) \<Rightarrow> bool \<Rightarrow> CustomWebhookSecretDraft \<Rightarrow> issue list" where
  "urlIssues parseURL allowClearedUrl u =
     (if action u = Keep then (if \<not> configured u then [(''url'', UrlRequired)] else [])
      else if action u = Replace then
        (if trim (sval u) = [] then [(''url'', UrlRequired)]
         else if \<not> isValidHttpUrl parseURL (trim (sval u)) then [(''url'', UrlInvalid)] else [])
      else if \<not> allowClearedUrl then [(''url'', UrlRequired)] else [])"

fun fieldIssues :: "nat \<Rightarrow> string set \<Rightarrow> CustomWebhookFormField list \<Rightarrow> issue list" where
  "fieldIssues i keys [] = []"
| "fieldIssues i keys (f # fs) =
     (let key = trim (f_key f); at = ''body.fields.'' @ decimal i; normalized = toLowerCase key
      in if key = [] then (at, FormFieldRequired) # fieldIssues (Suc i) keys fs
         else
           (if includesSub key ''{{'' \<or> includesSub key ''}}'' then [(at, TemplateVariableInvalid)] else []) @
           (if normalized \<in> keys then [(at, FormFieldDuplicate)] else []) @
           (if hasInvalidTemplateVariable (f_value f) then [(at, TemplateVariableInvalid)] else []) @
           fieldIssues (Suc i) (insert normalized keys) fs)"

definition bodyIssues :: "CustomWebhookBody \<Rightarrow> issue list" where
  "bodyIssues b =
     (if b_type b = FormBody then
        (if length (b_fields b) = 0 then [(''body'', BodyRequired)] else []) @ fieldIssues 0 {} (b_fields b)
      else if trim (b_template b) = [] then [(''body'', BodyRequired)]
      else if b_type b = JsonBody \<and> \<not> isJsonTemplateValid (b_template b) then [(''body'', JsonInvalid)]
      else if b_type b = JsonBody \<and> hasTemplateJsonKey (b_template b) then [(''body'', TemplateVariableInvalid)]
      else []) @
     (if b_type b \<noteq> FormBody \<and> hasInvalidTemplateVariable (b_template b) then [(''body'', TemplateVariableInvalid)] else [])"

fun headerIssues :: "nat \<Rightarrow> string set \<Rightarrow> CustomWebhookHeaderDraft list \<Rightarrow> issue list" where
  "headerIssues i headerKeys [] = []"
| "headerIssues i headerKeys (h # hs) =
     (let key = trim (h_key h); normalized = toLowerCase key; at = ''headers.'' @ decimal i
      in (if key = [] then [(at, HeaderRequired)]
          else if \<not> headerNameOk key then [(at, HeaderInvalid)]
          else if normalized \<in> set RESERVED_HEADERS then [(at, HeaderReserved)]
          else if normalized \<in> headerKeys then [(at, HeaderDuplicate)] else []) @
         (if isCustomWebhookSecretHeader key \<and> \<not> h_secret h then [(at, HeaderMustBeSecret)] else []) @
         (if h_secret h then
            (if h_action h = Keep \<and> \<not> h_configured h then [(at, SecretRequired)] else []) @
            (if h_action h = Replace \<and> h_value h = [] then [(at, SecretRequired)] else [])
          else []) @
         headerIssues (Suc i) (insert normalized headerKeys) hs)"

definition validateCustomWebhookDraft ::
  "(string \<Rightarrow> parsed_url option) \<Rightarrow> bool \<Rightarrow> CustomWebhookDraft \<Rightarrow> issue list"
where
  "validateCustomWebhookDraft parseURL allowClearedUrl draft =
     (if trim (displayName draft) = [] then [(''displayName'', DisplayNameRequired)] else []) @
     urlIssues parseURL allowClearedUrl (url draft) @ bodyIssues (body draft) @ headerIssues 0 {} (headers draft)"


section \<open>Summaries\<close>

fun bodyTypeUpper :: "CustomWebhookBodyType \<Rightarrow> string" where
  "bodyTypeUpper JsonBody = ''JSON''"
| "bodyTypeUpper FormBody = ''FORM''"
| "bodyTypeUpper TextBody = ''TEXT''"

definition dotSep :: string where "dotSep = '' '' @ [CHR 0xB7] @ '' ''"

definition formatCustomWebhookSafeSummary :: "CustomWebhookConfigView \<Rightarrow> bool \<Rightarrow> string" where
  "formatCustomWebhookSafeSummary config includeUrl =
     (let bodyType = bodyTypeUpper (normalizeBodyType (case c_body config of Some b \<Rightarrow> bv_type b | None \<Rightarrow> None));
          headerCount = (case c_headers config of Some hs \<Rightarrow> length hs | None \<Rightarrow> 0);
          summary = ''POST'' @ dotSep @ bodyType @ dotSep @ decimal headerCount @ '' Headers'';
          u = (case c_url config of UrlText t \<Rightarrow> maskCustomWebhookUrl t
               | UrlSanitized v \<Rightarrow> textOr ''***'' (v_masked v) | UrlMissing \<Rightarrow> ''***'')
      in if \<not> includeUrl then summary else summary @ dotSep @ u)"

definition formatCustomWebhookDetails :: "CustomWebhookConfigView \<Rightarrow> string \<Rightarrow> string" where
  "formatCustomWebhookDetails config missingUrl =
     (let summary = formatCustomWebhookSafeSummary config False;
          u = (case c_url config of UrlText t \<Rightarrow> t | UrlSanitized v \<Rightarrow> textOr [] (v_value v) | UrlMissing \<Rightarrow> [])
      in summary @ dotSep @ (if u \<noteq> [] then u else missingUrl))"

end
