(* ===== verification/Custom_Webhook_Correct.thy ===== *)
theory Custom_Webhook_Correct
  imports Custom_Webhook
begin

text \<open>
  What the custom webhook code guarantees: an unedited configuration is saved without sending any
  secret, the template scanner accepts exactly the well-formed templates (an inductive
  definition), the presets validate, and an accepted draft has sound headers.
\<close>

section \<open>Secrets\<close>

text \<open>What a stored header has to be sent back as when nothing was edited.\<close>

definition sentBack :: "CustomWebhookHeaderView \<Rightarrow> header_update \<Rightarrow> bool" where
  "sentBack h u \<longleftrightarrow> uh_key u = trim (hv_key h) \<and>
     (if hv_secret h \<or> isCustomWebhookSecretHeader (hv_key h)
      then uh_secret u \<and> uh_value u = None \<and>
        uh_action u = (if textOr [] (hv_value h) \<noteq> [] \<or> hv_configured h = Some True then Keep else Clear)
      else \<not> uh_secret u \<and> uh_action u = Replace \<and> uh_value u = Some (textOr [] (hv_value h)))"

lemma hydrateHeader_sent: "sentBack h (serializeHeader (hydrateHeader uid h))"
  by (auto simp: sentBack_def serializeHeader_def hydrateHeader_def Let_def split: option.split)

lemma hydrateUrl_sent:
  "m_value (serializeSecret (hydrateUrl u)) \<in> {None, Some []}"
  "(case u of UrlMissing \<Rightarrow> False | UrlText t \<Rightarrow> t \<noteq> [] | UrlSanitized v \<Rightarrow> v_configured v) \<Longrightarrow>
     m_action (serializeSecret (hydrateUrl u)) = Keep"
  by (cases u; auto simp: serializeSecret_def hydrateUrl_def Let_def split: if_splits)+

lemma hydrated_headers:
  "u_headers (serializeCustomWebhookDraft (hydrateCustomWebhookDraft hu fu raw)) =
     map (\<lambda>(i, h). serializeHeader (hydrateHeader (hu i) h)) (enumerate 0 (case c_headers raw of None \<Rightarrow> [] | Some hs \<Rightarrow> hs))"
  by (simp add: serializeCustomWebhookDraft_def hydrateCustomWebhookDraft_def split_def Let_def comp_def split: option.splits)

lemma secret_trim: "isCustomWebhookSecretHeader (trim k) = isCustomWebhookSecretHeader k"
  by (simp add: isCustomWebhookSecretHeader_def)

text \<open>C12. Saving a configuration that was loaded and not edited sends no secret: no URL (at most an
  empty text where none was stored; a stored URL is kept), and the headers go out one for one, where
  every header that is stored as secret, or whose name looks like a credential, goes out marked
  secret, without its value and with the action that keeps a stored value, and every other header
  with its stored value.\<close>

theorem unedited_sends_no_secret:
  "m_value (u_url (serializeCustomWebhookDraft (hydrateCustomWebhookDraft hu fu raw))) \<in> {None, Some []} \<and>
   ((case c_url raw of UrlMissing \<Rightarrow> False | UrlText t \<Rightarrow> t \<noteq> [] | UrlSanitized v \<Rightarrow> v_configured v) \<longrightarrow>
     m_action (u_url (serializeCustomWebhookDraft (hydrateCustomWebhookDraft hu fu raw))) = Keep) \<and>
   list_all2
     (\<lambda>h u. uh_key u = trim (hv_key h) \<and>
        (if hv_secret h \<or> isCustomWebhookSecretHeader (hv_key h)
         then uh_secret u \<and> uh_value u = None \<and>
           uh_action u = (if textOr [] (hv_value h) \<noteq> [] \<or> hv_configured h = Some True then Keep else Clear)
         else \<not> uh_secret u \<and> uh_action u = Replace \<and> uh_value u = Some (textOr [] (hv_value h))))
     (case c_headers raw of None \<Rightarrow> [] | Some hs \<Rightarrow> hs)
     (u_headers (serializeCustomWebhookDraft (hydrateCustomWebhookDraft hu fu raw)))"
proof (intro conjI impI)
  have u: "u_url (serializeCustomWebhookDraft (hydrateCustomWebhookDraft hu fu raw)) = serializeSecret (hydrateUrl (c_url raw))"
    by (simp add: serializeCustomWebhookDraft_def hydrateCustomWebhookDraft_def Let_def)
  show "m_value (u_url (serializeCustomWebhookDraft (hydrateCustomWebhookDraft hu fu raw))) \<in> {None, Some []}"
    unfolding u by (rule hydrateUrl_sent(1))
  show "m_action (u_url (serializeCustomWebhookDraft (hydrateCustomWebhookDraft hu fu raw))) = Keep"
    if "case c_url raw of UrlMissing \<Rightarrow> False | UrlText t \<Rightarrow> t \<noteq> [] | UrlSanitized v \<Rightarrow> v_configured v"
    unfolding u by (rule hydrateUrl_sent(2) [OF that])
qed (unfold hydrated_headers sentBack_def [symmetric],
    simp add: list_all2_conv_all_nth nth_enumerate_eq hydrateHeader_sent)

definition storedConfig :: CustomWebhookConfigView where
  "storedConfig = \<lparr>c_state = None, c_displayName = ''ops'', c_preset = Some ''slack'',
     c_url = UrlText ''https://h.example/x'', c_body = None,
     c_headers = Some [\<lparr>hv_uid = ''a'', hv_key = ''X-Api-Key'', hv_secret = False, hv_value = Some ''s3cr3t'',
       hv_configured = None, hv_masked = None\<rparr>, \<lparr>hv_uid = ''b'', hv_key = ''X-Foo'', hv_secret = True,
       hv_value = Some ''hush'', hv_configured = None, hv_masked = None\<rparr>]\<rparr>"

theorem unedited_sends_no_secret_witness:
  "map uh_value (u_headers (serializeCustomWebhookDraft (hydrateCustomWebhookDraft (\<lambda>_. ''u'') (\<lambda>_. ''u'') storedConfig))) =
     [None, None]"
proof -
  have "isCustomWebhookSecretHeader ''X-Api-Key''" by code_simp
  with unedited_sends_no_secret [of "\<lambda>_. ''u''" "\<lambda>_. ''u''" storedConfig]
  show ?thesis by (auto simp: storedConfig_def list_all2_Cons1)
qed


section \<open>Templates\<close>

lemma prefix_take: "length p \<le> length w \<Longrightarrow> prefix p (w @ z) = prefix p w"
  by (auto simp: prefix_def append_eq_append_conv2)

text \<open>The first occurrence of \<open>p\<close> in \<open>a @ p @ b\<close> is the one behind \<open>a\<close> exactly when none starts before.\<close>

lemma indexSub_first:
  assumes "p \<noteq> []"
  shows "indexSub (a @ p @ b) p = int (length a) \<longleftrightarrow> \<not> includesSub (a @ butlast p) p"
proof (induction a)
  case Nil
  have "length (butlast p) < length p" using assms by simp
  then have "\<not> includesSub (butlast p) p" by (auto simp: includesSub_iff dest!: arg_cong [of _ _ length])
  moreover have "indexSub (p @ b) p = 0" using assms by (cases p) auto
  ultimately show ?case by simp
next
  case (Cons x a)
  have "(x # a) @ p @ b = (x # a @ butlast p) @ last p # b"
    using assms by (metis append.assoc append_Cons append_Nil append_butlast_last_id)
  then have "prefix p ((x # a) @ p @ b) = prefix p (x # a @ butlast p)"
    by (simp only:) (rule prefix_take, simp)
  then show ?case
    using Cons indexSub_ge [of "a @ p @ b" p] by (auto simp: Let_def)
qed

text \<open>A well-formed template: text without braces pairs, with the variables in between; text before
  a variable does not end in an opening brace that would shift the pair.\<close>

inductive wellTemplated :: "string \<Rightarrow> bool" where
  text_only: "\<not> includesSub t ''{{'' \<Longrightarrow> \<not> includesSub t ''}}'' \<Longrightarrow> wellTemplated t"
| variable: "\<not> includesSub (t @ ''{'') ''{{'' \<Longrightarrow> \<not> includesSub t ''}}'' \<Longrightarrow> v \<in> set CUSTOM_WEBHOOK_VARIABLES \<Longrightarrow>
    wellTemplated r \<Longrightarrow> wellTemplated (t @ v @ r)"

lemma variable_shape:
  assumes "v \<in> set CUSTOM_WEBHOOK_VARIABLES"
  obtains n where "v = ''{{'' @ n @ ''}}''" "\<not> includesSub (n @ ''}'') ''}}''"
proof -
  have "v = ''{{'' @ take (length v - 4) (drop 2 v) @ ''}}'' \<and> \<not> includesSub (take (length v - 4) (drop 2 v) @ ''}'') ''}}''"
    using assms unfolding CUSTOM_WEBHOOK_VARIABLES_def by (auto simp: prefix_def)
  then show thesis using that by blast
qed

text \<open>One round of the loop, where the first opening pair stands between \<open>a\<close> and \<open>b\<close>.\<close>

lemma scan_round:
  assumes "indexSub (a @ ''{{'' @ b) ''{{'' = int (length a)"
  shows "hasInvalidTemplateVariable (a @ ''{{'' @ b) \<longleftrightarrow>
    includesSub a ''}}'' \<or> indexSub b ''}}'' < 0 \<or>
    ''{{'' @ take (nat (indexSub b ''}}'') + 2) b \<notin> set CUSTOM_WEBHOOK_VARIABLES \<or>
    hasInvalidTemplateVariable (drop (nat (indexSub b ''}}'') + 2) b)"
proof -
  have n: "nat (int (length a)) = length a" "\<not> int (length a) < 0" by simp_all
  have d: "drop (length a + 2) (a @ ''{{'' @ b) = b" "take (length a) (a @ ''{{'' @ b) = a" by simp_all
  have e: "take (length a + 2 + k + 2 - length a) (drop (length a) (a @ ''{{'' @ b)) = ''{{'' @ take (k + 2) b"
    "drop (length a + 2 + k + 2) (a @ ''{{'' @ b) = drop (k + 2) b" for k
    by (simp_all add: eval_nat_numeral)
  show ?thesis
    by (subst hasInvalidTemplateVariable.simps, simp only: assms Let_def n d e append_is_Nil_conv list.distinct
        if_True if_False simp_thms, argo)
qed

lemma scan_sound: "\<not> hasInvalidTemplateVariable s \<Longrightarrow> wellTemplated s"
proof (induction "length s" arbitrary: s rule: less_induct)
  case less
  show ?case
  proof (cases "indexSub s ''{{'' < 0")
    case True
    with less.prems show ?thesis
      by (auto simp: hasInvalidTemplateVariable.simps [of s] Let_def indexSub_none split: if_splits intro!: text_only)
  next
    case False
    then have "0 \<le> indexSub s ''{{''" by simp
    then obtain a b where ab: "s = a @ ''{{'' @ b" "indexSub s ''{{'' = int (length a)" by (rule indexSub_split)
    then have first: "indexSub (a @ ''{{'' @ b) ''{{'' = int (length a)" by simp
    have no: "\<not> includesSub a ''}}''" "0 \<le> indexSub b ''}}''"
      using less.prems scan_round [OF first] by (auto simp: ab(1) not_less)
    from no(2) obtain c d where cd: "b = c @ ''}}'' @ d" "indexSub b ''}}'' = int (length c)" by (rule indexSub_split)
    have tok: "''{{'' @ c @ ''}}'' \<in> set CUSTOM_WEBHOOK_VARIABLES" "\<not> hasInvalidTemplateVariable d"
      using less.prems scan_round [OF first] cd by (simp_all add: ab(1))
    have "wellTemplated d" using less.hyps [of d] tok(2) by (simp add: ab(1) cd(1))
    moreover have "\<not> includesSub (a @ ''{'') ''{{''" using indexSub_first [of "''{{''" a b] first by simp
    ultimately have "wellTemplated (a @ (''{{'' @ c @ ''}}'') @ d)" using no(1) tok(1) by (intro variable)
    then show ?thesis by (simp add: ab cd)
  qed
qed

lemma scan_complete: "wellTemplated s \<Longrightarrow> \<not> hasInvalidTemplateVariable s"
proof (induction rule: wellTemplated.induct)
  case (text_only t)
  then show ?case by (simp add: hasInvalidTemplateVariable.simps [of t] Let_def indexSub_none)
next
  case (variable t v r)
  obtain n where n: "v = ''{{'' @ n @ ''}}''" "\<not> includesSub (n @ ''}'') ''}}''"
    using variable_shape [OF variable(3)] by blast
  have i: "indexSub (t @ ''{{'' @ n @ ''}}'' @ r) ''{{'' = int (length t)"
    using indexSub_first [of "''{{''" t "n @ ''}}'' @ r"] variable(1) by simp
  have j: "indexSub (n @ ''}}'' @ r) ''}}'' = int (length n)"
    using indexSub_first [of "''}}''" n r] n(2) by simp
  have "take (nat (int (length n)) + 2) (n @ ''}}'' @ r) = n @ ''}}''" "drop (nat (int (length n)) + 2) (n @ ''}}'' @ r) = r"
    by simp_all
  then show ?case
    using scan_round [OF i] j variable n(1) by simp
qed

text \<open>C33. The scanner finds no invalid variable exactly in the well-formed templates: text free of
  double braces, interspersed with the five variables.\<close>

theorem template_scan_iff: "hasInvalidTemplateVariable s \<longleftrightarrow> \<not> wellTemplated s"
  using scan_sound scan_complete by blast


section \<open>Presets\<close>

lemmas json_eval = JSON_parse_def parseVal.simps parseElems.simps parseMembers.simps units_def lf_def isWs_def
  keyword_def parseNum_def bracesIn_def

lemma preset_json: "p \<noteq> CustomPreset \<Longrightarrow> \<exists>j. JSON_parse (units (presetTemplate p)) = Some j \<and> \<not> templateKeyIn j"
  by (cases p) (simp_all add: json_eval)

lemma preset_scans: "list_all (\<lambda>p. \<not> hasInvalidTemplateVariable (presetTemplate p) \<and> trim (presetTemplate p) \<noteq> [])
    [GenericJson, Slack, Discord, TeamsWorkflows]"
  by code_simp

lemma preset_bodies:
  assumes "p \<noteq> CustomPreset"
  shows "bodyIssues \<lparr>b_type = JsonBody, b_template = presetTemplate p, b_fields = []\<rparr> = []"
proof -
  have "\<not> hasInvalidTemplateVariable (presetTemplate p)" "trim (presetTemplate p) \<noteq> []"
    using preset_scans assms by (cases p; simp)+
  with preset_json [OF assms] show ?thesis
    by (auto simp: bodyIssues_def isJsonTemplateValid_def hasTemplateJsonKey_def)
qed

text \<open>Choosing a preset makes the body valid and pristine: a draft with a name, an acceptable
  URL and no headers has no issues after any preset is applied.\<close>

theorem presets_validate:
  assumes "p \<noteq> CustomPreset" "trim (displayName d) \<noteq> []" "urlIssues parseURL allow (url d) = []" "headers d = []"
  shows "validateCustomWebhookDraft parseURL allow (applyCustomWebhookPreset d p) = [] \<and>
    isCustomWebhookPresetPristine (applyCustomWebhookPreset d p)"
  using assms preset_bodies [OF assms(1)]
  by (simp add: validateCustomWebhookDraft_def applyCustomWebhookPreset_def isCustomWebhookPresetPristine_def)

theorem presets_validate_witness:
  "validateCustomWebhookDraft (\<lambda>_. None) False
     (applyCustomWebhookPreset (createDefaultCustomWebhookDraft\<lparr>displayName := ''ops'',
        url := \<lparr>configured = True, masked = ''***'', action = Keep, sval = [], originalValue = None\<rparr>\<rparr>) TeamsWorkflows) = []"
proof -
  have "trim ''ops'' \<noteq> []" by code_simp
  then show ?thesis
    by (intro presets_validate [THEN conjunct1])
      (simp_all add: urlIssues_def createDefaultCustomWebhookDraft_def applyCustomWebhookPreset_def)
qed


section \<open>Headers\<close>

definition normalKey :: "CustomWebhookHeaderDraft \<Rightarrow> string" where
  "normalKey h = toLowerCase (trim (h_key h))"

definition soundHeader :: "CustomWebhookHeaderDraft \<Rightarrow> bool" where
  "soundHeader h \<longleftrightarrow> headerNameOk (trim (h_key h)) \<and> normalKey h \<notin> set RESERVED_HEADERS \<and>
     (isCustomWebhookSecretHeader (h_key h) \<longrightarrow> h_secret h) \<and>
     (h_secret h \<longrightarrow> (h_action h = Keep \<longrightarrow> h_configured h) \<and> (h_action h = Replace \<longrightarrow> h_value h \<noteq> []))"

lemma headerIssues_none:
  "headerIssues i keys hs = [] \<longleftrightarrow>
     list_all soundHeader hs \<and> distinct (map normalKey hs) \<and> set (map normalKey hs) \<inter> keys = {}"
proof (induction hs arbitrary: i keys)
  case (Cons h hs)
  have "headerNameOk [] = False" by (simp add: headerNameOk_def)
  then show ?case
    using Cons.IH [of "Suc i" "insert (normalKey h) keys"]
    by (auto simp: soundHeader_def normalKey_def secret_trim Let_def)
qed simp

definition headerCodes :: "issue_code list" where
  "headerCodes = [HeaderRequired, HeaderInvalid, HeaderReserved, HeaderDuplicate, HeaderMustBeSecret, SecretRequired]"

lemma headerCodes_simps [simp]:
  "UrlRequired \<notin> set headerCodes" "UrlInvalid \<notin> set headerCodes" "BodyRequired \<notin> set headerCodes"
  "JsonInvalid \<notin> set headerCodes" "TemplateVariableInvalid \<notin> set headerCodes" "DisplayNameRequired \<notin> set headerCodes"
  "FormFieldRequired \<notin> set headerCodes" "FormFieldDuplicate \<notin> set headerCodes"
  by (simp_all add: headerCodes_def)

lemma issue_origins:
  "x \<in> set (fieldIssues i keys fs) \<Longrightarrow> snd x \<notin> set headerCodes"
  "x \<in> set (bodyIssues b) \<Longrightarrow> snd x \<notin> set headerCodes"
  "x \<in> set (urlIssues parseURL allow u) \<Longrightarrow> snd x \<notin> set headerCodes"
  "x \<in> set (headerIssues i keys hs) \<Longrightarrow> snd x \<in> set headerCodes"
proof -
  show f: "x \<in> set (fieldIssues i keys fs) \<Longrightarrow> snd x \<notin> set headerCodes" for x i keys fs
    by (induction fs arbitrary: i keys) (auto simp: Let_def split: if_splits)
  show "x \<in> set (bodyIssues b) \<Longrightarrow> snd x \<notin> set headerCodes"
    using f [of x 0 "{}" "b_fields b"] by (auto simp: bodyIssues_def split: if_splits)
  show "x \<in> set (urlIssues parseURL allow u) \<Longrightarrow> snd x \<notin> set headerCodes"
    by (auto simp: urlIssues_def split: if_splits)
  show "x \<in> set (headerIssues i keys hs) \<Longrightarrow> snd x \<in> set headerCodes"
    by (induction hs arbitrary: i keys) (auto simp: Let_def headerCodes_def split: if_splits)
qed

text \<open>The headers of a draft are accepted exactly when every name is a token that is not
  reserved, credentials are marked secret, secrets to keep exist and secrets to set are not
  empty, and no two names are equal but for case.\<close>

theorem accepted_headers:
  "filter (\<lambda>issue. snd issue \<in> set headerCodes) (validateCustomWebhookDraft parseURL allow d) = [] \<longleftrightarrow>
   list_all soundHeader (headers d) \<and> distinct (map normalKey (headers d))"
proof -
  have "filter (\<lambda>issue. snd issue \<in> set headerCodes) (validateCustomWebhookDraft parseURL allow d) =
      headerIssues 0 {} (headers d)"
    using issue_origins(2,3) issue_origins(4) [THEN filter_True [OF ballI]]
    by (auto simp: validateCustomWebhookDraft_def filter_empty_conv intro: filter_True issue_origins(4))
  then show ?thesis by (simp add: headerIssues_none)
qed

end
