(* ===== verification/Secret_Field.thy ===== *)
theory Secret_Field
  imports Custom_Webhook
begin

text \<open>
  The secret fields of alert settings (\<open>views/setting/alert/setting/drawer/secret-field.ts\<close>): how a
  secret's draft is shown and edited, and the name a stored alert configuration is listed under.
  A configuration is an object of unknown values; of a value the code asks whether it is text, an
  array or an object, so everything else is one constructor. An absent member reads as that.
\<close>

section \<open>Editing a secret\<close>

definition secretEditorValue :: "CustomWebhookSecretDraft \<Rightarrow> string" where
  "secretEditorValue d = (if action d = Keep \<or> action d = Replace then sval d else [])"

definition secretEditorPlaceholder :: "CustomWebhookSecretDraft \<Rightarrow> string \<Rightarrow> string" where
  "secretEditorPlaceholder d fallback =
     (if action d = Keep \<and> configured d then (if masked d \<noteq> [] then masked d else ''******'') else fallback)"

definition replaceSecretDraft :: "CustomWebhookSecretDraft \<Rightarrow> string \<Rightarrow> CustomWebhookSecretDraft" where
  "replaceSecretDraft d v = d\<lparr>action := Replace, sval := v\<rparr>"

definition keepSecretDraft :: "CustomWebhookSecretDraft \<Rightarrow> CustomWebhookSecretDraft" where
  "keepSecretDraft d = d\<lparr>action := Keep, sval := textOr [] (originalValue d)\<rparr>"

definition clearSecretDraft :: "CustomWebhookSecretDraft \<Rightarrow> CustomWebhookSecretDraft" where
  "clearSecretDraft d = d\<lparr>action := Clear, sval := []\<rparr>"


section \<open>Stored configurations\<close>

datatype stored = Text string | Arr "stored list" | Obj "string \<rightharpoonup> stored" | Other

definition member :: "string \<Rightarrow> (string \<rightharpoonup> stored) \<Rightarrow> stored" where
  "member k c = (case c k of Some v \<Rightarrow> v | None \<Rightarrow> Other)"

text \<open>An array is an object too, but has no member \<open>value\<close>.\<close>

fun rawSecretValue :: "stored \<Rightarrow> string" where
  "rawSecretValue (Text s) = s"
| "rawSecretValue (Obj c) = (case member ''value'' c of Text v \<Rightarrow> v | _ \<Rightarrow> [])"
| "rawSecretValue _ = []"

definition serializeLegacySecretValue :: "string \<Rightarrow> bool \<Rightarrow> string" where
  "serializeLegacySecretValue v doTrim = (if doTrim then trim v else v)"

fun rawStringValue :: "stored \<Rightarrow> string" where
  "rawStringValue (Text s) = s"
| "rawStringValue _ = []"

fun webhookName :: "stored \<Rightarrow> string" where
  "webhookName (Obj c) = (case member ''displayName'' c of Text v \<Rightarrow> trim v | _ \<Rightarrow> [])"
| "webhookName _ = []"

definition getAlertConfigDisplayName :: "string \<Rightarrow> (string \<rightharpoonup> stored) \<Rightarrow> string" where
  "getAlertConfigDisplayName type config =
     (let displayName = (case member ''displayName'' config of Text v \<Rightarrow> trim v | _ \<Rightarrow> []);
          sender = (case member ''sender'' config of Text v \<Rightarrow> trim v | _ \<Rightarrow> []);
          phone = (if type = ''sms'' then rawSecretValue (member ''phone'' config) else [])
      in if displayName \<noteq> [] then displayName
         else if sender \<noteq> [] then sender
         else if phone \<noteq> [] then phone
         else (case member ''webhooks'' config of
                 Arr ws \<Rightarrow> joinWith '', '' (filter (\<lambda>n. n \<noteq> []) (map webhookName ws))
               | _ \<Rightarrow> []))"


section \<open>What is sent after editing\<close>

text \<open>Whatever is typed into or cleared from a stored secret, keeping it undoes the edit; the update
  then carries no value, and the editor shows the stored one again.\<close>

lemma keep_undoes_edit:
  assumes "action d = Keep" "sval d = textOr [] (originalValue d)"
  shows "keepSecretDraft (replaceSecretDraft d v) = d" "keepSecretDraft (clearSecretDraft d) = d"
  using assms by (simp_all add: keepSecretDraft_def replaceSecretDraft_def clearSecretDraft_def)

lemma hydrated_kept: "action (hydrateUrl u) = Keep \<Longrightarrow> sval (hydrateUrl u) = textOr [] (originalValue (hydrateUrl u))"
  by (cases u) (auto simp: hydrateUrl_def textOr_def Let_def split: if_splits)

lemma sent_after_edit:
  "m_value (serializeSecret (replaceSecretDraft d v)) = Some (trim v)"
  "m_value (serializeSecret (clearSecretDraft d)) = None"
  "m_value (serializeSecret (keepSecretDraft d)) = None"
  by (simp_all add: serializeSecret_def replaceSecretDraft_def clearSecretDraft_def keepSecretDraft_def)

end
