(* ===== verification/Table_Selection.thy ===== *)
theory Table_Selection
  imports Prelude
begin

text \<open>
  Row selection of the complex table (\<open>components/table/complex/useTableSelection.ts\<close> and the handlers
  of \<open>ComplexTable.vue\<close> that use it): the
  composable keeps its own list of selected rows and pushes it to the table component. A row is
  the identity of its raw object. The table component is not part of the sources: its selection
  is a state of any type with the two functions the code calls, \<open>getSelectionRows\<close> and
  \<open>toggleRowSelection\<close>, and \<open>tableLaws\<close> states what they are documented to do. The data of
  the table and which rows are selectable are parameters; clearing the browser's text selection
  is left out.
\<close>

section \<open>State\<close>

type_synonym row = nat

record 't table_api =
  getSelectionRows :: "'t \<Rightarrow> row list"
  toggleRowSelection :: "row \<Rightarrow> bool \<Rightarrow> 't \<Rightarrow> 't"

record 't selection =
  selectedRows :: "row list"
  shiftPressed :: bool
  lastSelectedRow :: "row option"
  rangeBaseRows :: "row list"
  isSyncingTableSelection :: bool
  skipNextSelectionChange :: bool
  tableState :: "'t option"
  notified :: "row list list"

record env =
  tableData :: "row list"
  isRowSelectable :: "row \<Rightarrow> bool"

definition initialSelection :: "'t option \<Rightarrow> 't selection" where
  "initialSelection t = \<lparr>selectedRows = [], shiftPressed = False, lastSelectedRow = None, rangeBaseRows = [],
     isSyncingTableSelection = False, skipNextSelectionChange = False, tableState = t, notified = []\<rparr>"


section \<open>Operations\<close>

definition isRowSelected :: "'t selection \<Rightarrow> row \<Rightarrow> bool" where
  "isRowSelected s r = (r \<in> set (selectedRows s))"

definition setSelectedRows :: "row list \<Rightarrow> 't selection \<Rightarrow> 't selection" where
  "setSelectedRows rows s = s\<lparr>selectedRows := rows, notified := notified s @ [rows]\<rparr>"

text \<open>\<open>syncTableSelection\<close>: the component reports its own changes back while it runs, but
  \<open>handleSelectionChange\<close> ignores them.\<close>

definition syncTableSelection :: "'t table_api \<Rightarrow> env \<Rightarrow> 't selection \<Rightarrow> 't selection" where
  "syncTableSelection api env s =
     (case tableState s of None \<Rightarrow> s
      | Some t \<Rightarrow>
          (let nextRows = filter (\<lambda>r. r \<in> set (tableData env) \<and> isRowSelectable env r) (selectedRows s);
               currentRows = getSelectionRows api t;
               t1 = fold (\<lambda>r. toggleRowSelection api r False) (filter (\<lambda>r. r \<notin> set nextRows) currentRows) t;
               t2 = fold (\<lambda>r. toggleRowSelection api r True) (filter (\<lambda>r. r \<notin> set currentRows) nextRows) t1
           in s\<lparr>tableState := Some t2, isSyncingTableSelection := False\<rparr>))"

definition selectRow :: "'t table_api \<Rightarrow> env \<Rightarrow> row \<Rightarrow> bool option \<Rightarrow> 't selection \<Rightarrow> 't selection" where
  "selectRow api env r want s =
     (let selected = (case want of Some b \<Rightarrow> b | None \<Rightarrow> \<not> isRowSelected s r)
      in if \<not> isRowSelectable env r then s
         else
           (let nextRows = (if selected then (if isRowSelected s r then selectedRows s else selectedRows s @ [r])
                            else filter (\<lambda>i. i \<noteq> r) (selectedRows s))
            in syncTableSelection api env (setSelectedRows nextRows s)))"

text \<open>\<open>rangeRows.forEach ((row) => !hasRow (nextRows, row) && nextRows.push (row))\<close>.\<close>

fun pushMissing :: "row list \<Rightarrow> row list \<Rightarrow> row list" where
  "pushMissing acc [] = acc"
| "pushMissing acc (r # rs) = pushMissing (if r \<in> set acc then acc else acc @ [r]) rs"

definition applyRangeSelection :: "'t table_api \<Rightarrow> env \<Rightarrow> row \<Rightarrow> 't selection \<Rightarrow> bool \<times> 't selection" where
  "applyRangeSelection api env target s =
     (case lastSelectedRow s of None \<Rightarrow> (False, s)
      | Some l \<Rightarrow>
          (let startIndex = findIndex (\<lambda>r. r = l) (tableData env);
               endIndex = findIndex (\<lambda>r. r = target) (tableData env)
           in if startIndex = -1 \<or> endIndex = -1 then (False, s)
              else
                (let st = nat (min startIndex endIndex); en = nat (max startIndex endIndex);
                     rangeRows = filter (isRowSelectable env) (take (en + 1 - st) (drop st (tableData env)))
                 in (True, syncTableSelection api env (setSelectedRows (pushMissing (rangeBaseRows s) rangeRows) s)))))"

definition handleSelectionChange :: "'t table_api \<Rightarrow> env \<Rightarrow> row list \<Rightarrow> 't selection \<Rightarrow> 't selection" where
  "handleSelectionChange api env rows s =
     (if isSyncingTableSelection s then s
      else if skipNextSelectionChange s then syncTableSelection api env (s\<lparr>skipNextSelectionChange := False\<rparr>)
      else
        (let s1 = setSelectedRows rows s
         in if length rows = 0 then s1\<lparr>lastSelectedRow := None, rangeBaseRows := []\<rparr> else s1))"

definition handleSelect :: "'t table_api \<Rightarrow> env \<Rightarrow> row list \<Rightarrow> row \<Rightarrow> 't selection \<Rightarrow> 't selection" where
  "handleSelect api env sel r s =
     (let a = (if shiftPressed s then applyRangeSelection api env r s else (False, s))
      in if fst a then (snd a)\<lparr>skipNextSelectionChange := True\<rparr>
         else s\<lparr>lastSelectedRow := Some r, rangeBaseRows := filter (\<lambda>i. i \<noteq> r) sel\<rparr>)"

definition clearSelects :: "'t table_api \<Rightarrow> env \<Rightarrow> 't selection \<Rightarrow> 't selection" where
  "clearSelects api env s =
     (syncTableSelection api env (setSelectedRows [] s))\<lparr>lastSelectedRow := None, rangeBaseRows := []\<rparr>"

definition pruneSelection :: "'t table_api \<Rightarrow> env \<Rightarrow> 't selection \<Rightarrow> 't selection" where
  "pruneSelection api env s =
     (let nextRows = filter (\<lambda>r. r \<in> set (tableData env)) (selectedRows s);
          s1 = (if length nextRows \<noteq> length (selectedRows s) then setSelectedRows nextRows s else s);
          s2 = (case lastSelectedRow s1 of
                  Some l \<Rightarrow> if l \<notin> set nextRows then s1\<lparr>lastSelectedRow := None, rangeBaseRows := []\<rparr> else s1
                | None \<Rightarrow> s1)
      in syncTableSelection api env s2)"

definition toggleSelection :: "'t table_api \<Rightarrow> env \<Rightarrow> 't selection \<Rightarrow> 't selection" where
  "toggleSelection api env s =
     (let selectableRows = filter (isRowSelectable env) (tableData env);
          allSelected = (length selectableRows > 0 \<and> list_all (isRowSelected s) selectableRows);
          nextRows = (if allSelected then filter (\<lambda>r. r \<notin> set selectableRows) (selectedRows s)
                      else selectedRows s @ filter (\<lambda>r. \<not> isRowSelected s r) selectableRows)
      in syncTableSelection api env (setSelectedRows nextRows s))"

text \<open>\<open>handleRowClick\<close>: \<open>textSelected\<close> says that text is selected, \<open>onControl\<close> that the click hit a
  control inside the row.\<close>

definition handleRowClick ::
  "'t table_api \<Rightarrow> env \<Rightarrow> row \<Rightarrow> bool \<Rightarrow> bool \<Rightarrow> bool \<Rightarrow> 't selection \<Rightarrow> 't selection"
where
  "handleRowClick api env r shiftKey textSelected onControl s =
     (if \<not> isRowSelectable env r \<or> (textSelected \<and> \<not> shiftKey) then s
      else if onControl then s
      else
        (let a = (if shiftKey then applyRangeSelection api env r s else (False, s))
         in if fst a then snd a
            else
              (let s1 = (if \<not> isRowSelected s r then selectRow api env r (Some True) s else s)
               in s1\<lparr>lastSelectedRow := Some r, rangeBaseRows := filter (\<lambda>i. i \<noteq> r) (selectedRows s1)\<rparr>)))"

definition handleKeyDown :: "string \<Rightarrow> 't selection \<Rightarrow> 't selection" where
  "handleKeyDown key s = (if key = ''Shift'' then s\<lparr>shiftPressed := True\<rparr> else s)"

definition handleKeyUp :: "string \<Rightarrow> 't selection \<Rightarrow> 't selection" where
  "handleKeyUp key s = (if key = ''Shift'' then s\<lparr>shiftPressed := False\<rparr> else s)"

text \<open>The handlers of \<open>ComplexTable.vue\<close> that use the composable: the checkbox of a card, and the right
  click, which opens the context menu where the table has one.\<close>

definition toggleCardSelection :: "'t table_api \<Rightarrow> env \<Rightarrow> row \<Rightarrow> bool \<Rightarrow> 't selection \<Rightarrow> 't selection" where
  "toggleCardSelection api env r selected s = selectRow api env r (Some selected) s"

definition handleRightClick :: "'t table_api \<Rightarrow> env \<Rightarrow> bool \<Rightarrow> row \<Rightarrow> 't selection \<Rightarrow> 't selection" where
  "handleRightClick api env hasButtons r s =
     (if \<not> hasButtons then s
      else if isRowSelectable env r \<and> \<not> isRowSelected s r
      then selectRow api env r (Some True) (clearSelects api env s) else s)"

text \<open>What the table component calls, in its order. The checkbox of a row toggles the row, and \<open>select\<close>
  and \<open>selection-change\<close> are called with the selection the table had then; any other change of the
  table's own calls \<open>selection-change\<close> alone.\<close>

definition checkboxClicked :: "'t table_api \<Rightarrow> env \<Rightarrow> row \<Rightarrow> 't \<Rightarrow> 't selection \<Rightarrow> 't selection" where
  "checkboxClicked api env r t s =
     (let t1 = toggleRowSelection api r (r \<notin> set (getSelectionRows api t)) t;
          sel = getSelectionRows api t1
      in handleSelectionChange api env sel (handleSelect api env sel r (s\<lparr>tableState := Some t1\<rparr>)))"

definition tableChanged :: "'t table_api \<Rightarrow> env \<Rightarrow> 't \<Rightarrow> 't selection \<Rightarrow> 't selection" where
  "tableChanged api env t1 s = handleSelectionChange api env (getSelectionRows api t1) (s\<lparr>tableState := Some t1\<rparr>)"


section \<open>Agreement with the table\<close>

text \<open>What the component documents: toggling a row on or off changes the membership of that row.\<close>

definition tableLaws :: "'t table_api \<Rightarrow> bool" where
  "tableLaws api \<longleftrightarrow> (\<forall>r b t. set (getSelectionRows api (toggleRowSelection api r b t)) =
     (if b then insert r (set (getSelectionRows api t)) else set (getSelectionRows api t) - {r}))"

lemma fold_off:
  "tableLaws api \<Longrightarrow> set (getSelectionRows api (fold (\<lambda>r. toggleRowSelection api r False) rs t)) =
     set (getSelectionRows api t) - set rs"
  by (induction rs arbitrary: t) (auto simp: tableLaws_def)

lemma fold_on:
  "tableLaws api \<Longrightarrow> set (getSelectionRows api (fold (\<lambda>r. toggleRowSelection api r True) rs t)) =
     set (getSelectionRows api t) \<union> set rs"
  by (induction rs arbitrary: t) (auto simp: tableLaws_def)

text \<open>The table shows exactly the selected rows that are on the page and selectable.\<close>

definition agrees :: "'t table_api \<Rightarrow> env \<Rightarrow> 't selection \<Rightarrow> bool" where
  "agrees api env s \<longleftrightarrow> (\<forall>t. tableState s = Some t \<longrightarrow> set (getSelectionRows api t) =
     {r \<in> set (selectedRows s). r \<in> set (tableData env) \<and> isRowSelectable env r})"

lemma sync_fields [simp]:
  "selectedRows (syncTableSelection api env s) = selectedRows s"
  "rangeBaseRows (syncTableSelection api env s) = rangeBaseRows s"
  "lastSelectedRow (syncTableSelection api env s) = lastSelectedRow s"
  by (simp_all add: syncTableSelection_def Let_def split: option.split)

lemma sync_agrees: "tableLaws api \<Longrightarrow> agrees api env (syncTableSelection api env s)"
  by (auto simp: agrees_def syncTableSelection_def Let_def fold_off fold_on split: option.splits)

lemma agrees_update [simp]:
  "agrees api env (s\<lparr>lastSelectedRow := l\<rparr>) = agrees api env s"
  "agrees api env (s\<lparr>rangeBaseRows := b\<rparr>) = agrees api env s"
  "agrees api env (s\<lparr>shiftPressed := h\<rparr>) = agrees api env s"
  by (simp_all add: agrees_def)

lemma pushMissing_spec:
  "set (pushMissing acc rs) = set acc \<union> set rs" "distinct acc \<Longrightarrow> distinct (pushMissing acc rs)"
  by (induction rs arbitrary: acc) auto

lemma setSelected_fields [simp]:
  "selectedRows (setSelectedRows rows s) = rows" "rangeBaseRows (setSelectedRows rows s) = rangeBaseRows s"
  "lastSelectedRow (setSelectedRows rows s) = lastSelectedRow s"
  by (simp_all add: setSelectedRows_def)

text \<open>A session with the table. It starts with a table that shows nothing selected, or with cards and
  no table. The user clicks rows, checkboxes and buttons and presses keys; the table may change its
  selection itself, to selectable rows of the page (as selecting all does); the table is replaced by
  the cards, or mounted again with any selection, after which the code synchronises it; and the page
  may change to any other rows, with the table in any state and reporting its selection or not, after
  which the code prunes the selection.\<close>

inductive session :: "'t table_api \<Rightarrow> env \<Rightarrow> 't selection \<Rightarrow> bool" for api :: "'t table_api" where
  started: "getSelectionRows api t = [] \<Longrightarrow> session api env (initialSelection (Some t))"
| started_cards: "session api env (initialSelection None)"
| rowSelected: "session api env s \<Longrightarrow> session api env (selectRow api env r want s)"
| cardToggled: "session api env s \<Longrightarrow> session api env (toggleCardSelection api env r selected s)"
| rightClicked: "session api env s \<Longrightarrow> session api env (handleRightClick api env hasButtons r s)"
| cleared: "session api env s \<Longrightarrow> session api env (clearSelects api env s)"
| toggled: "session api env s \<Longrightarrow> session api env (toggleSelection api env s)"
| rowClicked: "session api env s \<Longrightarrow> session api env (handleRowClick api env r shift text control s)"
| keyDown: "session api env s \<Longrightarrow> session api env (handleKeyDown key s)"
| keyUp: "session api env s \<Longrightarrow> session api env (handleKeyUp key s)"
| checkbox: "session api env s \<Longrightarrow> tableState s = Some t \<Longrightarrow> r \<in> set (tableData env) \<Longrightarrow> isRowSelectable env r \<Longrightarrow>
    session api env (checkboxClicked api env r t s)"
| changed: "session api env s \<Longrightarrow> tableState s = Some t \<Longrightarrow>
    set (getSelectionRows api t1) \<subseteq> {r \<in> set (tableData env). isRowSelectable env r} \<Longrightarrow>
    session api env (tableChanged api env t1 s)"
| cards: "session api env s \<Longrightarrow> session api env (s\<lparr>tableState := None\<rparr>)"
| mounted: "session api env s \<Longrightarrow> session api env (syncTableSelection api env (s\<lparr>tableState := Some t1\<rparr>))"
| pageQuiet: "session api env s \<Longrightarrow> session api env' (pruneSelection api env' (s\<lparr>tableState := t1\<rparr>))"
| pageReported: "session api env s \<Longrightarrow> session api env' (pruneSelection api env' (tableChanged api env' t1 s))"

text \<open>What holds between the events: no report of the table is to be skipped or ignored, and the parent
  has been told the current selection; and, once synchronised, the table agrees.\<close>

definition idle :: "'t selection \<Rightarrow> bool" where
  "idle s \<longleftrightarrow> \<not> skipNextSelectionChange s \<and> \<not> isSyncingTableSelection s \<and>
     selectedRows s = (if notified s = [] then [] else last (notified s))"

definition settled :: "'t table_api \<Rightarrow> env \<Rightarrow> 't selection \<Rightarrow> bool" where
  "settled api env s \<longleftrightarrow> agrees api env s \<and> idle s"

lemma settled_idle: "settled api env s \<Longrightarrow> idle s"
  by (simp add: settled_def)

lemma idle_sync: "idle s \<Longrightarrow> idle (syncTableSelection api env s)"
  by (auto simp: idle_def syncTableSelection_def Let_def split: option.split)

lemma idle_set: "idle s \<Longrightarrow> idle (setSelectedRows rows s)"
  by (simp add: idle_def setSelectedRows_def)

lemma idle_update [simp]:
  "idle (s\<lparr>lastSelectedRow := l\<rparr>) = idle s" "idle (s\<lparr>rangeBaseRows := b\<rparr>) = idle s"
  "idle (s\<lparr>shiftPressed := h\<rparr>) = idle s" "idle (s\<lparr>tableState := t\<rparr>) = idle s"
  by (simp_all add: idle_def)

lemma settled_update [simp]:
  "settled api env (s\<lparr>lastSelectedRow := l\<rparr>) = settled api env s"
  "settled api env (s\<lparr>rangeBaseRows := b\<rparr>) = settled api env s"
  "settled api env (s\<lparr>shiftPressed := h\<rparr>) = settled api env s"
  by (simp_all add: settled_def)

lemma synced: "tableLaws api \<Longrightarrow> idle s \<Longrightarrow> settled api env (syncTableSelection api env s)"
  by (simp add: settled_def sync_agrees idle_sync)

lemma selectRow_settled: "tableLaws api \<Longrightarrow> settled api env s \<Longrightarrow> settled api env (selectRow api env r want s)"
  by (simp add: selectRow_def Let_def synced idle_set settled_idle)

lemma clearSelects_settled: "tableLaws api \<Longrightarrow> idle s \<Longrightarrow> settled api env (clearSelects api env s)"
  by (simp add: clearSelects_def synced idle_set)

lemma range_settled:
  assumes "tableLaws api" "idle s"
  shows "fst (applyRangeSelection api env r s) \<Longrightarrow> settled api env (snd (applyRangeSelection api env r s))"
  using assms by (auto simp: applyRangeSelection_def Let_def synced idle_set split: option.splits if_splits)

lemma prune_settled: "tableLaws api \<Longrightarrow> idle s \<Longrightarrow> settled api env (pruneSelection api env s)"
  by (simp add: pruneSelection_def Let_def synced idle_set split: option.split)

lemma changed_idle: "idle s \<Longrightarrow> idle (tableChanged api env t1 s)"
  by (simp add: tableChanged_def handleSelectionChange_def idle_def setSelectedRows_def Let_def)

text \<open>The table's own report, where nothing is to be skipped, makes the selection the table's.\<close>

lemma reported_settled:
  assumes "idle s" "tableState s = Some t1" "set (getSelectionRows api t1) \<subseteq> {r \<in> set (tableData env). isRowSelectable env r}"
  shows "settled api env (handleSelectionChange api env (getSelectionRows api t1) s)"
  using assms by (auto simp: settled_def idle_def handleSelectionChange_def setSelectedRows_def agrees_def Let_def)

text \<open>A report that is to be skipped leaves the selection that the range has set.\<close>

lemma skipped_settled:
  assumes "tableLaws api" "settled api env s"
  shows "settled api env (handleSelectionChange api env sel (s\<lparr>skipNextSelectionChange := True\<rparr>))"
proof -
  have "handleSelectionChange api env sel (s\<lparr>skipNextSelectionChange := True\<rparr>) =
      syncTableSelection api env (s\<lparr>skipNextSelectionChange := False\<rparr>)"
    using assms(2) by (simp add: handleSelectionChange_def settled_def idle_def)
  moreover have "idle (s\<lparr>skipNextSelectionChange := False\<rparr>)" using assms(2) by (simp add: settled_def idle_def)
  ultimately show ?thesis using synced [OF assms(1)] by simp
qed

lemma checkbox_settled:
  assumes "tableLaws api" "settled api env s" "tableState s = Some t" "r \<in> set (tableData env)" "isRowSelectable env r"
  shows "settled api env (checkboxClicked api env r t s)"
proof -
  let ?t1 = "toggleRowSelection api r (r \<notin> set (getSelectionRows api t)) t"
  let ?sel = "getSelectionRows api ?t1" and ?s1 = "s\<lparr>tableState := Some (toggleRowSelection api r (r \<notin> set (getSelectionRows api t)) t)\<rparr>"
  have "set (getSelectionRows api t) \<subseteq> {r \<in> set (tableData env). isRowSelectable env r}"
    using assms(2,3) by (auto simp: settled_def agrees_def)
  then have page: "set ?sel \<subseteq> {r \<in> set (tableData env). isRowSelectable env r}"
    using assms(1,4,5) unfolding tableLaws_def by auto
  have idle1: "idle ?s1" using settled_idle [OF assms(2)] by simp
  show ?thesis
  proof (cases "shiftPressed s \<and> fst (applyRangeSelection api env r ?s1)")
    case True
    then show ?thesis
      using skipped_settled [OF assms(1) range_settled [OF assms(1) idle1]]
      by (simp add: checkboxClicked_def handleSelect_def Let_def)
  next
    case False
    then have "handleSelect api env ?sel r ?s1 = ?s1\<lparr>lastSelectedRow := Some r, rangeBaseRows := filter (\<lambda>i. i \<noteq> r) ?sel\<rparr>"
      by (simp add: handleSelect_def Let_def)
    then show ?thesis using reported_settled [OF _ _ page] idle1 by (simp add: checkboxClicked_def Let_def)
  qed
qed

lemma initial_settled:
  "getSelectionRows api t = [] \<Longrightarrow> settled api env (initialSelection (Some t))" "settled api env (initialSelection None)"
  by (simp_all add: settled_def idle_def agrees_def initialSelection_def)

lemma no_table_settled: "settled api env s \<Longrightarrow> settled api env (s\<lparr>tableState := None\<rparr>)"
  by (simp add: settled_def agrees_def)

lemma rowClick_settled:
  assumes "tableLaws api" "settled api env s"
  shows "settled api env (handleRowClick api env r shift text control s)"
  using assms selectRow_settled [OF assms, of r "Some True"] range_settled [OF assms(1) settled_idle [OF assms(2)], of env r]
  by (simp add: handleRowClick_def Let_def)

lemma session_settled:
  assumes "tableLaws api" "session api env s"
  shows "settled api env s"
  using assms(2)
proof (induction rule: session.induct)
  case (rightClicked env s hasButtons r)
  then show ?case
    using clearSelects_settled [OF assms(1) settled_idle] selectRow_settled [OF assms(1)] by (simp add: handleRightClick_def)
next
  case (toggled env s)
  then show ?case by (simp add: toggleSelection_def Let_def synced [OF assms(1)] idle_set settled_idle)
next
  case (changed env s t t1)
  then show ?case by (simp add: tableChanged_def reported_settled settled_idle)
next
  case (pageReported env s env' t1)
  then show ?case by (intro prune_settled [OF assms(1)] changed_idle settled_idle)
qed (simp_all add: initial_settled [where api = api] no_table_settled toggleCardSelection_def handleKeyDown_def
    handleKeyUp_def selectRow_settled [OF assms(1)] clearSelects_settled [OF assms(1)] settled_idle
    rowClick_settled [OF assms(1)] checkbox_settled [OF assms(1)] synced [OF assms(1)] prune_settled [OF assms(1)])

text \<open>C36. The table follows the composable, in every session with it: whatever the user, the table and
  a change of the page have done, between two events the rows the table shows selected are exactly
  the selected rows on the page that are selectable, no report of the table is left to be skipped or
  ignored, and the parent was told the current selection last.\<close>

theorem table_agrees:
  assumes "tableLaws api" "session api env s"
  shows "(\<forall>t. tableState s = Some t \<longrightarrow> set (getSelectionRows api t) =
      {r \<in> set (selectedRows s). r \<in> set (tableData env) \<and> isRowSelectable env r}) \<and>
    \<not> skipNextSelectionChange s \<and> \<not> isSyncingTableSelection s \<and>
    selectedRows s = (if notified s = [] then [] else last (notified s))"
  using session_settled [OF assms] by (simp add: settled_def agrees_def idle_def)

definition listTable :: "row list table_api" where
  "listTable = \<lparr>getSelectionRows = (\<lambda>t. t), toggleRowSelection = (\<lambda>r b t. if b then t @ [r] else filter (\<lambda>i. i \<noteq> r) t)\<rparr>"

lemma listTable_laws: "tableLaws listTable"
  by (auto simp: tableLaws_def listTable_def)

definition smallPage :: env where
  "smallPage = \<lparr>tableData = [1, 2, 3, 4], isRowSelectable = (\<lambda>r. r \<noteq> 3)\<rparr>"

text \<open>Row 1 is checked, then row 4 with the shift key down: the rows between, without row 3.\<close>

definition rangeChecked :: "row list selection" where
  "rangeChecked = checkboxClicked listTable smallPage 4 [1]
     (handleKeyDown ''Shift'' (checkboxClicked listTable smallPage 1 [] (initialSelection (Some []))))"

lemma rangeChecked_result: "tableState rangeChecked = Some [1, 4, 2]" "selectedRows rangeChecked = [1, 2, 4]"
  unfolding rangeChecked_def by code_simp+

theorem table_agrees_witness:
  "set [1, 4, 2] = {r \<in> set (selectedRows rangeChecked). r \<in> set (tableData smallPage) \<and> isRowSelectable smallPage r} \<and>
   selectedRows rangeChecked = [1, 2, 4]"
proof -
  have "tableState (handleKeyDown ''Shift'' (checkboxClicked listTable smallPage 1 [] (initialSelection (Some [])))) = Some [1]"
    by code_simp
  then have "session listTable smallPage rangeChecked"
    unfolding rangeChecked_def
    by (intro checkbox keyDown started) (simp_all add: listTable_def smallPage_def initialSelection_def)
  from conjunct1 [OF table_agrees [OF listTable_laws this]]
  have "set (getSelectionRows listTable [1, 4, 2]) =
      {r \<in> set (selectedRows rangeChecked). r \<in> set (tableData smallPage) \<and> isRowSelectable smallPage r}"
    using rangeChecked_result(1) by blast
  then show ?thesis using rangeChecked_result(2) by (simp add: listTable_def)
qed

text \<open>A shift-click selects the rows between the anchor and the clicked row, whichever comes
  first on the page, that are selectable, besides the rows selected before the anchor.\<close>

theorem range_selection:
  assumes "lastSelectedRow s = Some l" "tableData env = xs @ a # ys @ b # zs" "distinct (tableData env)"
    and "{l, r} = {a, b}"
  shows "set (selectedRows (snd (applyRangeSelection api env r s))) =
    set (rangeBaseRows s) \<union> {q \<in> set (a # ys @ [b]). isRowSelectable env q}"
proof -
  have f: "findIndex (\<lambda>q. q = v) (us @ v # vs) = int (length us)" if "v \<notin> set us" for v us and vs :: "row list"
    using that by (induction us) (auto simp: Let_def)
  have a: "findIndex (\<lambda>q. q = a) (tableData env) = int (length xs)"
    using f [of a xs "ys @ b # zs"] assms(2,3) by simp
  have b: "findIndex (\<lambda>q. q = b) (tableData env) = int (length (xs @ a # ys))"
    using f [of b "xs @ a # ys" zs] assms(2,3) by simp
  have t: "take (length (xs @ a # ys) + 1 - length xs) (drop (length xs) (tableData env)) = a # ys @ [b]"
    by (simp add: assms(2))
  have "l = a \<and> r = b \<or> l = b \<and> r = a" using assms(4) by (auto simp: doubleton_eq_iff)
  then show ?thesis
    using assms(1) a b t by (auto simp: applyRangeSelection_def Let_def pushMissing_spec nat_add_distrib)
qed

theorem range_selection_witness:
  "set (selectedRows (snd (applyRangeSelection listTable smallPage 2
     ((initialSelection (Some []))\<lparr>lastSelectedRow := Some 4\<rparr>)))) = {2, 4}"
proof -
  have "{q \<in> set (2 # [3] @ [4]). isRowSelectable smallPage q} = {2, 4}"
    by (auto simp: smallPage_def)
  then show ?thesis
    using range_selection [of "(initialSelection (Some []))\<lparr>lastSelectedRow := Some 4\<rparr>" 4 smallPage "[1]" 2 "[3]" 4 "[]" 2 listTable]
    by (simp add: smallPage_def initialSelection_def insert_commute)
qed

end
