(* ===== verification/Validate.thy ===== *)
theory Validate
  imports Form_Rules_Correct
begin

text \<open>
  The address, time and URL helpers of \<open>utils/validate.ts\<close>, and the rule of the panel's allowed
  addresses that is built on them (\<open>views/setting/safe/allowips/index.vue\<close>). A check answers
  \<open>True\<close> when the value is refused. Names that \<open>Form_Rules\<close> has too end in \<open>_util\<close>; the patterns
  the two sources share are the same terms. The theorems relate the checks to the form rules,
  say which networks in slash notation pass, and that times survive being split and put together.
\<close>

section \<open>Addresses\<close>

definition checkIp_util :: "jstr \<Rightarrow> bool" where
  "checkIp_util v = (if v = [] then True else \<not> matchRe ipRe v \<and> v \<noteq> [])"

definition checkDomain_util :: "jstr \<Rightarrow> bool" where
  "checkDomain_util v = (if v = [] then True else \<not> matchRe regHost v \<and> v \<noteq> [])"

text \<open>\<open>/^(?:[a-z0-9](?:[a-z0-9-]{0,61}[a-z0-9])?\.)+[a-z0-9][a-z0-9-]{0,61}[a-z0-9]$/i\<close>\<close>

definition isDomain :: "jstr \<Rightarrow> bool" where
  "isDomain v = (if v = [] then True
     else v \<noteq> [] \<and> matchRe (seqs [Plus (Seq dnsLabelRe (chr1 46)), Cls alnumR,
       Between 0 61 (Cls (alnumR @ chars ''-'')), Cls alnumR]) v)"

definition checkIpV4V6 :: "jstr \<Rightarrow> bool" where
  "checkIpV4V6 v = (if v = [] then True
     else \<not> matchRe IPv4AddressFormat v \<and> \<not> matchRe IPv6AddressRegExp v \<and> v \<noteq> [])"

definition checkIpV6_util :: "jstr option \<Rightarrow> bool" where
  "checkIpV6_util v = (case v of None \<Rightarrow> True
     | Some w \<Rightarrow> if w = [] then True else \<not> matchRe IPv6AddressRegExp w \<and> w \<noteq> [])"

text \<open>\<open>[0-9]|[1-2][0-9]|3[0-2]\<close> and \<open>[0-9]|[1-9][0-9]|1[0-1][0-9]|12[0-8]\<close>: lengths of prefixes.\<close>

definition maskV4Re :: rexp where
  "maskV4Re = alts [Cls digitR, Seq (Cls [(49, 50)]) (Cls digitR), Seq (chr1 51) (Cls [(48, 50)])]"

definition maskV6Re :: rexp where
  "maskV6Re = alts [Cls digitR, Seq (Cls [(49, 57)]) (Cls digitR),
     seqs [chr1 49, Cls [(48, 49)], Cls digitR], seqs [chr1 49, chr1 50, Cls [(48, 56)]]]"

definition checkCidr :: "jstr \<Rightarrow> bool" where
  "checkCidr v = (if v = [] then True
     else \<not> matchRe (Seq ipv4Regex (Opt (Seq (chr1 47) maskV4Re))) v \<and> v \<noteq> [])"

text \<open>\<open>value.split ('/')[1]\<close> is undefined when there is no slash, and a pattern tests undefined as
  the text of that name.\<close>

definition checkCidrV6 :: "jstr \<Rightarrow> bool" where
  "checkCidrV6 v =
     (let p = splitOn 47 v
      in if v = [] then True
         else if checkIpV6_util (Some (p ! 0)) then True
         else \<not> matchRe maskV6Re (if length p > 1 then p ! 1 else units ''undefined''))"

definition checkPort_util :: "jstr \<Rightarrow> bool" where
  "checkPort_util v = (if leNum (toNumber v) (Fin 0) then True else \<not> matchRe portRe v \<and> v \<noteq> [])"

text \<open>\<open>checkIPs\<close>: the addresses that may open the panel, one to a line; a blank text allows all.\<close>

definition wildcards :: "jstr list" where
  "wildcards = map units [''0.0.0.0'', ''0.0.0.0/0'', ''::'', ''::/0'']"

definition badAddress :: "jstr \<Rightarrow> bool" where
  "badAddress item =
     (if item \<in> set wildcards then True
      else if 47 \<in> set item then (if 58 \<in> set item then checkCidrV6 item else checkCidr item)
      else checkIpV4V6 item)"

fun checkLines :: "jstr list \<Rightarrow> callback" where
  "checkLines [] = Pass"
| "checkLines (item # rest) =
     (if item = [] then checkLines rest
      else if badAddress item then Reject ''firewall.addressFormatError'' []
      else checkLines rest)"

definition checkIPs :: validator where
  "checkIPs v = (case v of None \<Rightarrow> Pass
     | Some w \<Rightarrow> if trimU w \<noteq> [] then checkLines (splitOn 10 w) else Pass)"


section \<open>Times\<close>

fun timesNum :: "jsnum \<Rightarrow> nat \<Rightarrow> jsnum" where
  "timesNum NaN k = NaN"
| "timesNum PosInf k = PosInf"
| "timesNum NegInf k = NegInf"
| "timesNum (Fin q) k = Fin (q * of_nat k)"

definition transferTimeToSecond :: "string \<Rightarrow> jsnum" where
  "transferTimeToSecond item =
     (if CHR ''s'' \<in> set item then toNumber (units (removeSub ''s'' item))
      else if CHR ''m'' \<in> set item then timesNum (toNumber (units (removeSub ''m'' item))) 60
      else if CHR ''h'' \<in> set item then timesNum (timesNum (toNumber (units (removeSub ''h'' item))) 60) 60
      else if CHR ''d'' \<in> set item
      then timesNum (timesNum (timesNum (toNumber (units (removeSub ''d'' item))) 60) 60) 24
      else toNumber (units item))"

definition splitTime :: "string \<Rightarrow> jsnum \<times> string" where
  "splitTime item =
     (if CHR ''s'' \<in> set item then (toNumber (units (removeSub ''s'' item)), ''s'')
      else if CHR ''m'' \<in> set item then (toNumber (units (removeSub ''m'' item)), ''m'')
      else if CHR ''h'' \<in> set item then (toNumber (units (removeSub ''h'' item)), ''h'')
      else if CHR ''d'' \<in> set item then (toNumber (units (removeSub ''d'' item)), ''d'')
      else if CHR ''y'' \<in> set item then (toNumber (units (removeSub ''y'' item)), ''y'')
      else (toNumber (units item), ''s''))"

text \<open>\<open>transTimeUnit\<close>: the letter of the unit is replaced by its name; the translation of a key is a
  parameter, and no name of a unit has a dollar sign, which replacement would interpret.\<close>

definition replaceChar :: "char \<Rightarrow> string \<Rightarrow> string \<Rightarrow> string" where
  "replaceChar c by s = concat (map (\<lambda>x. if x = c then by else [x]) s)"

definition transTimeUnit :: "(string \<Rightarrow> string) \<Rightarrow> string \<Rightarrow> string" where
  "transTimeUnit t v =
     (if CHR ''s'' \<in> set v then replaceChar (CHR ''s'') (t ''commons.units.second'') v
      else if CHR ''m'' \<in> set v then replaceChar (CHR ''m'') (t ''commons.units.minute'') v
      else if CHR ''h'' \<in> set v then replaceChar (CHR ''h'') (t ''commons.units.hour'') v
      else if CHR ''d'' \<in> set v then replaceChar (CHR ''d'') (t ''commons.units.day'') v
      else if CHR ''y'' \<in> set v then replaceChar (CHR ''y'') (t ''commons.units.year'') v
      else v @ t ''commons.units.second'')"

definition splitTimeFromSecond :: "int \<Rightarrow> int \<times> string" where
  "splitTimeFromSecond item =
     (if item \<ge> 3600 \<and> item mod 3600 = 0 then (item div 3600, ''h'')
      else if item \<ge> 60 \<and> item mod 60 = 0 then (item div 60, ''m'')
      else (item, ''s''))"


section \<open>URLs and lists\<close>

definition splitHttp :: "string \<Rightarrow> string \<times> string" where
  "splitHttp url =
     (if indexSub url ''https://'' \<noteq> -1 then (''https'', removeSub ''https://'' url)
      else if indexSub url ''http://'' \<noteq> -1 then (''http'', removeSub ''http://'' url)
      else ([], url))"

definition spliceHttp :: "string \<Rightarrow> string \<Rightarrow> string" where
  "spliceHttp proto url = proto @ ''://'' @ removeSub ''http://'' (removeSub ''https://'' url)"

text \<open>\<open>emptyLineFilter\<close>, called with a separator of one unit.\<close>

definition emptyLineFilter :: "string \<Rightarrow> char \<Rightarrow> string" where
  "emptyLineFilter str spilt = joinWith [spilt] (filter (\<lambda>l. trim l \<noteq> []) (splitOn spilt str))"


section \<open>Fields between separators\<close>

text \<open>A pattern whose words have no separator, repeated with separators between, matches the texts
  that split into that many words of it.\<close>

lemma lang_Seq_assoc: "lang (Seq (Seq p q) r) = lang (Seq p (Seq q r))"
proof (intro set_eqI iffI)
  fix w assume "w \<in> lang (Seq (Seq p q) r)"
  then obtain a b c where "w = (a @ b) @ c" "a \<in> lang p" "b \<in> lang q" "c \<in> lang r"
    by (auto elim!: lang_SeqE)
  then show "w \<in> lang (Seq p (Seq q r))" by (simp add: lang_SeqI)
next
  fix w assume "w \<in> lang (Seq p (Seq q r))"
  then obtain a b c where "w = (a @ b) @ c" "a \<in> lang p" "b \<in> lang q" "c \<in> lang r"
    by (auto elim!: lang_SeqE)
  then show "w \<in> lang (Seq (Seq p q) r)" by (simp only: lang_SeqI)
qed

lemma lang_Seq_cong: "lang p = lang p' \<Longrightarrow> lang q = lang q' \<Longrightarrow> lang (Seq p q) = lang (Seq p' q')"
  by (auto simp: lang_unfold)

lemma lang_Seq_Opt_iff:
  "w \<in> lang (Seq p (Opt r)) \<longleftrightarrow> (\<exists>u v. w = u @ v \<and> u \<in> lang p \<and> (v = [] \<or> v \<in> lang r))"
  "w \<in> lang (Seq (Opt r) p) \<longleftrightarrow> (\<exists>u v. w = u @ v \<and> (u = [] \<or> u \<in> lang r) \<and> v \<in> lang p)"
  by (simp_all only: lang.simps(5) mem_Collect_eq lang_Opt)

lemma lang_Seq_Opt: "w \<in> lang (Seq (Opt r) s) \<longleftrightarrow> w \<in> lang s \<or> w \<in> lang (Seq r s)"
proof
  assume "w \<in> lang (Seq (Opt r) s)"
  then obtain u v where "w = u @ v" "u = [] \<or> u \<in> lang r" "v \<in> lang s"
    unfolding lang_Seq_Opt_iff by blast
  then show "w \<in> lang s \<or> w \<in> lang (Seq r s)" by (auto intro: lang_SeqI)
next
  assume "w \<in> lang s \<or> w \<in> lang (Seq r s)"
  then show "w \<in> lang (Seq (Opt r) s)"
    unfolding lang_Seq_Opt_iff by (auto elim!: lang_SeqE)
qed

lemmas lang_Seq_Opt_simp [simp] = lang_Seq_Opt [unfolded One_nat_def]

lemma splitOn_1: "splitOn d w = [p] \<longleftrightarrow> w = p \<and> d \<notin> set p"
  by (metis join_splitOn joinWith.simps(2) list.set_intros(1) splitOn_no_sep splitOn_simple)

lemma splitOn_Cons:
  assumes "splitOn d w = p # ps" "ps \<noteq> []"
  shows "w = p @ d # joinWith [d] ps" "d \<notin> set p" "splitOn d (joinWith [d] ps) = ps"
proof -
  have "w = joinWith [d] (p # ps)" using assms(1) by (metis join_splitOn)
  then show "w = p @ d # joinWith [d] ps" using assms(2) by (simp add: joinWith_Cons)
  have "\<forall>q \<in> set (p # ps). d \<notin> set q" using splitOn_no_sep [of _ d w] assms(1) by simp
  then show "d \<notin> set p" "splitOn d (joinWith [d] ps) = ps" using splitOn_join [of ps d] assms(2) by simp_all
qed

lemma lang_sep: "w \<in> lang (Seq (Seq r (chr1 d)) s) \<longleftrightarrow> (\<exists>u v. w = u @ d # v \<and> u \<in> lang r \<and> v \<in> lang s)"
proof
  assume "w \<in> lang (Seq (Seq r (chr1 d)) s)"
  then show "\<exists>u v. w = u @ d # v \<and> u \<in> lang r \<and> v \<in> lang s"
    unfolding lang_Seq_assoc by (elim lang_SeqE) (auto intro!: exI)
next
  assume "\<exists>u v. w = u @ d # v \<and> u \<in> lang r \<and> v \<in> lang s"
  then show "w \<in> lang (Seq (Seq r (chr1 d)) s)"
    unfolding lang_Seq_assoc by (auto intro!: lang_SeqI)
qed

lemma lang_separated:
  assumes "\<And>u. u \<in> lang r \<Longrightarrow> d \<notin> set u"
  shows "w \<in> lang (Seq (Times n (Seq r (chr1 d))) r) \<longleftrightarrow>
    length (splitOn d w) = Suc n \<and> list_all (\<lambda>p. p \<in> lang r) (splitOn d w)"
proof (induction n arbitrary: w)
  case 0
  have "lang (Seq (Times 0 (Seq r (chr1 d))) r) = lang r" by (auto simp: lang_unfold(1))
  moreover have "w \<in> lang r \<longleftrightarrow> length (splitOn d w) = 1 \<and> list_all (\<lambda>p. p \<in> lang r) (splitOn d w)"
    using assms splitOn_1 [of d w] by (auto simp: length_Suc_conv)
  ultimately show ?case by simp
next
  case (Suc n)
  let ?t = "Seq (Times n (Seq r (chr1 d))) r"
  have "w \<in> lang (Seq (Times (Suc n) (Seq r (chr1 d))) r) \<longleftrightarrow> (\<exists>u v. w = u @ d # v \<and> u \<in> lang r \<and> v \<in> lang ?t)"
    using lang_Seq_cong [OF lang_Times_Suc [of "Seq r (chr1 d)" n] refl, of r] by (simp add: lang_Seq_assoc lang_sep [symmetric])
  also have "\<dots> \<longleftrightarrow> length (splitOn d w) = Suc (Suc n) \<and> list_all (\<lambda>p. p \<in> lang r) (splitOn d w)"
  proof
    assume "\<exists>u v. w = u @ d # v \<and> u \<in> lang r \<and> v \<in> lang ?t"
    then show "length (splitOn d w) = Suc (Suc n) \<and> list_all (\<lambda>p. p \<in> lang r) (splitOn d w)"
      using assms Suc.IH by (auto simp: splitOn_append)
  next
    assume a: "length (splitOn d w) = Suc (Suc n) \<and> list_all (\<lambda>p. p \<in> lang r) (splitOn d w)"
    then obtain p ps where p: "splitOn d w = p # ps" "ps \<noteq> []"
      by (cases "splitOn d w") (auto, metis Zero_not_Suc list.size(3))
    with a splitOn_Cons [OF p] Suc.IH [of "joinWith [d] ps"] show "\<exists>u v. w = u @ d # v \<and> u \<in> lang r \<and> v \<in> lang ?t"
      by auto
  qed
  finally show ?case .
qed

lemma lang_optional_field:
  assumes "\<And>u. u \<in> lang r \<Longrightarrow> d \<notin> set u" "\<And>u. u \<in> lang s \<Longrightarrow> d \<notin> set u"
  shows "w \<in> lang (Seq r (Opt (Seq (chr1 d) s))) \<longleftrightarrow>
    (\<exists>a. splitOn d w = [a] \<and> a \<in> lang r) \<or> (\<exists>a b. splitOn d w = [a, b] \<and> a \<in> lang r \<and> b \<in> lang s)"
proof
  assume "w \<in> lang (Seq r (Opt (Seq (chr1 d) s)))"
  then obtain u v where w: "w = u @ v" "u \<in> lang r" "v = [] \<or> v \<in> lang (Seq (chr1 d) s)"
    unfolding lang_Seq_Opt_iff by blast
  from w(3) show "(\<exists>a. splitOn d w = [a] \<and> a \<in> lang r) \<or> (\<exists>a b. splitOn d w = [a, b] \<and> a \<in> lang r \<and> b \<in> lang s)"
  proof
    assume "v = []"
    with w assms(1) show ?thesis by simp
  next
    assume "v \<in> lang (Seq (chr1 d) s)"
    then obtain b where "v = d # b" "b \<in> lang s" by (auto elim!: lang_SeqE)
    with w assms show ?thesis by (simp add: splitOn_append)
  qed
next
  assume "(\<exists>a. splitOn d w = [a] \<and> a \<in> lang r) \<or> (\<exists>a b. splitOn d w = [a, b] \<and> a \<in> lang r \<and> b \<in> lang s)"
  then show "w \<in> lang (Seq r (Opt (Seq (chr1 d) s)))"
  proof (elim disjE exE conjE)
    fix a assume "splitOn d w = [a]" "a \<in> lang r"
    then show ?thesis unfolding lang_Seq_Opt_iff splitOn_1 by force
  next
    fix a b assume s: "splitOn d w = [a, b]" "a \<in> lang r" "b \<in> lang s"
    then have "w = a @ [d] @ b" using splitOn_Cons(1) [OF s(1)] by simp
    moreover have "[d] @ b \<in> lang (Seq (chr1 d) s)" using s(3) by (intro lang_SeqI) simp_all
    ultimately show ?thesis unfolding lang_Seq_Opt_iff using s(2) by blast
  qed
qed


section \<open>Networks in slash notation\<close>

text \<open>An octet as the network check reads it: up to three digits, leading zeros allowed.\<close>

definition looseOctet :: "jstr \<Rightarrow> bool" where
  "looseOctet w \<longleftrightarrow> w \<noteq> [] \<and> list_all isDigitU w \<and> length w \<le> 3 \<and> digitsVal w \<le> 255"

lemma cidrOctetRe_length: "w \<in> lang cidrOctetRe \<Longrightarrow> w \<noteq> [] \<and> length w \<le> 3 \<and> list_all isDigitU w"
  by (auto simp: cidrOctetRe_def list_all_iff isDigitU_def)

lemma cidrOctetRe_3:
  "a < 10 \<Longrightarrow> b < 10 \<Longrightarrow> c < 10 \<Longrightarrow> map ((+) 48) [a, b, c] \<in> lang cidrOctetRe \<longleftrightarrow> digitVal [a, b, c] \<le> 255"
  by (simp add: cidrOctetRe_def digitVal_Cons) linarith

lemma digit_texts:
  assumes "list_all isDigitU w"
  obtains ds where "w = map ((+) 48) ds" "list_all (\<lambda>d. d < 10) ds" "digitsVal w = digitVal ds" "length ds = length w"
proof
  show "w = map ((+) 48) (map (\<lambda>d. d - 48) w)" using assms by (rule units_of_digits)
qed (use assms in \<open>auto simp: list_all_iff isDigitU_def digitsVal_def\<close>)

lemma cidrOctetRe_iff: "w \<in> lang cidrOctetRe \<longleftrightarrow> looseOctet w"
proof (cases "w \<noteq> [] \<and> length w \<le> 3 \<and> list_all isDigitU w")
  case False
  then show ?thesis using cidrOctetRe_length [of w] by (auto simp: looseOctet_def)
next
  case True
  then obtain ds where ds: "w = map ((+) 48) ds" "list_all (\<lambda>d. d < 10) ds" "digitsVal w = digitVal ds"
    "length ds \<le> 3" "ds \<noteq> []"
    by (metis digit_texts length_0_conv)
  show ?thesis using length_le_3_cases [OF ds(4,5)]
  proof cases
    case (3 a b c)
    then show ?thesis using cidrOctetRe_3 [of a b c] ds True by (simp add: looseOctet_def)
  qed (use ds True in \<open>auto simp: looseOctet_def cidrOctetRe_def digitVal_Cons\<close>)
qed

lemma decUnits_small:
  "n < 10 \<Longrightarrow> decUnits n = [48 + n]"
  "10 \<le> n \<Longrightarrow> n < 100 \<Longrightarrow> decUnits n = [48 + n div 10, 48 + n mod 10]"
  "100 \<le> n \<Longrightarrow> n < 1000 \<Longrightarrow> decUnits n = [48 + n div 100, 48 + n div 10 mod 10, 48 + n mod 10]"
proof -
  have d: "digits n = (if n < 10 then [n] else digits (n div 10) @ [n mod 10])" for n
    by (rule digits.simps)
  have q: "n div 10 div 10 = n div 100" by (simp add: div_mult2_eq [symmetric])
  show "n < 10 \<Longrightarrow> decUnits n = [48 + n]" by (simp add: decUnits_def d [of n])
  show "10 \<le> n \<Longrightarrow> n < 100 \<Longrightarrow> decUnits n = [48 + n div 10, 48 + n mod 10]"
    by (simp add: decUnits_def d [of n] d [of "n div 10"])
  show "100 \<le> n \<Longrightarrow> n < 1000 \<Longrightarrow> decUnits n = [48 + n div 100, 48 + n div 10 mod 10, 48 + n mod 10]"
    using d [of n] d [of "n div 10"] d [of "n div 100"] by (auto simp: decUnits_def q)
qed

text \<open>A text of digits without a superfluous leading zero is the numeral of its value.\<close>

lemma numeral_text:
  assumes "w \<noteq> []" "list_all isDigitU w" "length w = 1 \<or> 48 < hd w" "digitsVal w \<le> k"
  shows "\<exists>n \<le> k. w = decUnits n"
proof -
  have "decUnits (digitsVal w) = w"
  proof (cases "length w = 1")
    case True
    then obtain c where "w = [c]" by (auto simp: length_Suc_conv)
    with assms(2) show ?thesis by (auto simp: isDigitU_def digitsVal_Cons decUnits_small(1))
  qed (use assms decUnits_of_val in blast)
  with assms(4) show ?thesis by metis
qed

lemma maskV4Re_iff: "w \<in> lang maskV4Re \<longleftrightarrow> (\<exists>n \<le> 32. w = decUnits n)"
proof
  assume "w \<in> lang maskV4Re"
  then show "\<exists>n \<le> 32. w = decUnits n"
    by (intro numeral_text) (auto simp: maskV4Re_def isDigitU_def digitsVal_Cons)
next
  assume "\<exists>n \<le> 32. w = decUnits n"
  then obtain n where n: "n \<le> 32" "w = decUnits n" by blast
  show "w \<in> lang maskV4Re"
  proof (cases "n < 10")
    case True
    with n show ?thesis by (simp add: maskV4Re_def decUnits_small)
  next
    case False
    then have "n div 10 = 1 \<or> n div 10 = 2 \<or> (n div 10 = 3 \<and> n mod 10 \<le> 2)" "n mod 10 < 10" using n(1) by presburger+
    with n False show ?thesis by (auto simp: maskV4Re_def decUnits_small)
  qed
qed

lemma maskV6Re_iff: "w \<in> lang maskV6Re \<longleftrightarrow> (\<exists>n \<le> 128. w = decUnits n)"
proof
  assume "w \<in> lang maskV6Re"
  then show "\<exists>n \<le> 128. w = decUnits n"
    by (intro numeral_text) (auto simp: maskV6Re_def isDigitU_def digitsVal_Cons)
next
  assume "\<exists>n \<le> 128. w = decUnits n"
  then obtain n where n: "n \<le> 128" "w = decUnits n" by blast
  then consider "n < 10" | "10 \<le> n" "n < 100" | "100 \<le> n" by linarith
  then show "w \<in> lang maskV6Re"
  proof cases
    case 1
    with n show ?thesis by (simp add: maskV6Re_def decUnits_small)
  next
    case 2
    then have "1 \<le> n div 10 \<and> n div 10 \<le> 9" by presburger
    with n 2 show ?thesis by (simp add: maskV6Re_def decUnits_small)
  next
    case 3
    have "n mod 10 \<le> 9" "n = 10 * (n div 10) + n mod 10" by simp_all
    with n(1) 3 consider "n div 10 = 10" | "n div 10 = 11" | "n div 10 = 12" "n mod 10 \<le> 8" by linarith
    moreover have "n div 100 = 1" using n(1) 3 by linarith
    ultimately show ?thesis using n 3 by cases (simp_all add: maskV6Re_def decUnits_small)
  qed
qed

lemma cidr_no_sep: "u \<in> lang cidrOctetRe \<Longrightarrow> 46 \<notin> set u \<and> 47 \<notin> set u"
  by (auto simp: cidrOctetRe_iff looseOctet_def list_all_iff isDigitU_def)

lemma ipv4Regex_split:
  "w \<in> lang ipv4Regex \<longleftrightarrow> length (splitOn 46 w) = 4 \<and> list_all looseOctet (splitOn 46 w)"
proof -
  have "w \<in> lang (Seq (Times 3 (Seq cidrOctetRe (chr1 46))) cidrOctetRe) \<longleftrightarrow>
      length (splitOn 46 w) = Suc 3 \<and> list_all (\<lambda>p. p \<in> lang cidrOctetRe) (splitOn 46 w)"
    by (rule lang_separated) (simp add: cidr_no_sep)
  then show ?thesis by (simp only: ipv4Regex_def cidrOctetRe_iff) simp
qed


section \<open>Properties\<close>

lemma port_positive: "w \<in> lang portRe \<Longrightarrow> \<not> leNum (toNumber w) (Fin 0)"
proof -
  assume "w \<in> lang portRe"
  then have w: "w \<noteq> []" "list_all isDigitU w" "48 < hd w" by (simp_all add: portRe_iff)
  then have "toNumber w = Fin (of_nat (digitsVal w))" by (intro toNumber_digits) (simp_all add: list_all_iff)
  with digitsVal_pos [of w] w show ?thesis by simp
qed

text \<open>The helpers refuse what the form rules refuse: addresses, ports and IPv6 addresses one by
  one, a host is what is neither address nor domain, and likewise an IP address or domain.\<close>

theorem validate_agrees:
  "checkIp_util v = (checkIp (Some v) \<noteq> Pass) \<and> checkIpV6_util u = (checkIpV6 u \<noteq> Pass) \<and>
   checkPort_util v = (checkPort (Some v) \<noteq> Pass) \<and>
   (checkIp_util v \<and> checkDomain_util v) = (checkHost (Some v) \<noteq> Pass) \<and>
   (checkDomain_util v \<and> checkIpV4V6 v) = (checkIpV4V6OrDomain (Some v) \<noteq> Pass)"
proof (intro conjI)
  show "checkIp_util v = (checkIp (Some v) \<noteq> Pass)"
    by (simp add: checkIp_util_def ip.passes_iff matchRe_iff)
  show "checkIpV6_util u = (checkIpV6 u \<noteq> Pass)"
    by (auto simp: checkIpV6_util_def ipv6.passes_iff matchRe_iff split: option.split)
  have "toNumber [] = Fin 0" by (simp add: toNumber_def trimU_def)
  then show "checkPort_util v = (checkPort (Some v) \<noteq> Pass)"
    using port_positive [of v] by (auto simp: checkPort_util_def port.passes_iff matchRe_iff)
  show "(checkIp_util v \<and> checkDomain_util v) = (checkHost (Some v) \<noteq> Pass)"
    by (simp add: checkIp_util_def checkDomain_util_def checkHost_def)
  show "(checkDomain_util v \<and> checkIpV4V6 v) = (checkIpV4V6OrDomain (Some v) \<noteq> Pass)"
    by (simp add: checkDomain_util_def checkIpV4V6_def checkIpV4V6OrDomain_def)
qed

definition dottedQuad :: "jstr \<Rightarrow> bool" where
  "dottedQuad a \<longleftrightarrow> length (splitOn 46 a) = 4 \<and> list_all looseOctet (splitOn 46 a)"

lemma in_splitOn: "c \<in> set u \<Longrightarrow> c \<noteq> d \<Longrightarrow> \<exists>p \<in> set (splitOn d u). c \<in> set p"
proof (induction u)
  case (Cons x u)
  obtain v vs where "splitOn d u = v # vs" by (cases "splitOn d u") auto
  with Cons show ?case by auto
qed simp

lemma checkCidr_iff:
  "\<not> checkCidr w \<longleftrightarrow> (\<exists>a. splitOn 47 w = [a] \<and> dottedQuad a) \<or>
     (\<exists>a n. splitOn 47 w = [a, decUnits n] \<and> n \<le> 32 \<and> dottedQuad a)"
proof -
  have a: "47 \<notin> set u" if "u \<in> lang ipv4Regex" for u
  proof
    assume "47 \<in> set u"
    then obtain p where "p \<in> set (splitOn 46 u)" "47 \<in> set p" using in_splitOn [of 47 u 46] by auto
    with that have "isDigitU 47" by (auto simp: ipv4Regex_split list_all_iff looseOctet_def)
    then show False by (simp add: isDigitU_def)
  qed
  have m: "47 \<notin> set u" if "u \<in> lang maskV4Re" for u
    using that decUnits_digit [of 47] by (auto simp: maskV4Re_iff isDigitU_def)
  have f: "u \<in> lang (Seq ipv4Regex (Opt (Seq (chr1 47) maskV4Re))) \<longleftrightarrow>
      (\<exists>a. splitOn 47 u = [a] \<and> a \<in> lang ipv4Regex) \<or> (\<exists>a b. splitOn 47 u = [a, b] \<and> a \<in> lang ipv4Regex \<and> b \<in> lang maskV4Re)" for u
    by (rule lang_optional_field) (use a m in auto)
  have "\<not> checkCidr w \<longleftrightarrow> w \<in> lang (Seq ipv4Regex (Opt (Seq (chr1 47) maskV4Re)))"
    unfolding checkCidr_def matchRe_iff f by (cases "w = []") (auto simp: ipv4Regex_split)
  then show ?thesis
    unfolding f by (auto simp: ipv4Regex_split dottedQuad_def maskV4Re_iff)
qed

lemma checkCidrV6_iff:
  "\<not> checkCidrV6 w \<longleftrightarrow> (\<exists>a n rest. splitOn 47 w = a # decUnits n # rest \<and> n \<le> 128 \<and> \<not> checkIpV6_util (Some a))"
proof -
  obtain p ps where p: "splitOn 47 w = p # ps" by (cases "splitOn 47 w") auto
  have u: "units ''undefined'' \<noteq> decUnits n" for n
  proof
    assume e: "units ''undefined'' = decUnits n"
    have "117 \<in> set (decUnits n)" by (simp flip: e add: units_def)
    then show False using decUnits_digit [of 117 n] by (simp add: isDigitU_def)
  qed
  have "w = [] \<Longrightarrow> ps = []" using p by auto
  then show ?thesis
    using u p by (cases ps) (auto simp: checkCidrV6_def matchRe_iff maskV6Re_iff)
qed

text \<open>C34. Which networks in slash notation pass: for IPv4, four octets between dots and at most one
  slash, followed by the numeral of a number up to 32; for IPv6, an address, a slash, the numeral of
  a number up to 128, and anything behind a further slash.\<close>

theorem cidr_networks:
  "(\<not> checkCidr w \<longleftrightarrow> (\<exists>a. splitOn 47 w = [a] \<and> dottedQuad a) \<or>
      (\<exists>a n. splitOn 47 w = [a, decUnits n] \<and> n \<le> 32 \<and> dottedQuad a)) \<and>
   (\<not> checkCidrV6 w \<longleftrightarrow> (\<exists>a n rest. splitOn 47 w = a # decUnits n # rest \<and> n \<le> 128 \<and> \<not> checkIpV6_util (Some a)))"
  using checkCidr_iff checkCidrV6_iff by blast

lemma removeSub_decimal: "c \<notin> set ''0123456789'' \<Longrightarrow> removeSub [c] (decimal n @ [c]) = decimal n"
  using decimal_notin [of c n] by (auto simp: removeSub_single filter_id_conv)

lemma transferTime_decimal:
  "transferTimeToSecond (decimal k @ ''s'') = Fin (of_nat k)"
  "transferTimeToSecond (decimal k @ ''m'') = Fin (of_nat (k * 60))"
  "transferTimeToSecond (decimal k @ ''h'') = Fin (of_nat (k * 3600))"
proof -
  have n: "CHR ''s'' \<notin> set (decimal k)" "CHR ''m'' \<notin> set (decimal k)" by (rule decimal_notin, simp)+
  show "transferTimeToSecond (decimal k @ ''s'') = Fin (of_nat k)"
    "transferTimeToSecond (decimal k @ ''m'') = Fin (of_nat (k * 60))"
    "transferTimeToSecond (decimal k @ ''h'') = Fin (of_nat (k * 3600))"
    using n by (simp_all add: transferTimeToSecond_def removeSub_decimal units_decimal)
qed

text \<open>A number of seconds split into a unit and put together again is the same number.\<close>

theorem time_roundtrip:
  "transferTimeToSecond (decimalInt (fst (splitTimeFromSecond (int n))) @ snd (splitTimeFromSecond (int n))) = Fin (of_nat n)"
proof -
  consider "n \<ge> 3600" "n mod 3600 = 0" | "\<not> (n \<ge> 3600 \<and> n mod 3600 = 0)" "n \<ge> 60" "n mod 60 = 0"
    | "\<not> (n \<ge> 3600 \<and> n mod 3600 = 0)" "\<not> (n \<ge> 60 \<and> n mod 60 = 0)" by argo
  then show ?thesis
  proof cases
    case 1
    then have "splitTimeFromSecond (int n) = (int (n div 3600), ''h'')" "n div 3600 * 3600 = n"
      using zmod_int [of n 3600] div_mult_mod_eq [of n 3600] by (simp_all add: splitTimeFromSecond_def zdiv_int)
    then show ?thesis using transferTime_decimal(3) [of "n div 3600"] by (simp add: decimalInt_def)
  next
    case 2
    then have "splitTimeFromSecond (int n) = (int (n div 60), ''m'')" "n div 60 * 60 = n"
      using zmod_int [of n 60] zmod_int [of n 3600] div_mult_mod_eq [of n 60] by (auto simp: splitTimeFromSecond_def zdiv_int)
    then show ?thesis using transferTime_decimal(2) [of "n div 60"] by (simp add: decimalInt_def)
  next
    case 3
    then have "splitTimeFromSecond (int n) = (int n, ''s'')"
      using zmod_int [of n 60] zmod_int [of n 3600] by (auto simp: splitTimeFromSecond_def)
    then show ?thesis using transferTime_decimal(1) [of n] by (simp add: decimalInt_def)
  qed
qed

lemma checkLines_iff: "checkLines ls = Pass \<longleftrightarrow> (\<forall>l \<in> set ls. l \<noteq> [] \<longrightarrow> \<not> badAddress l)"
  by (induction ls) auto

text \<open>Every line of an accepted list of allowed addresses is an address or a network, and none of
  the four that stand for everyone; but a network of prefix length 0 is accepted.\<close>

lemma checkIPs_lines:
  assumes "checkIPs (Some w) = Pass" "trimU w \<noteq> []" "l \<in> set (splitOn 10 w)" "l \<noteq> []"
  shows "l \<notin> set wildcards" "\<not> checkCidrV6 l \<or> \<not> checkCidr l \<or> \<not> checkIpV4V6 l"
  using assms by (auto simp: checkIPs_def checkLines_iff badAddress_def split: if_splits)

lemma checkIPs_everyone: "checkIPs (Some (units ''1.1.1.1/0'')) = Pass"
proof -
  have "dottedQuad (units ''1.1.1.1'')"
    by (simp add: dottedQuad_def units_def looseOctet_def isDigitU_def digitsVal_Cons)
  then have "\<not> checkCidr (units ''1.1.1.1/0'')"
    unfolding checkCidr_iff by (intro disjI2 exI [of _ "units ''1.1.1.1''"] exI [of _ 0]) (simp add: units_def decUnits_small)
  then show ?thesis
    by (simp add: checkIPs_def badAddress_def wildcards_def units_def trimU_def isSpaceU_def)
qed

end
