(* ===== verification/Versions.thy ===== *)
theory Versions
  imports Prelude "HOL-Library.List_Lexorder"
begin

text \<open>
  Version numbers (\<open>utils/version.ts\<close>) and what the agent pages derive from them
  (\<open>utils/agent.ts\<close>): the access scheme of an installed agent and the origins it allows.
  \<open>parseInt\<close> of a run of digits is its value, which the language rounds beyond 2 to the 53.
  The browser's URL parser is a parameter; the messages of errors are their translation keys.
\<close>

section \<open>Versions\<close>

definition isDigit :: "char \<Rightarrow> bool" where
  "isDigit c = (let n = (of_char c :: nat) in 48 \<le> n \<and> n \<le> 57)"

text \<open>The loop of \<open>extractNumbers\<close> at position \<open>i\<close>, \<open>start\<close> the first digit of the current run or -1.\<close>

function extractLoop :: "string \<Rightarrow> nat \<Rightarrow> int \<Rightarrow> string list \<Rightarrow> int \<times> string list" where
  "extractLoop version i start numbers =
     (if i < length version then
        (if isDigit (version ! i) then
           extractLoop version (i + 1) (if start = -1 then int i else start) numbers
         else if start \<noteq> -1 then
           extractLoop version (i + 1) (-1) (numbers @ [take (i - nat start) (drop (nat start) version)])
         else extractLoop version (i + 1) start numbers)
      else (start, numbers))"
  by pat_completeness auto
termination by (relation "measure (\<lambda>(v, i, s, n). length v - i)") auto

declare extractLoop.simps [simp del]

definition extractNumbers :: "string \<Rightarrow> string list" where
  "extractNumbers version =
     (let (start, numbers) = extractLoop version 0 (-1) []
      in if start \<noteq> -1 then numbers @ [drop (nat start) version] else numbers)"

definition parseDigits :: "string \<Rightarrow> nat" where
  "parseDigits s = digitVal (map (\<lambda>c. of_char c - 48) s)"

fun compareFrom :: "string list \<Rightarrow> string list \<Rightarrow> bool" where
  "compareFrom (a # as) (b # bs) =
     (let v1 = parseDigits a; v2 = parseDigits b in if v1 \<noteq> v2 then v1 > v2 else compareFrom as bs)"
| "compareFrom as bs = True"

definition compareVersion :: "string \<Rightarrow> string \<Rightarrow> bool" where
  "compareVersion version1 version2 =
     (let v1s = extractNumbers version1; v2s = extractNumbers version2;
          maxLen = max (length v1s) (length v2s);
          v1s' = v1s @ replicate (maxLen - length v1s) ''0'';
          v2s' = v2s @ replicate (maxLen - length v2s) ''0''
      in compareFrom v1s' v2s')"


section \<open>Agents\<close>

definition openclawHTTPSVersion :: string where "openclawHTTPSVersion = ''2026.3.13''"
definition openclawHTTPVersion :: string where "openclawHTTPVersion = ''2026.3.23''"
definition openclawDefaultAccessHost :: string where "openclawDefaultAccessHost = ''127.0.0.1''"

text \<open>A missing display name is empty; \<open>t\<close> translates.\<close>

definition getAgentProviderDisplayName :: "(string \<Rightarrow> string) \<Rightarrow> string \<Rightarrow> string \<Rightarrow> string" where
  "getAgentProviderDisplayName t provider displayName =
     (if provider = ''custom'' \<or> displayName = ''Custom'' then t ''container.custom''
      else if provider = ''vllm'' \<or> displayName = ''vLLM'' then ''vLLM''
      else if displayName \<noteq> [] then displayName else provider)"

definition isAgentAccountVerificationSkipped :: "string option \<Rightarrow> bool" where
  "isAgentAccountVerificationSkipped provider =
     (toLowerCase (case provider of Some p \<Rightarrow> p | None \<Rightarrow> []) \<in> set [''vllm'', ''ollama'', ''llmman'', ''kimi-coding''])"

definition supportsAgentModelConfig :: "string \<Rightarrow> bool" where
  "supportsAgentModelConfig agentType = (agentType = ''openclaw'' \<or> agentType = ''hermes-agent'')"

definition supportsAgentToken :: "string \<Rightarrow> bool" where
  "supportsAgentToken agentType = (agentType = ''openclaw'')"

definition supportsAgentDashboardAuth :: "string \<Rightarrow> bool" where
  "supportsAgentDashboardAuth agentType = (agentType = ''hermes-agent'' \<or> agentType = ''copaw'')"

definition isOpenclawHTTPSWindowVersion :: "string \<Rightarrow> bool" where
  "isOpenclawHTTPSWindowVersion version =
     (compareVersion version openclawHTTPSVersion \<and> \<not> compareVersion version openclawHTTPVersion)"

definition isOpenclawCurrentHTTPVersion :: "string \<Rightarrow> bool" where
  "isOpenclawCurrentHTTPVersion version = compareVersion version openclawHTTPVersion"

definition getOpenclawAccessScheme :: "string \<Rightarrow> string" where
  "getOpenclawAccessScheme version = (if isOpenclawHTTPSWindowVersion version then ''https'' else ''http'')"

text \<open>\<open>port\<close> is the text of the port, empty when it is missing or 0; an empty version is a missing one.\<close>

definition buildDefaultAllowedOrigin :: "string \<Rightarrow> string \<Rightarrow> string \<Rightarrow> string" where
  "buildDefaultAllowedOrigin systemIP port version =
     (let target = (if trim systemIP \<noteq> [] then trim systemIP else openclawDefaultAccessHost)
      in if port = [] then []
         else
           (let host = (if CHR '':'' \<in> set target \<and> \<not> prefix ''['' target \<and> \<not> suffix '']'' target
                        then ''['' @ target @ '']'' else target)
            in getOpenclawAccessScheme version @ ''://'' @ host @ '':'' @ port))"

record URL =
  protocol :: string
  username :: string
  password :: string
  search :: string
  hash :: string
  pathname :: string
  host :: string

definition normalizeAllowedOrigin :: "(string \<Rightarrow> URL option) \<Rightarrow> string \<Rightarrow> string + string" where
  "normalizeAllowedOrigin parseURL v =
     (let target = trim v; invalid = Inl ''aiTools.agents.allowedOriginsInvalid''
      in if target = [] then invalid
         else case parseURL target of
                None \<Rightarrow> invalid
              | Some p \<Rightarrow>
                  if protocol p \<noteq> ''http:'' \<and> protocol p \<noteq> ''https:'' then invalid
                  else if username p \<noteq> [] \<or> password p \<noteq> [] \<or> search p \<noteq> [] \<or> hash p \<noteq> [] then invalid
                  else if pathname p \<noteq> [] \<and> pathname p \<noteq> ''/'' then invalid
                  else if host p = [] then invalid
                  else Inr (protocol p @ ''//'' @ host p))"

text \<open>\<open>split (/\r?\n/)\<close>: at line feeds, dropping one carriage return before each.\<close>

definition dropCR :: "string \<Rightarrow> string" where
  "dropCR l = (if l \<noteq> [] \<and> last l = CHR 0x0D then butlast l else l)"

definition splitLines :: "string \<Rightarrow> string list" where
  "splitLines s = (let ls = splitOn (CHR 0x0A) s in map dropCR (butlast ls) @ [last ls])"

fun collectOrigins :: "(string \<Rightarrow> URL option) \<Rightarrow> string set \<Rightarrow> string list \<Rightarrow> string list \<Rightarrow> string + string list" where
  "collectOrigins parseURL seen result [] = Inr result"
| "collectOrigins parseURL seen result (line # rest) =
     (let target = trim line
      in if target = [] then collectOrigins parseURL seen result rest
         else case normalizeAllowedOrigin parseURL target of
                Inl e \<Rightarrow> Inl e
              | Inr normalized \<Rightarrow>
                  if normalized \<in> seen then collectOrigins parseURL seen result rest
                  else collectOrigins parseURL (insert normalized seen) (result @ [normalized]) rest)"

definition parseAllowedOriginsInput :: "(string \<Rightarrow> URL option) \<Rightarrow> string \<Rightarrow> string + string list" where
  "parseAllowedOriginsInput parseURL v = collectOrigins parseURL {} [] (splitLines v)"

definition validateAllowedOriginsInput :: "(string \<Rightarrow> URL option) \<Rightarrow> string \<Rightarrow> string" where
  "validateAllowedOriginsInput parseURL v =
     (case parseAllowedOriginsInput parseURL v of
        Inl message \<Rightarrow> if message \<noteq> [] then message else ''aiTools.agents.allowedOriginsInvalid''
      | Inr parsed \<Rightarrow> if length parsed = 0 then ''aiTools.agents.allowedOriginsRequired'' else [])"


section \<open>The numbers of a version\<close>

text \<open>The loop collects the maximal runs of digits.\<close>

function digitRuns :: "string \<Rightarrow> string list" where
  "digitRuns [] = []"
| "digitRuns (c # s) =
     (if isDigit c then (c # takeWhile isDigit s) # digitRuns (dropWhile isDigit s) else digitRuns s)"
  by pat_completeness auto
termination by (relation "measure length") (auto simp: le_imp_less_Suc length_dropWhile_le)

lemma digitRuns_run:
  assumes "r \<noteq> []" "list_all isDigit r" "s = [] \<or> \<not> isDigit (hd s)"
  shows "digitRuns (r @ s) = r # digitRuns s"
proof -
  obtain c cs where r: "r = c # cs" using assms(1) by (cases r) auto
  have "takeWhile isDigit (cs @ s) = cs" "dropWhile isDigit (cs @ s) = s"
    using assms(2,3) r by (cases s; auto simp: list_all_iff takeWhile_append dropWhile_append)+
  with assms(2) r show ?thesis by simp
qed

lemma drop_split: "s \<le> i \<Longrightarrow> drop s v = take (i - s) (drop s v) @ drop i v"
  by (metis append_take_drop_id drop_drop le_add_diff_inverse2)

lemma extractLoop_runs:
  assumes "i \<le> length version"
    and "start = -1 \<or> (\<exists>s. start = int s \<and> s < i \<and> list_all isDigit (take (i - s) (drop s version)))"
  shows "(let (st, ns) = extractLoop version i start numbers in if st \<noteq> -1 then ns @ [drop (nat st) version] else ns) =
    numbers @ digitRuns (drop (if start = -1 then i else nat start) version)"
  using assms
proof (induction version i start numbers rule: extractLoop.induct)
  case (1 version i start numbers)
  note IH = "1.IH" and prems = "1.prems"
  show ?case
  proof (cases "i < length version")
    case False
    show ?thesis
    proof (cases "start = -1")
      case True
      with False prems show ?thesis by (subst extractLoop.simps) simp
    next
      case start: False
      then obtain s where s: "start = int s" "s < i" "list_all isDigit (take (i - s) (drop s version))" using prems(2) by blast
      then have "list_all isDigit (drop s version)" "drop s version \<noteq> []" using False prems(1) by auto
      then have "digitRuns (drop s version) = [drop s version]" using digitRuns_run [of "drop s version" "[]"] by simp
      with False start s(1) show ?thesis by (subst extractLoop.simps) simp
    qed
  next
    case less: True
    have here: "drop i version = version ! i # drop (Suc i) version" using less by (simp add: Cons_nth_drop_Suc)
    consider "isDigit (version ! i)" | "\<not> isDigit (version ! i)" "start \<noteq> -1" | "\<not> isDigit (version ! i)" "start = -1" by blast
    then show ?thesis
    proof cases
      case 1
      have inv: "\<exists>s. (if start = -1 then int i else start) = int s \<and> s < i + 1 \<and> list_all isDigit (take (i + 1 - s) (drop s version))"
      proof (cases "start = -1")
        case True
        with 1 here show ?thesis by (intro exI [of _ i]) simp
      next
        case False
        then obtain s where s: "start = int s" "s < i" "list_all isDigit (take (i - s) (drop s version))" using prems(2) by blast
        then have "take (i + 1 - s) (drop s version) = take (i - s) (drop s version) @ [version ! i]"
          using less take_Suc_conv_app_nth [of "i - s" "drop s version"] by (simp add: Suc_diff_le)
        with s 1 show ?thesis by (intro exI [of _ s]) simp
      qed
      then have "(if start = -1 then int i else start) \<noteq> -1" by auto
      with 1 less IH(1) inv show ?thesis by (subst extractLoop.simps) (auto split: if_splits)
    next
      case 2
      then obtain s where s: "start = int s" "s < i" "list_all isDigit (take (i - s) (drop s version))" using prems(2) by blast
      have "digitRuns (drop s version) = take (i - s) (drop s version) # digitRuns (drop i version)"
        using digitRuns_run [of "take (i - s) (drop s version)" "drop i version"] drop_split [of s i version] s 2 less here by simp
      with 2 less IH(2) s(1) here show ?thesis by (subst extractLoop.simps) simp
    next
      case 3
      with less IH(3) here show ?thesis by (subst extractLoop.simps) simp
    qed
  qed
qed

lemma extractNumbers_runs: "extractNumbers version = digitRuns version"
  using extractLoop_runs [of 0 version "-1" "[]"] by (simp add: extractNumbers_def)

text \<open>Versions compare by their numbers, the shorter list continued with zeros.\<close>

fun geqNums :: "nat list \<Rightarrow> nat list \<Rightarrow> bool" where
  "geqNums [] [] = True"
| "geqNums (a # as) [] = (a > 0 \<or> geqNums as [])"
| "geqNums [] (b # bs) = (b = 0 \<and> geqNums [] bs)"
| "geqNums (a # as) (b # bs) = (if a \<noteq> b then a > b else geqNums as bs)"

lemma parseDigits_0 [simp]: "parseDigits ''0'' = 0"
  by (simp add: parseDigits_def digitVal_def)

lemma compareFrom_pad:
  "compareFrom (as @ replicate (max (length as) (length bs) - length as) ''0'')
     (bs @ replicate (max (length as) (length bs) - length bs) ''0'') = geqNums (map parseDigits as) (map parseDigits bs)"
proof (induction "map parseDigits as" "map parseDigits bs" arbitrary: as bs rule: geqNums.induct)
  case 1
  then show ?case by simp
next
  case (2 a as')
  then show ?case by (auto simp: Let_def split: if_splits)
next
  case (3 b bs')
  then show ?case by (auto simp: Let_def split: if_splits)
next
  case (4 a as' b bs')
  then show ?case by (auto simp: Let_def)
qed

lemma compareVersion_geq:
  "compareVersion v w = geqNums (map parseDigits (digitRuns v)) (map parseDigits (digitRuns w))"
  by (simp add: compareVersion_def Let_def extractNumbers_runs compareFrom_pad)

lemma geqNums_refl: "geqNums as as"
  by (induction as) auto

lemma geqNums_total: "geqNums as bs \<or> geqNums bs as"
  by (induction as bs rule: geqNums.induct) auto

lemma geqNums_Nil: "geqNums as []"
  by (induction as) auto

lemma geqNums_trans: "geqNums as bs \<Longrightarrow> geqNums bs cs \<Longrightarrow> geqNums as cs"
proof (induction as bs arbitrary: cs rule: geqNums.induct)
  case 1
  then show ?case by simp
next
  case (2 a as)
  then show ?case by (cases cs) (auto split: if_splits)
next
  case (3 b bs)
  then show ?case by (cases cs) (auto split: if_splits)
next
  case (4 a as b bs)
  then show ?case by (cases cs) (auto simp: geqNums_Nil split: if_splits)
qed

lemma geqNums_lex: "length as = length bs \<Longrightarrow> geqNums as bs \<longleftrightarrow> bs \<le> as"
  by (induction as bs rule: list_induct2) (auto simp: Cons_le_Cons)

lemma isDigit_decimal: "list_all isDigit (decimal n)"
  by (auto simp: list_all_iff isDigit_def dest!: decimal_chars)

lemma parseDigits_decimal [simp]: "parseDigits (decimal n) = n"
proof -
  have "map (\<lambda>c. of_char c - 48 :: nat) (decimal n) = map (\<lambda>x. x - 48) (map of_char (decimal n))" by simp
  also have "\<dots> = digits n" by (simp only: units_decimal_digits) (simp add: comp_def)
  finally show ?thesis by (simp only: parseDigits_def digits_val)
qed

lemma digitRuns_dotted: "digitRuns (joinWith ''.'' (map decimal ns)) = map decimal ns"
proof (induction ns rule: induct_list012)
  case (2 n)
  then show ?case using digitRuns_run [of "decimal n" "[]"] isDigit_decimal by simp
next
  case (3 n m ns)
  have "digitRuns (''.'' @ s) = digitRuns s" for s by (simp add: isDigit_def)
  then show ?case
    using digitRuns_run [of "decimal n" "''.'' @ joinWith ''.'' (map decimal (m # ns))"] isDigit_decimal 3
    by (simp add: isDigit_def)
qed simp

text \<open>Versions are totally preordered, and on dotted decimal versions of the same number of
  parts the order is the lexicographic order of the numbers.\<close>

theorem compareVersion_order:
  "compareVersion v v \<and> (compareVersion v w \<or> compareVersion w v) \<and>
   (compareVersion u v \<and> compareVersion v w \<longrightarrow> compareVersion u w) \<and>
   (length ns = length ms \<longrightarrow>
      compareVersion (joinWith ''.'' (map decimal ns)) (joinWith ''.'' (map decimal ms)) = (ms \<le> ns))"
proof (intro conjI impI)
  show "compareVersion v v" "compareVersion v w \<or> compareVersion w v"
    using geqNums_total by (simp_all add: compareVersion_geq geqNums_refl)
  show "compareVersion u w" if "compareVersion u v \<and> compareVersion v w"
    using that geqNums_trans unfolding compareVersion_geq by blast
  show "compareVersion (joinWith ''.'' (map decimal ns)) (joinWith ''.'' (map decimal ms)) = (ms \<le> ns)"
    if "length ns = length ms"
    using that by (simp add: compareVersion_geq digitRuns_dotted comp_def geqNums_lex)
qed

theorem compareVersion_order_witness:
  "compareVersion (joinWith ''.'' (map decimal [2026, 3, 23])) (joinWith ''.'' (map decimal [2026, 3, 13])) \<and>
   \<not> compareVersion (joinWith ''.'' (map decimal [2026, 3, 9])) (joinWith ''.'' (map decimal [2026, 3, 13]))"
proof -
  have "[2026, 3, 13] \<le> [2026, 3, 23 :: nat]" "\<not> [2026, 3, 13] \<le> [2026, 3, 9 :: nat]" by (simp_all add: Cons_le_Cons)
  moreover have "length [2026, 3, n :: nat] = length [2026, 3, 13 :: nat]" for n by simp
  ultimately show ?thesis
    using compareVersion_order [of "[]" "[]" "[]" "[2026, 3, 23]" "[2026, 3, 13]"]
      compareVersion_order [of "[]" "[]" "[]" "[2026, 3, 9]" "[2026, 3, 13]"] by blast
qed


section \<open>Allowed origins\<close>

lemma normalize_error: "normalizeAllowedOrigin parseURL v = Inl e \<Longrightarrow> e = ''aiTools.agents.allowedOriginsInvalid''"
  by (auto simp: normalizeAllowedOrigin_def Let_def split: if_splits option.splits)

lemma normalize_ok:
  assumes "normalizeAllowedOrigin parseURL v = Inr r"
  obtains p where "parseURL (trim v) = Some p" "protocol p = ''http:'' \<or> protocol p = ''https:''" "host p \<noteq> []"
    "r = protocol p @ ''//'' @ host p"
  using assms by (auto simp: normalizeAllowedOrigin_def Let_def split: if_splits option.splits)

definition wanted :: "string list \<Rightarrow> string list" where
  "wanted ls = filter (\<lambda>t. t \<noteq> []) (map trim ls)"

lemma wanted_simps [simp]:
  "wanted [] = []" "wanted (l # ls) = (if trim l = [] then wanted ls else trim l # wanted ls)"
  by (simp_all add: wanted_def)

lemma collectOrigins_spec:
  "collectOrigins parseURL (set result) result ls =
     (if list_all (\<lambda>t. \<not> isl (normalizeAllowedOrigin parseURL t)) (wanted ls)
      then Inr (result @ dedupBy (\<lambda>x. x) (set result) (map (\<lambda>t. projr (normalizeAllowedOrigin parseURL t)) (wanted ls)))
      else Inl ''aiTools.agents.allowedOriginsInvalid'')"
proof (induction ls arbitrary: result)
  case (Cons l ls)
  show ?case
  proof (cases "normalizeAllowedOrigin parseURL (trim l)")
    case (Inl e)
    then show ?thesis using Cons.IH [of result] normalize_error [OF Inl] by simp
  next
    case (Inr r)
    then show ?thesis using Cons.IH [of result] Cons.IH [of "result @ [r]"] by (simp add: Let_def)
  qed
qed simp

text \<open>What the code relies on of the browser's parser: an origin parses to itself, without user,
  query, fragment or path, and hosts have no white space.\<close>

definition originLaws :: "(string \<Rightarrow> URL option) \<Rightarrow> bool" where
  "originLaws parseURL \<longleftrightarrow>
     (\<forall>s p. parseURL s = Some p \<and> (protocol p = ''http:'' \<or> protocol p = ''https:'') \<and> host p \<noteq> [] \<longrightarrow>
        list_all (\<lambda>c. \<not> isSpace c) (host p) \<and>
        parseURL (protocol p @ ''//'' @ host p) =
          Some \<lparr>protocol = protocol p, username = [], password = [], search = [], hash = [], pathname = ''/'', host = host p\<rparr>)"

lemma normalize_fixed:
  assumes "originLaws parseURL" "normalizeAllowedOrigin parseURL v = Inr r"
  shows "normalizeAllowedOrigin parseURL r = Inr r \<and> r \<noteq> [] \<and> list_all (\<lambda>c. \<not> isSpace c) r"
proof -
  obtain p where p: "parseURL (trim v) = Some p" "protocol p = ''http:'' \<or> protocol p = ''https:''" "host p \<noteq> []"
    "r = protocol p @ ''//'' @ host p"
    using assms(2) by (rule normalize_ok)
  then have h: "list_all (\<lambda>c. \<not> isSpace c) (host p)"
    and u: "parseURL r = Some \<lparr>protocol = protocol p, username = [], password = [], search = [], hash = [], pathname = ''/'', host = host p\<rparr>"
    using assms(1) unfolding originLaws_def p(4) by blast+
  have s: "list_all (\<lambda>c. \<not> isSpace c) r" using p(2,4) h by (auto simp: isSpace_def)
  then have "trim r = r" by (intro trim_id) (simp add: list_all_iff)
  with u p(2,3,4) s show ?thesis by (auto simp: normalizeAllowedOrigin_def)
qed

lemma splitLines_join:
  assumes "\<forall>r \<in> set rs. r \<noteq> [] \<and> list_all (\<lambda>c. \<not> isSpace c) r"
  shows "wanted (splitLines (joinWith [CHR 0x0A] rs)) = rs"
proof (cases "rs = []")
  case True
  then show ?thesis by (simp add: wanted_def splitLines_def)
next
  case False
  have sp: "isSpace (CHR 0x0A)" "isSpace (CHR 0x0D)" by (simp_all add: isSpace_def)
  then have "\<forall>r \<in> set rs. CHR 0x0A \<notin> set r" using assms by (auto simp: list_all_iff)
  then have s: "splitOn (CHR 0x0A) (joinWith [CHR 0x0A] rs) = rs" using False by (intro splitOn_join)
  have "dropCR r = r" if "r \<in> set rs" for r
  proof -
    have "last r \<in> set r" "list_all (\<lambda>c. \<not> isSpace c) r" using assms that by auto
    then have "\<not> isSpace (last r)" by (simp add: list_all_iff)
    then show ?thesis using sp(2) by (auto simp only: dropCR_def split: if_splits)
  qed
  then have "map dropCR (butlast rs) = butlast rs" by (intro map_idI) (metis in_set_butlastD)
  then have "splitLines (joinWith [CHR 0x0A] rs) = rs" using False by (simp add: splitLines_def s)
  moreover have "map trim rs = rs" using assms by (intro map_idI trim_id) (auto simp: list_all_iff)
  ultimately show ?thesis using assms by (simp add: wanted_def)
qed

text \<open>The origins read from a text are distinct and final: each normalises to itself, and
  writing them one to a line and reading the text again gives them back.\<close>

theorem allowed_origins_stable:
  assumes "originLaws parseURL" "parseAllowedOriginsInput parseURL v = Inr rs"
  shows "distinct rs \<and> list_all (\<lambda>r. normalizeAllowedOrigin parseURL r = Inr r) rs \<and>
    parseAllowedOriginsInput parseURL (joinWith [CHR 0x0A] rs) = Inr rs"
proof -
  let ?n = "normalizeAllowedOrigin parseURL" and ?ts = "wanted (splitLines v)"
  have ok: "list_all (\<lambda>t. \<not> isl (?n t)) ?ts" and rs: "rs = nub (map (\<lambda>t. projr (?n t)) ?ts)"
    using assms(2) collectOrigins_spec [of parseURL "[]" "splitLines v"] by (simp_all add: parseAllowedOriginsInput_def split: if_splits)
  have fixed: "?n r = Inr r \<and> r \<noteq> [] \<and> list_all (\<lambda>c. \<not> isSpace c) r" if "r \<in> set rs" for r
  proof -
    from that rs obtain t where "t \<in> set ?ts" "r = projr (?n t)" by auto
    with ok have "?n t = Inr r" by (auto simp: list_all_iff sum.collapse)
    then show ?thesis by (rule normalize_fixed [OF assms(1)])
  qed
  then have w: "wanted (splitLines (joinWith [CHR 0x0A] rs)) = rs" by (intro splitLines_join) blast
  have "map (\<lambda>t. projr (?n t)) rs = rs" using fixed by (intro map_idI) simp
  moreover have d: "distinct rs" using rs by simp
  ultimately have "nub (map (\<lambda>t. projr (?n t)) rs) = rs" using dedupBy_id [of "\<lambda>x. x" rs "{}"] by simp
  moreover have "list_all (\<lambda>t. \<not> isl (?n t)) rs" "list_all (\<lambda>r. ?n r = Inr r) rs" using fixed by (auto simp: list_all_iff)
  ultimately show ?thesis
    using d collectOrigins_spec [of parseURL "[]" "splitLines (joinWith [CHR 0x0A] rs)"]
    by (simp add: parseAllowedOriginsInput_def w)
qed

text \<open>A parser of plain origins over http.\<close>

definition plainURL :: "string \<Rightarrow> URL option" where
  "plainURL s = (let h = drop 7 s in
     if prefix ''http://'' s \<and> h \<noteq> [] \<and> list_all (\<lambda>c. \<not> isSpace c \<and> c \<noteq> CHR ''/'') h
     then Some \<lparr>protocol = ''http:'', username = [], password = [], search = [], hash = [], pathname = ''/'', host = h\<rparr>
     else None)"

lemma plainURL_laws: "originLaws plainURL"
  by (auto simp: originLaws_def plainURL_def Let_def list_all_iff split: if_splits)

theorem allowed_origins_stable_witness:
  "parseAllowedOriginsInput plainURL (joinWith [CHR 0x0A] [''http://a:80'']) = Inr [''http://a:80'']"
proof -
  have "parseAllowedOriginsInput plainURL (''http://a:80'' @ [CHR 0x0D, CHR 0x0A] @ '' http://a:80'') = Inr [''http://a:80'']"
    by (simp add: parseAllowedOriginsInput_def splitLines_def dropCR_def trim_def isSpace_def normalizeAllowedOrigin_def plainURL_def)
  from allowed_origins_stable [OF plainURL_laws this] show ?thesis by blast
qed

end
