(* ===== verification/Route_Table.thy ===== *)
theory Route_Table
  imports Router_Guard
begin

text \<open>
  The route table: the twelve modules of \<open>routers/modules\<close> and \<open>routers/router.ts\<close>, which sorts
  them, derives the menu from them and adds the home, login, licence, share and entrance
  records. Components, \<open>props\<close> and the meta fields that nothing reads (\<open>key\<close>, \<open>requiresAuth\<close>)
  are left out. The extension directories are absent from the repository, so the merge of
  \<open>extensions/routes.ts\<close> adds nothing. Nested paths, matched records and merged meta follow
  the router's documentation.
\<close>

section \<open>Records\<close>

record RouteMeta = RouteAccessMeta +
  mtitle :: string
  micon :: string
  mparent :: string
  mdetail :: string
  mhideInSidebar :: bool

datatype redirect = RedirectPath string | RedirectName string | RedirectToAvailableSetting

record RouteInfo =
  rawSort :: "int option"
  rawPath :: string
  rawName :: "string option"
  rawRedirect :: "redirect option"
  rawHidden :: bool
  rawMeta :: "RouteMeta option"

datatype RouteRecordRaw = RouteRaw (info: RouteInfo) (children: "RouteRecordRaw list option")

definition noMeta :: RouteMeta where
  "noMeta = \<lparr>adminOnly = False, protectedRoleOnly = False, permission = PUndef, activeMenu = [],
     ignoreTab = False, mtitle = [], micon = [], mparent = [], mdetail = [], mhideInSidebar = False\<rparr>"

definition noInfo :: RouteInfo where
  "noInfo = \<lparr>rawSort = None, rawPath = [], rawName = None, rawRedirect = None, rawHidden = False, rawMeta = None\<rparr>"


section \<open>Modules\<close>

definition settingPermissions :: "string list" where
  "settingPermissions = [''alert_view'', ''backup_view'']"

definition redirectToAvailableSetting :: "world \<Rightarrow> string \<times> world" where
  "redirectToAvailableSetting w =
     (if isAdmin (store w) then (''/settings/panel'', w)
      else
        (let a = hasPermission ''alert_view'' w
         in if fst a then (''/settings/alert'', snd a)
            else
              (let b = hasPermission ''backup_view'' (snd a)
               in if fst b then (''/settings/backupaccount'', snd b) else (''/settings/panel'', snd b))))"

definition aiRouter :: RouteRecordRaw where
  "aiRouter = RouteRaw (noInfo\<lparr>rawSort := Some 4, rawPath := ''/ai'', rawName := Some ''AI-Menu'',
      rawRedirect := Some (RedirectPath ''/ai/model/account''),
         rawMeta := Some (noMeta\<lparr>micon := ''p-jiqiren2'', mtitle := ''menu.aiTools''\<rparr>)\<rparr>)
       (Some [
         RouteRaw (noInfo\<lparr>rawPath := ''/ai/agents/agent'', rawName := Some ''Agents'',
             rawMeta := Some (noMeta\<lparr>micon := ''p-jiqiren2'', mtitle := ''aiTools.agents.agent'',
                 permission := PStr ''ai_agent_view''\<rparr>)\<rparr>) None,
         RouteRaw (noInfo\<lparr>rawPath := ''/ai/model/account'', rawName := Some ''AIModel'',
             rawMeta := Some (noMeta\<lparr>micon := ''p-moxing-menu'', mtitle := ''aiTools.model.model'',
                 permission := PStr ''ai_model_view''\<rparr>)\<rparr>) None,
         RouteRaw (noInfo\<lparr>rawPath := ''/ai/model/local'', rawName := Some ''LocalModel'', rawHidden := True,
             rawMeta := Some (noMeta\<lparr>mtitle := ''aiTools.model.localModel'',
                 activeMenu := ''/ai/model/account'',
                 permission := PStr ''ai_model_view''\<rparr>)\<rparr>) None,
         RouteRaw (noInfo\<lparr>rawPath := ''/ai/mcp'', rawName := Some ''MCPServer'',
             rawMeta := Some (noMeta\<lparr>micon := ''p-mcp-menu'', mtitle := ''menu.mcp'',
                 permission := PStr ''ai_mcp_view''\<rparr>)\<rparr>) None,
         RouteRaw (noInfo\<lparr>rawPath := ''/ai/gpu/current'', rawName := Some ''GPU'',
             rawMeta := Some (noMeta\<lparr>micon := ''p-gpu-menu'', mtitle := ''aiTools.gpu.gpu'',
                 activeMenu := ''/ai/gpu/current'', permission := PStr ''ai_gpu_view''\<rparr>)\<rparr>) None,
         RouteRaw (noInfo\<lparr>rawPath := ''/ai/gpu/history'', rawName := Some ''GPUHistory'', rawHidden := True,
             rawMeta := Some (noMeta\<lparr>mtitle := ''aiTools.gpu.history'', activeMenu := ''/ai/gpu/current'',
                 permission := PStr ''ai_gpu_view''\<rparr>)\<rparr>) None])"

definition appStoreRouter :: RouteRecordRaw where
  "appStoreRouter = RouteRaw (noInfo\<lparr>rawSort := Some 2, rawPath := ''/apps'', rawName := Some ''App-Menu'',
      rawRedirect := Some (RedirectPath ''/apps/all''),
         rawMeta := Some (noMeta\<lparr>micon := ''p-appstore'', mtitle := ''menu.apps'',
             permission := PStr ''app_view''\<rparr>)\<rparr>)
       (Some [
         RouteRaw (noInfo\<lparr>rawPath := ''/apps'', rawName := Some ''App'',
             rawRedirect := Some (RedirectPath ''/apps/all''),
             rawMeta := Some (noMeta\<lparr>permission := PStr ''app_view''\<rparr>)\<rparr>)
           (Some [
             RouteRaw (noInfo\<lparr>rawPath := ''all'', rawName := Some ''AppAll'', rawHidden := True,
                 rawMeta := Some (noMeta\<lparr>activeMenu := ''/apps'', mparent := ''menu.app'',
                     mtitle := ''app.all'', permission := PStr ''app_view''\<rparr>)\<rparr>) None,
             RouteRaw (noInfo\<lparr>rawPath := ''installed'', rawName := Some ''AppInstalled'', rawHidden := True,
                 rawMeta := Some (noMeta\<lparr>activeMenu := ''/apps'', mparent := ''menu.app'',
                     mtitle := ''app.installed'', permission := PStr ''app_view''\<rparr>)\<rparr>) None,
             RouteRaw (noInfo\<lparr>rawPath := ''upgrade'', rawName := Some ''AppUpgrade'', rawHidden := True,
                 rawMeta := Some (noMeta\<lparr>activeMenu := ''/apps'', mparent := ''menu.app'',
                     mtitle := ''app.canUpgrade'', permission := PStr ''app_view''\<rparr>)\<rparr>) None,
             RouteRaw (noInfo\<lparr>rawPath := ''setting'', rawName := Some ''AppStoreSetting'', rawHidden := True,
                 rawMeta := Some (noMeta\<lparr>activeMenu := ''/apps'', mparent := ''menu.app'',
                     mtitle := ''commons.button.set'',
                     permission := PStr ''app_view''\<rparr>)\<rparr>) None])])"

definition containerRouter :: RouteRecordRaw where
  "containerRouter = RouteRaw (noInfo\<lparr>rawSort := Some 6, rawPath := ''/containers'',
      rawName := Some ''Container-Menu'', rawRedirect := Some (RedirectPath ''/containers/container''),
         rawMeta := Some (noMeta\<lparr>micon := ''p-docker1'', mtitle := ''menu.container'',
             permission := PStr ''container_view''\<rparr>)\<rparr>)
       (Some [
         RouteRaw (noInfo\<lparr>rawPath := ''/containers'', rawName := Some ''Container'',
             rawRedirect := Some (RedirectPath ''/containers/dashboard''),
             rawMeta := Some noMeta\<rparr>)
           (Some [
             RouteRaw (noInfo\<lparr>rawPath := ''dashboard'', rawName := Some ''ContainerDashboard'',
                 rawHidden := True,
                 rawMeta := Some (noMeta\<lparr>activeMenu := ''/containers'', mparent := ''menu.container'',
                     mtitle := ''menu.home'', permission := PStr ''container_view''\<rparr>)\<rparr>) None,
             RouteRaw (noInfo\<lparr>rawPath := ''container'', rawName := Some ''ContainerItem'', rawHidden := True,
                 rawMeta := Some (noMeta\<lparr>activeMenu := ''/containers'', mparent := ''menu.container'',
                     mtitle := ''menu.container'', permission := PStr ''container_view''\<rparr>)\<rparr>) None,
             RouteRaw (noInfo\<lparr>rawPath := ''container/operate'', rawName := Some ''ContainerCreate'',
                 rawHidden := True,
                 rawMeta := Some (noMeta\<lparr>activeMenu := ''/containers'', ignoreTab := True,
                     permission := PStr ''container_view''\<rparr>)\<rparr>) None,
             RouteRaw (noInfo\<lparr>rawPath := ''image'', rawName := Some ''Image'', rawHidden := True,
                 rawMeta := Some (noMeta\<lparr>activeMenu := ''/containers'', mparent := ''menu.container'',
                     mtitle := ''container.image'',
                     permission := PStr ''container_view''\<rparr>)\<rparr>) None,
             RouteRaw (noInfo\<lparr>rawPath := ''network'', rawName := Some ''Network'', rawHidden := True,
                 rawMeta := Some (noMeta\<lparr>activeMenu := ''/containers'', mparent := ''menu.container'',
                     mtitle := ''container.network'',
                     permission := PStr ''container_view''\<rparr>)\<rparr>) None,
             RouteRaw (noInfo\<lparr>rawPath := ''volume'', rawName := Some ''Volume'', rawHidden := True,
                 rawMeta := Some (noMeta\<lparr>activeMenu := ''/containers'', mparent := ''menu.container'',
                     mtitle := ''container.volume'',
                     permission := PStr ''container_view''\<rparr>)\<rparr>) None,
             RouteRaw (noInfo\<lparr>rawPath := ''repo'', rawName := Some ''Repo'', rawHidden := True,
                 rawMeta := Some (noMeta\<lparr>activeMenu := ''/containers'', mparent := ''menu.container'',
                     mtitle := ''container.repo'', permission := PStr ''container_view''\<rparr>)\<rparr>) None,
             RouteRaw (noInfo\<lparr>rawPath := ''compose'', rawName := Some ''Compose'', rawHidden := True,
                 rawMeta := Some (noMeta\<lparr>activeMenu := ''/containers'', mparent := ''menu.container'',
                     mtitle := ''container.compose'',
                     permission := PStr ''container_view''\<rparr>)\<rparr>) None,
             RouteRaw (noInfo\<lparr>rawPath := ''template'', rawName := Some ''ComposeTemplate'', rawHidden := True,
                 rawMeta := Some (noMeta\<lparr>activeMenu := ''/containers'', mparent := ''menu.container'',
                     mtitle := ''container.composeTemplate'',
                     permission := PStr ''container_view''\<rparr>)\<rparr>) None,
             RouteRaw (noInfo\<lparr>rawPath := ''setting'', rawName := Some ''ContainerSetting'', rawHidden := True,
                 rawMeta := Some (noMeta\<lparr>activeMenu := ''/containers'', mparent := ''menu.container'',
                     mtitle := ''container.setting'',
                     permission := PStr ''container_view''\<rparr>)\<rparr>) None])])"

definition cronRouter :: RouteRecordRaw where
  "cronRouter = RouteRaw (noInfo\<lparr>rawSort := Some 9, rawPath := ''/cronjobs'',
      rawName := Some ''Cronjob-Menu'', rawRedirect := Some (RedirectPath ''/cronjobs/cronjob''),
         rawMeta := Some (noMeta\<lparr>micon := ''p-plan'', mtitle := ''menu.cronjob'',
             permission := PStr ''cronjob_view''\<rparr>)\<rparr>)
       (Some [
         RouteRaw (noInfo\<lparr>rawPath := ''/cronjobs'', rawName := Some ''Cronjob'',
             rawRedirect := Some (RedirectPath ''/cronjobs/cronjob''),
             rawMeta := Some noMeta\<rparr>)
           (Some [
             RouteRaw (noInfo\<lparr>rawPath := ''cronjob'', rawName := Some ''CronjobItem'', rawHidden := True,
                 rawMeta := Some (noMeta\<lparr>activeMenu := ''/cronjobs'', mtitle := ''menu.cronjob'',
                     permission := PStr ''cronjob_view''\<rparr>)\<rparr>) None,
             RouteRaw (noInfo\<lparr>rawPath := ''cronjob/operate'', rawName := Some ''CronjobOperate'',
                 rawHidden := True,
                 rawMeta := Some (noMeta\<lparr>activeMenu := ''/cronjobs'', ignoreTab := True,
                     permission := PStr ''cronjob_view''\<rparr>)\<rparr>) None,
             RouteRaw (noInfo\<lparr>rawPath := ''library'', rawName := Some ''Library'', rawHidden := True,
                 rawMeta := Some (noMeta\<lparr>activeMenu := ''/cronjobs'',
                     mtitle := ''cronjob.library.library'',
                     permission := PStr ''cronjob_view''\<rparr>)\<rparr>) None])])"

definition databaseRouter :: RouteRecordRaw where
  "databaseRouter = RouteRaw (noInfo\<lparr>rawSort := Some 5, rawPath := ''/databases'',
      rawName := Some ''Database-Menu'', rawRedirect := Some (RedirectPath ''/databases/mysql''),
         rawMeta := Some (noMeta\<lparr>micon := ''p-database'', mtitle := ''menu.database'',
             permission := PStr ''database_view''\<rparr>)\<rparr>)
       (Some [
         RouteRaw (noInfo\<lparr>rawPath := ''/databases'', rawName := Some ''Database'',
             rawRedirect := Some (RedirectPath ''/databases/mysql''),
             rawMeta := Some noMeta\<rparr>)
           (Some [
             RouteRaw (noInfo\<lparr>rawPath := ''mysql'', rawName := Some ''MySQL'', rawHidden := True,
                 rawMeta := Some (noMeta\<lparr>activeMenu := ''/databases'', mparent := ''menu.database'',
                     mtitle := ''MySQL'', permission := PStr ''database_view''\<rparr>)\<rparr>) None,
             RouteRaw (noInfo\<lparr>rawPath := ''mysql/setting/:type/:database'',
                 rawName := Some ''MySQL-Setting'', rawHidden := True,
                 rawMeta := Some (noMeta\<lparr>activeMenu := ''/databases'', ignoreTab := True,
                     permission := PStr ''database_view''\<rparr>)\<rparr>) None,
             RouteRaw (noInfo\<lparr>rawPath := ''mysql/remote'', rawName := Some ''MySQL-Remote'', rawHidden := True,
                 rawMeta := Some (noMeta\<lparr>activeMenu := ''/databases'', mparent := ''menu.database'',
                     mtitle := ''MySQL'', mdetail := ''database.remote'',
                     permission := PStr ''database_view''\<rparr>)\<rparr>) None,
             RouteRaw (noInfo\<lparr>rawPath := ''postgresql'', rawName := Some ''PostgreSQL'', rawHidden := True,
                 rawMeta := Some (noMeta\<lparr>activeMenu := ''/databases'', mparent := ''menu.database'',
                     mtitle := ''PostgreSQL'', permission := PStr ''database_view''\<rparr>)\<rparr>) None,
             RouteRaw (noInfo\<lparr>rawPath := ''postgresql/remote'', rawName := Some ''PostgreSQL-Remote'',
                 rawHidden := True,
                 rawMeta := Some (noMeta\<lparr>activeMenu := ''/databases'', mparent := ''menu.database'',
                     mtitle := ''PostgreSQL'', mdetail := ''database.remote'',
                     permission := PStr ''database_view''\<rparr>)\<rparr>) None,
             RouteRaw (noInfo\<lparr>rawPath := ''postgresql/setting/:type/:database'',
                 rawName := Some ''PostgreSQL-Setting'', rawHidden := True,
                 rawMeta := Some (noMeta\<lparr>activeMenu := ''/databases'', ignoreTab := True,
                     permission := PStr ''database_view''\<rparr>)\<rparr>) None,
             RouteRaw (noInfo\<lparr>rawPath := ''redis'', rawName := Some ''Redis'', rawHidden := True,
                 rawMeta := Some (noMeta\<lparr>activeMenu := ''/databases'', mparent := ''menu.database'',
                     mtitle := ''Redis'', permission := PStr ''database_view''\<rparr>)\<rparr>) None,
             RouteRaw (noInfo\<lparr>rawPath := ''redis/remote'', rawName := Some ''Redis-Remote'', rawHidden := True,
                 rawMeta := Some (noMeta\<lparr>activeMenu := ''/databases'', mparent := ''menu.database'',
                     mtitle := ''Redis'', mdetail := ''database.remote'',
                     permission := PStr ''database_view''\<rparr>)\<rparr>) None,
             RouteRaw (noInfo\<lparr>rawPath := ''mongodb'', rawName := Some ''MongoDB'', rawHidden := True,
                 rawMeta := Some (noMeta\<lparr>activeMenu := ''/databases'', mparent := ''menu.database'',
                     mtitle := ''MongoDB'', permission := PStr ''database_view''\<rparr>)\<rparr>) None,
             RouteRaw (noInfo\<lparr>rawPath := ''mongodb/remote'', rawName := Some ''MongoDB-Remote'',
                 rawHidden := True,
                 rawMeta := Some (noMeta\<lparr>activeMenu := ''/databases'', mparent := ''menu.database'',
                     mtitle := ''MongoDB'', mdetail := ''database.remote'',
                     permission := PStr ''database_view''\<rparr>)\<rparr>) None])])"

definition errorRouter :: RouteRecordRaw where
  "errorRouter = RouteRaw (noInfo\<lparr>rawPath := ''/error''\<rparr>)
       (Some [
         RouteRaw (noInfo\<lparr>rawPath := ''404'', rawName := Some ''404'', rawHidden := True,
             rawMeta := Some (noMeta\<lparr>mtitle := ''commons.msg.notFound''\<rparr>)\<rparr>) None])"

definition hostRouter :: RouteRecordRaw where
  "hostRouter = RouteRaw (noInfo\<lparr>rawSort := Some 7, rawPath := ''/hosts'', rawName := Some ''System-Menu'',
      rawRedirect := Some (RedirectPath ''/hosts/security''),
         rawMeta := Some (noMeta\<lparr>micon := ''p-host'', mtitle := ''menu.system''\<rparr>)\<rparr>)
       (Some [
         RouteRaw (noInfo\<lparr>rawPath := ''/hosts/files'', rawName := Some ''File'',
             rawMeta := Some (noMeta\<lparr>micon := ''p-file-menu'', mtitle := ''menu.files'',
                 permission := PStr ''host_file_view''\<rparr>)\<rparr>) None,
         RouteRaw (noInfo\<lparr>rawPath := ''/hosts/monitor/monitor'', rawName := Some ''Monitorx'',
             rawMeta := Some (noMeta\<lparr>micon := ''p-system-monitor-menu'', mtitle := ''menu.monitor'',
                 permission := PStr ''host_monitor_view''\<rparr>)\<rparr>) None,
         RouteRaw (noInfo\<lparr>rawPath := ''/hosts/monitor/setting'', rawName := Some ''HostMonitorSetting'',
             rawHidden := True,
             rawMeta := Some (noMeta\<lparr>activeMenu := ''/hosts/monitor/monitor'', mtitle := ''menu.monitor'',
                 mdetail := ''commons.button.set'',
                 permission := PStr ''host_monitor_view''\<rparr>)\<rparr>) None,
         RouteRaw (noInfo\<lparr>rawPath := ''/hosts/firewall/rules'', rawName := Some ''FirewallPort'',
             rawMeta := Some (noMeta\<lparr>micon := ''p-firewalld-menu'',
                 activeMenu := ''/hosts/firewall/rules'', mtitle := ''menu.firewall'',
                 permission := PStr ''host_firewall_view''\<rparr>)\<rparr>) None,
         RouteRaw (noInfo\<lparr>rawPath := ''/hosts/firewall/docker'', rawName := Some ''FirewallDockerGuard'',
             rawHidden := True,
             rawMeta := Some (noMeta\<lparr>activeMenu := ''/hosts/firewall/rules'',
                 mparent := ''menu.firewall'', mtitle := ''firewall.dockerGuard'',
                 permission := PStr ''host_firewall_view''\<rparr>)\<rparr>) None,
         RouteRaw (noInfo\<lparr>rawPath := ''/hosts/firewall/forward'', rawName := Some ''FirewallForward'',
             rawHidden := True,
             rawMeta := Some (noMeta\<lparr>activeMenu := ''/hosts/firewall/rules'',
                 mparent := ''menu.firewall'', mtitle := ''firewall.forwardRule'',
                 permission := PStr ''host_firewall_view''\<rparr>)\<rparr>) None,
         RouteRaw (noInfo\<lparr>rawPath := ''/hosts/firewall/setting'', rawName := Some ''FirewallSetting'',
             rawHidden := True,
             rawMeta := Some (noMeta\<lparr>activeMenu := ''/hosts/firewall/rules'',
                 mparent := ''menu.firewall'', mtitle := ''commons.button.set'',
                 permission := PStr ''host_firewall_view''\<rparr>)\<rparr>) None,
         RouteRaw (noInfo\<lparr>rawPath := ''/hosts/disk'', rawName := Some ''Disk'',
             rawMeta := Some (noMeta\<lparr>micon := ''p-disk-menu'', mtitle := ''menu.disk'',
                 permission := PStr ''host_disk_view''\<rparr>)\<rparr>) None,
         RouteRaw (noInfo\<lparr>rawPath := ''/hosts/process/process'', rawName := Some ''Process'',
             rawMeta := Some (noMeta\<lparr>micon := ''p-process-menu'', mtitle := ''menu.processManage'',
                 mdetail := ''menu.process'', activeMenu := ''/hosts/process/process'',
                 permission := PStr ''host_process_view''\<rparr>)\<rparr>) None,
         RouteRaw (noInfo\<lparr>rawPath := ''/hosts/process/network'', rawName := Some ''ProcessNetwork'',
             rawHidden := True,
             rawMeta := Some (noMeta\<lparr>mparent := ''menu.processManage'', mtitle := ''menu.network'',
                 activeMenu := ''/hosts/process/process'',
                 permission := PStr ''host_process_view''\<rparr>)\<rparr>) None,
         RouteRaw (noInfo\<lparr>rawPath := ''/hosts/ssh/ssh'', rawName := Some ''SSH'',
             rawMeta := Some (noMeta\<lparr>micon := ''p-ssh-menu'', mtitle := ''menu.ssh'',
                 mdetail := ''menu.config'', activeMenu := ''/hosts/ssh/ssh'',
                 permission := PStr ''host_ssh_view''\<rparr>)\<rparr>) None,
         RouteRaw (noInfo\<lparr>rawPath := ''/hosts/ssh/log'', rawName := Some ''SSHLog'', rawHidden := True,
             rawMeta := Some (noMeta\<lparr>mparent := ''menu.ssh'', mtitle := ''ssh.loginLogs'',
                 activeMenu := ''/hosts/ssh/ssh'', permission := PStr ''host_ssh_view''\<rparr>)\<rparr>) None,
         RouteRaw (noInfo\<lparr>rawPath := ''/hosts/ssh/session'', rawName := Some ''SSHSession'', rawHidden := True,
             rawMeta := Some (noMeta\<lparr>mparent := ''menu.ssh'', mtitle := ''ssh.session'',
                 activeMenu := ''/hosts/ssh/ssh'',
                 permission := PStr ''host_ssh_view''\<rparr>)\<rparr>) None])"

definition logsRouter :: RouteRecordRaw where
  "logsRouter = RouteRaw (noInfo\<lparr>rawSort := Some 11, rawPath := ''/logs'', rawName := Some ''Log-Menu'',
      rawRedirect := Some (RedirectPath ''/logs/operation''),
         rawMeta := Some (noMeta\<lparr>mtitle := ''menu.logs'', micon := ''p-log'',
             permission := PStr ''log_view''\<rparr>)\<rparr>)
       (Some [
         RouteRaw (noInfo\<lparr>rawPath := ''/logs'', rawName := Some ''Log'',
             rawRedirect := Some (RedirectPath ''/logs/operation''),
             rawMeta := Some noMeta\<rparr>)
           (Some [
             RouteRaw (noInfo\<lparr>rawPath := ''operation'', rawName := Some ''OperationLog'', rawHidden := True,
                 rawMeta := Some (noMeta\<lparr>mparent := ''menu.logs'', mtitle := ''logs.operation'',
                     activeMenu := ''/logs'', permission := PStr ''log_view''\<rparr>)\<rparr>) None,
             RouteRaw (noInfo\<lparr>rawPath := ''login'', rawName := Some ''LoginLog'', rawHidden := True,
                 rawMeta := Some (noMeta\<lparr>mparent := ''menu.logs'', mtitle := ''logs.login'',
                     activeMenu := ''/logs'', permission := PStr ''log_view''\<rparr>)\<rparr>) None,
             RouteRaw (noInfo\<lparr>rawPath := ''website'', rawName := Some ''WebsiteLog'', rawHidden := True,
                 rawMeta := Some (noMeta\<lparr>mparent := ''menu.logs'', mtitle := ''logs.websiteLog'',
                     activeMenu := ''/logs'', permission := PStr ''log_view''\<rparr>)\<rparr>) None,
             RouteRaw (noInfo\<lparr>rawPath := ''system'', rawName := Some ''SystemLog'', rawHidden := True,
                 rawMeta := Some (noMeta\<lparr>mparent := ''menu.logs'', mtitle := ''logs.system'',
                     activeMenu := ''/logs'', permission := PStr ''log_view''\<rparr>)\<rparr>) None,
             RouteRaw (noInfo\<lparr>rawPath := ''host'', rawName := Some ''HostSystemLog'', rawHidden := True,
                 rawMeta := Some (noMeta\<lparr>mparent := ''menu.logs'', mtitle := ''logs.hostSystem'',
                     activeMenu := ''/logs'', permission := PStr ''log_view''\<rparr>)\<rparr>) None,
             RouteRaw (noInfo\<lparr>rawPath := ''ssh'', rawName := Some ''SSHLog2'', rawHidden := True,
                 rawMeta := Some (noMeta\<lparr>mparent := ''menu.logs'', mtitle := ''ssh.loginLogs'',
                     activeMenu := ''/logs'', permission := PStr ''log_view''\<rparr>)\<rparr>) None,
             RouteRaw (noInfo\<lparr>rawPath := ''task'', rawName := Some ''Task'', rawHidden := True,
                 rawMeta := Some (noMeta\<lparr>mparent := ''menu.logs'', mtitle := ''logs.task'',
                     activeMenu := ''/logs'', permission := PStr ''log_view''\<rparr>)\<rparr>) None])])"

definition settingRouter :: RouteRecordRaw where
  "settingRouter = RouteRaw (noInfo\<lparr>rawSort := Some 12, rawPath := ''/settings'',
      rawName := Some ''Setting-Menu'', rawRedirect := Some RedirectToAvailableSetting,
         rawMeta := Some (noMeta\<lparr>mtitle := ''menu.settings'', micon := ''p-config'',
             permission := PArr settingPermissions\<rparr>)\<rparr>)
       (Some [
         RouteRaw (noInfo\<lparr>rawPath := ''/settings'', rawName := Some ''Setting'',
             rawRedirect := Some RedirectToAvailableSetting,
             rawMeta := Some (noMeta\<lparr>permission := PArr settingPermissions\<rparr>)\<rparr>)
           (Some [
             RouteRaw (noInfo\<lparr>rawPath := ''panel'', rawName := Some ''Panel'', rawHidden := True,
                 rawMeta := Some (noMeta\<lparr>mparent := ''menu.settings'', mtitle := ''setting.panel'',
                     activeMenu := ''/settings'', adminOnly := True\<rparr>)\<rparr>) None,
             RouteRaw (noInfo\<lparr>rawPath := ''alert'', rawName := Some ''Alert'', rawHidden := True,
                 rawMeta := Some (noMeta\<lparr>mparent := ''menu.settings'',
                     mtitle := ''xpack.alert.alertNotice'', activeMenu := ''/settings'',
                     permission := PStr ''alert_view''\<rparr>)\<rparr>) None,
             RouteRaw (noInfo\<lparr>rawPath := ''backupaccount'', rawName := Some ''BackupAccount'',
                 rawHidden := True,
                 rawMeta := Some (noMeta\<lparr>mparent := ''menu.settings'',
                     mtitle := ''setting.backupAccount'', activeMenu := ''/settings'',
                     permission := PStr ''backup_view''\<rparr>)\<rparr>) None,
             RouteRaw (noInfo\<lparr>rawPath := ''license'', rawName := Some ''License'', rawHidden := True,
                 rawMeta := Some (noMeta\<lparr>mparent := ''menu.settings'', mtitle := ''setting.license'',
                     activeMenu := ''/settings'', adminOnly := True\<rparr>)\<rparr>) None,
             RouteRaw (noInfo\<lparr>rawPath := ''about'', rawName := Some ''About'', rawHidden := True,
                 rawMeta := Some (noMeta\<lparr>mparent := ''menu.settings'', mtitle := ''setting.about'',
                     activeMenu := ''/settings'', adminOnly := True\<rparr>)\<rparr>) None,
             RouteRaw (noInfo\<lparr>rawPath := ''safe'', rawName := Some ''Safe'', rawHidden := True,
                 rawMeta := Some (noMeta\<lparr>mparent := ''menu.settings'', mtitle := ''setting.safe'',
                     activeMenu := ''/settings'', adminOnly := True\<rparr>)\<rparr>) None,
             RouteRaw (noInfo\<lparr>rawPath := ''snapshot'', rawName := Some ''Snapshot'', rawHidden := True,
                 rawMeta := Some (noMeta\<lparr>mparent := ''menu.settings'', mtitle := ''setting.snapshot'',
                     activeMenu := ''/settings'', adminOnly := True\<rparr>)\<rparr>) None,
             RouteRaw (noInfo\<lparr>rawPath := ''expired'', rawName := Some ''Expired'', rawHidden := True,
                 rawMeta := Some (noMeta\<lparr>activeMenu := ''/settings'',
                     ignoreTab := True\<rparr>)\<rparr>) None])])"

definition terminalRouter :: RouteRecordRaw where
  "terminalRouter = RouteRaw (noInfo\<lparr>rawSort := Some 8, rawPath := ''/terminal'',
      rawName := Some ''Terminal-Menu'', rawRedirect := Some (RedirectPath ''/terminal''),
         rawMeta := Some (noMeta\<lparr>mtitle := ''menu.terminal'', micon := ''p-terminal2'',
             protectedRoleOnly := True\<rparr>)\<rparr>)
       (Some [
         RouteRaw (noInfo\<lparr>rawPath := ''/terminal'', rawName := Some ''Terminal'',
             rawMeta := Some (noMeta\<lparr>protectedRoleOnly := True\<rparr>)\<rparr>) None])"

definition toolboxRouter :: RouteRecordRaw where
  "toolboxRouter = RouteRaw (noInfo\<lparr>rawSort := Some 9, rawPath := ''/toolbox'',
      rawName := Some ''Toolbox-Menu'', rawRedirect := Some (RedirectPath ''/toolbox/supervisor''),
         rawMeta := Some (noMeta\<lparr>mtitle := ''menu.toolbox'', micon := ''p-toolbox'',
             permission := PStr ''toolbox_view''\<rparr>)\<rparr>)
       (Some [
         RouteRaw (noInfo\<lparr>rawPath := ''/toolbox'', rawName := Some ''Toolbox'',
             rawRedirect := Some (RedirectPath ''/toolbox/device''),
             rawMeta := Some noMeta\<rparr>)
           (Some [
             RouteRaw (noInfo\<lparr>rawPath := ''device'', rawName := Some ''Device'', rawHidden := True,
                 rawMeta := Some (noMeta\<lparr>mparent := ''menu.toolbox'',
                     mtitle := ''toolbox.device.toolbox'', activeMenu := ''/toolbox'',
                     permission := PStr ''toolbox_view''\<rparr>)\<rparr>) None,
             RouteRaw (noInfo\<lparr>rawPath := ''supervisor'', rawName := Some ''Supervisor'', rawHidden := True,
                 rawMeta := Some (noMeta\<lparr>mparent := ''menu.toolbox'', mtitle := ''menu.supervisor'',
                     activeMenu := ''/toolbox'', permission := PStr ''toolbox_view''\<rparr>)\<rparr>) None,
             RouteRaw (noInfo\<lparr>rawPath := ''clam'', rawName := Some ''Clam'', rawHidden := True,
                 rawMeta := Some (noMeta\<lparr>mparent := ''menu.toolbox'', mtitle := ''toolbox.clam.clam'',
                     activeMenu := ''/toolbox'', permission := PStr ''toolbox_view''\<rparr>)\<rparr>) None,
             RouteRaw (noInfo\<lparr>rawPath := ''clam/setting'', rawName := Some ''Clam-Setting'', rawHidden := True,
                 rawMeta := Some (noMeta\<lparr>ignoreTab := True, activeMenu := ''/toolbox'',
                     permission := PStr ''toolbox_view''\<rparr>)\<rparr>) None,
             RouteRaw (noInfo\<lparr>rawPath := ''ftp'', rawName := Some ''FTP'', rawHidden := True,
                 rawMeta := Some (noMeta\<lparr>mparent := ''menu.toolbox'', mtitle := ''FTP'',
                     activeMenu := ''/toolbox'', permission := PStr ''toolbox_view''\<rparr>)\<rparr>) None,
             RouteRaw (noInfo\<lparr>rawPath := ''fail2ban'', rawName := Some ''Fail2ban'', rawHidden := True,
                 rawMeta := Some (noMeta\<lparr>mparent := ''menu.toolbox'', mtitle := ''Fail2Ban'',
                     activeMenu := ''/toolbox'', permission := PStr ''toolbox_view''\<rparr>)\<rparr>) None,
             RouteRaw (noInfo\<lparr>rawPath := ''clean'', rawName := Some ''Clean'', rawHidden := True,
                 rawMeta := Some (noMeta\<lparr>mparent := ''menu.toolbox'', mtitle := ''setting.diskClean'',
                     activeMenu := ''/toolbox'', permission := PStr ''toolbox_view''\<rparr>)\<rparr>) None])])"

definition webSiteRouter :: RouteRecordRaw where
  "webSiteRouter = RouteRaw (noInfo\<lparr>rawSort := Some 3, rawPath := ''/websites'',
      rawName := Some ''Website-Menu'', rawRedirect := Some (RedirectPath ''/websites''),
         rawMeta := Some (noMeta\<lparr>micon := ''p-website'', mtitle := ''menu.website''\<rparr>)\<rparr>)
       (Some [
         RouteRaw (noInfo\<lparr>rawPath := ''/websites'', rawName := Some ''Website'',
             rawMeta := Some (noMeta\<lparr>micon := ''p-website'', mtitle := ''menu.website'',
                 permission := PStr ''website_view''\<rparr>)\<rparr>) None,
         RouteRaw (noInfo\<lparr>rawPath := ''/websites/:id/config/:tab'', rawName := Some ''WebsiteConfig'',
             rawHidden := True,
             rawMeta := Some (noMeta\<lparr>activeMenu := ''/websites'', ignoreTab := True,
                 permission := PStr ''website_view''\<rparr>)\<rparr>) None,
         RouteRaw (noInfo\<lparr>rawPath := ''/websites/ssl'', rawName := Some ''SSL'',
             rawMeta := Some (noMeta\<lparr>micon := ''p-ssl-menu'', mtitle := ''menu.ssl'',
                 permission := PStr ''website_cert_view''\<rparr>)\<rparr>) None,
         RouteRaw (noInfo\<lparr>rawPath := ''/websites/templates'', rawName := Some ''WebsiteTemplate'',
             rawMeta := Some (noMeta\<lparr>micon := ''p-file-html'', mtitle := ''menu.template'',
                 permission := PStr ''website_view''\<rparr>)\<rparr>) None,
         RouteRaw (noInfo\<lparr>rawPath := ''/websites/runtimes/php'', rawName := Some ''PHP'',
             rawMeta := Some (noMeta\<lparr>micon := ''p-run-menu'', mtitle := ''menu.runtime'',
                 mdetail := ''PHP'', activeMenu := ''/websites/runtimes/php'',
                 permission := PStr ''website_runtime_view''\<rparr>)\<rparr>) None,
         RouteRaw (noInfo\<lparr>rawPath := ''/websites/runtimes/node'', rawName := Some ''node'', rawHidden := True,
             rawMeta := Some (noMeta\<lparr>mtitle := ''menu.runtime'', mdetail := ''Node'',
                 activeMenu := ''/websites/runtimes/php'',
                 permission := PStr ''website_runtime_view''\<rparr>)\<rparr>) None,
         RouteRaw (noInfo\<lparr>rawPath := ''/websites/runtimes/java'', rawName := Some ''java'', rawHidden := True,
             rawMeta := Some (noMeta\<lparr>mtitle := ''menu.runtime'', mdetail := ''Java'',
                 activeMenu := ''/websites/runtimes/php'',
                 permission := PStr ''website_runtime_view''\<rparr>)\<rparr>) None,
         RouteRaw (noInfo\<lparr>rawPath := ''/websites/runtimes/go'', rawName := Some ''go'', rawHidden := True,
             rawMeta := Some (noMeta\<lparr>mtitle := ''menu.runtime'', mdetail := ''Go'',
                 activeMenu := ''/websites/runtimes/php'',
                 permission := PStr ''website_runtime_view''\<rparr>)\<rparr>) None,
         RouteRaw (noInfo\<lparr>rawPath := ''/websites/runtimes/python'', rawName := Some ''python'',
             rawHidden := True,
             rawMeta := Some (noMeta\<lparr>mtitle := ''menu.runtime'', mdetail := ''Python'',
                 activeMenu := ''/websites/runtimes/php'',
                 permission := PStr ''website_runtime_view''\<rparr>)\<rparr>) None,
         RouteRaw (noInfo\<lparr>rawPath := ''/websites/runtimes/dotnet'', rawName := Some ''dotNet'',
             rawHidden := True,
             rawMeta := Some (noMeta\<lparr>mtitle := ''menu.runtime'', mdetail := ''.Net'',
                 activeMenu := ''/websites/runtimes/php'',
                 permission := PStr ''website_runtime_view''\<rparr>)\<rparr>) None])"



section \<open>The table\<close>

definition homeRouter :: RouteRecordRaw where
  "homeRouter = RouteRaw (noInfo\<lparr>rawPath := ''/'', rawName := Some ''Home-Menu'', rawRedirect := Some (RedirectPath ''/''),
       rawMeta := Some (noMeta\<lparr>mtitle := ''menu.home'', micon := ''p-home''\<rparr>)\<rparr>)
     (Some [RouteRaw (noInfo\<lparr>rawPath := ''/'', rawName := Some ''home''\<rparr>) None])"

text \<open>\<open>Object.keys\<close> of the glob gives the modules by file name. Sorting writes the missing sort keys.\<close>

definition moduleRoutes :: "RouteRecordRaw list" where
  "moduleRoutes = [aiRouter, appStoreRouter, containerRouter, cronRouter, databaseRouter, errorRouter, hostRouter,
     logsRouter, settingRouter, terminalRouter, toolboxRouter, webSiteRouter]"

definition maxValue :: int where
  "maxValue = 2 ^ 1024 - 2 ^ 971"

definition sortOr :: "RouteRecordRaw \<Rightarrow> int" where
  "sortOr r = (case rawSort (info r) of Some n \<Rightarrow> n | None \<Rightarrow> maxValue)"

definition withSort :: "RouteRecordRaw \<Rightarrow> RouteRecordRaw" where
  "withSort r = RouteRaw ((info r)\<lparr>rawSort := Some (sortOr r)\<rparr>) (children r)"

definition sortRoutes :: "RouteRecordRaw list \<Rightarrow> RouteRecordRaw list" where
  "sortRoutes rs = (if length rs < 2 then rs else sort_key sortOr (map withSort rs))"

definition rolesRoutes :: "RouteRecordRaw list" where
  "rolesRoutes = sortRoutes moduleRoutes"

text \<open>\<open>JSON.parse (JSON.stringify x)\<close> copies a record and drops the functions.\<close>

definition copyInfo :: "RouteInfo \<Rightarrow> RouteInfo" where
  "copyInfo i = i\<lparr>rawRedirect := (if rawRedirect i = Some RedirectToAvailableSetting then None else rawRedirect i)\<rparr>"

fun jsonCopy :: "RouteRecordRaw \<Rightarrow> RouteRecordRaw" where
  "jsonCopy (RouteRaw i cs) = RouteRaw (copyInfo i) (map_option (map jsonCopy) cs)"

definition menuOf :: "RouteRecordRaw \<Rightarrow> RouteRecordRaw option" where
  "menuOf item =
     (let menuItem = jsonCopy item
      in map_option (\<lambda>cs. RouteRaw (info menuItem) (Some (filter (\<lambda>c. \<not> rawHidden (info c)) cs))) (children menuItem))"

definition menuList :: "RouteRecordRaw list" where
  "menuList = homeRouter # List.map_filter menuOf rolesRoutes"

definition loginRecords :: "RouteRecordRaw list" where
  "loginRecords =
     [RouteRaw (noInfo\<lparr>rawPath := ''/login'', rawName := Some ''login'', rawMeta := Some noMeta\<rparr>) None,
      RouteRaw (noInfo\<lparr>rawPath := ''/enterprise/license-required'', rawName := Some ''EnterpriseLicenseRequired'',
        rawMeta := Some noMeta\<rparr>) None,
      RouteRaw (noInfo\<lparr>rawPath := ''/s/:code'', rawName := Some ''file-share'', rawMeta := Some noMeta\<rparr>) None,
      RouteRaw (noInfo\<lparr>rawPath := ''/:code?'', rawName := Some ''entrance''\<rparr>) None]"

definition routes :: "RouteRecordRaw list" where
  "routes = homeRouter # loginRecords @ rolesRoutes @
     [RouteRaw (noInfo\<lparr>rawPath := ''/:pathMatch(.*)'', rawRedirect := Some (RedirectName ''404'')\<rparr>) None]"


section \<open>What the router makes of it\<close>

definition joinPath :: "string \<Rightarrow> string \<Rightarrow> string" where
  "joinPath base p = (if take 1 p = ''/'' then p else base @ ''/'' @ p)"

text \<open>The records from an inner one out to the top, with their full paths.\<close>

fun chains :: "(string \<times> RouteInfo) list \<Rightarrow> RouteRecordRaw \<Rightarrow> (string \<times> RouteInfo) list list" where
  "chains up (RouteRaw i cs) =
     (let full = joinPath (case up of [] \<Rightarrow> [] | u # _ \<Rightarrow> fst u) (rawPath i); here = (full, i) # up
      in here # (case cs of None \<Rightarrow> [] | Some xs \<Rightarrow> concat (map (chains here) xs)))"

definition mergeMeta :: "RouteMeta \<Rightarrow> RouteMeta \<Rightarrow> RouteMeta" where
  "mergeMeta a b =
     \<lparr>adminOnly = (adminOnly a \<or> adminOnly b), protectedRoleOnly = (protectedRoleOnly a \<or> protectedRoleOnly b),
      permission = (if permission b = PUndef then permission a else permission b),
      activeMenu = (if activeMenu b = [] then activeMenu a else activeMenu b),
      ignoreTab = (ignoreTab a \<or> ignoreTab b), mtitle = (if mtitle b = [] then mtitle a else mtitle b),
      micon = (if micon b = [] then micon a else micon b), mparent = (if mparent b = [] then mparent a else mparent b),
      mdetail = (if mdetail b = [] then mdetail a else mdetail b),
      mhideInSidebar = (mhideInSidebar a \<or> mhideInSidebar b)\<rparr>"

definition accessMeta :: "RouteMeta \<Rightarrow> RouteAccessMeta" where
  "accessMeta m = RouteAccessMeta.truncate m"

definition nameText :: "RouteInfo \<Rightarrow> string" where
  "nameText i = (case rawName i of Some n \<Rightarrow> n | None \<Rightarrow> ''undefined'')"

definition pageOf :: "(string \<times> RouteInfo) list \<Rightarrow> route" where
  "pageOf c =
     \<lparr>rname = nameText (snd (hd c)), rpath = fst (hd c), rcode = None, rquery = [],
      rmeta = accessMeta (foldl (\<lambda>m i. case rawMeta (snd i) of None \<Rightarrow> m | Some n \<Rightarrow> mergeMeta m n) noMeta (rev c)),
      matched = map (\<lambda>(full, i). \<lparr>recPath = full, recMeta = map_option accessMeta (rawMeta i)\<rparr>) (rev c)\<rparr>"

text \<open>The records without a redirection are the pages.\<close>

definition pagesOf :: "RouteRecordRaw \<Rightarrow> route list" where
  "pagesOf r = map pageOf (filter (\<lambda>c. Option.is_none (rawRedirect (snd (hd c)))) (chains [] r))"

definition pages :: "route list" where
  "pages = concat (map pagesOf routes)"


section \<open>What the table asks of a user\<close>

text \<open>A record without demands, and one whose demands are among those of another.\<close>

definition openRecord :: "RouteRecord \<Rightarrow> bool" where
  "openRecord r = (case recMeta r of None \<Rightarrow> True
     | Some m \<Rightarrow> \<not> adminOnly m \<and> \<not> protectedRoleOnly m \<and> permission m = PUndef)"

definition namesCodes :: "RouteRecord \<Rightarrow> bool" where
  "namesCodes r = (case recPermission r of PUndef \<Rightarrow> True | PStr q \<Rightarrow> q \<noteq> []
     | PArr qs \<Rightarrow> qs \<noteq> [] \<and> list_all (\<lambda>q. q \<noteq> []) qs)"

definition covers :: "RouteRecord \<Rightarrow> RouteRecord \<Rightarrow> bool" where
  "covers leaf r = (case recMeta r of None \<Rightarrow> True
     | Some m \<Rightarrow> \<not> adminOnly m \<and> (protectedRoleOnly m \<longrightarrow> map_option protectedRoleOnly (recMeta leaf) = Some True) \<and>
         (case permission m of PUndef \<Rightarrow> True
          | PStr q \<Rightarrow> recPermission leaf = PStr q
          | PArr qs \<Rightarrow> list_ex (\<lambda>q. q \<noteq> [] \<and> recPermission leaf = PStr q) qs))"

text \<open>Sorting writes the keys and orders the modules.\<close>

lemma sort_keys:
  "map (sortOr \<circ> withSort) moduleRoutes = [4, 2, 6, 9, 5, maxValue, 7, 11, 12, 8, 9, 3]" "12 < maxValue"
  by code_simp+

lemma rolesRoutes_order:
  "rolesRoutes = map withSort [appStoreRouter, webSiteRouter, aiRouter, databaseRouter, containerRouter, hostRouter,
     terminalRouter, cronRouter, toolboxRouter, logsRouter, settingRouter, errorRouter]"
  using sort_keys by (simp add: rolesRoutes_def sortRoutes_def moduleRoutes_def)

definition demands :: "RouteRecordRaw \<Rightarrow> bool \<times> string list \<times> string list" where
  "demands r =
     (list_all (\<lambda>p. list_all namesCodes (matched p)) (pagesOf r),
      map rname (filter (\<lambda>p. list_all openRecord (matched p)) (pagesOf r)),
      map rname (filter (\<lambda>p. \<not> list_all (covers (last (matched p))) (butlast (matched p))) (pagesOf r)))"

lemma module_demands:
  "demands (withSort appStoreRouter) = (True, [], [])"
  "demands (withSort webSiteRouter) = (True, [], [])"
  "demands (withSort aiRouter) = (True, [], [])"
  "demands (withSort databaseRouter) = (True, [], [])"
  "demands (withSort containerRouter) = (True, [], [])"
  "demands (withSort hostRouter) = (True, [], [])"
  "demands (withSort terminalRouter) = (True, [], [])"
  "demands (withSort cronRouter) = (True, [], [])"
  "demands (withSort toolboxRouter) = (True, [], [])"
  "demands (withSort logsRouter) = (True, [], [])"
  "demands (withSort settingRouter) = (True, [], [''Panel'', ''License'', ''About'', ''Safe'', ''Snapshot'', ''Expired''])"
  "demands (withSort errorRouter) = (True, [''undefined'', ''404''], [])"
  by code_simp+

lemma other_demands:
  "demands homeRouter = (True, [''home''], [])"
  "map demands loginRecords =
     [(True, [''login''], []), (True, [''EnterpriseLicenseRequired''], []), (True, [''file-share''], []),
      (True, [''entrance''], [])]"
  by code_simp+

lemma pages_demands:
  "\<forall>p \<in> set pages. \<forall>rec \<in> set (matched p). namesCodes rec"
  "map rname (filter (\<lambda>p. list_all openRecord (matched p)) pages) =
     [''home'', ''login'', ''EnterpriseLicenseRequired'', ''file-share'', ''entrance'', ''undefined'', ''404'']"
  "map rname (filter (\<lambda>p. \<not> list_all (covers (last (matched p))) (butlast (matched p))) pages) =
     [''Panel'', ''License'', ''About'', ''Safe'', ''Snapshot'', ''Expired'']"
proof -
  have nil: "pagesOf (RouteRaw (noInfo\<lparr>rawPath := x, rawRedirect := Some y\<rparr>) None) = []" for x y
    by (simp add: pagesOf_def noInfo_def Let_def)
  note d = module_demands [unfolded demands_def prod.inject] other_demands [unfolded demands_def prod.inject]
  show "map rname (filter (\<lambda>p. list_all openRecord (matched p)) pages) =
     [''home'', ''login'', ''EnterpriseLicenseRequired'', ''file-share'', ''entrance'', ''undefined'', ''404'']"
    using d by (simp add: pages_def routes_def rolesRoutes_order nil loginRecords_def)
  show "map rname (filter (\<lambda>p. \<not> list_all (covers (last (matched p))) (butlast (matched p))) pages) =
     [''Panel'', ''License'', ''About'', ''Safe'', ''Snapshot'', ''Expired'']"
    using d by (simp add: pages_def routes_def rolesRoutes_order nil loginRecords_def)
  have "list_all (\<lambda>p. list_all namesCodes (matched p)) pages"
    using d by (simp add: pages_def routes_def rolesRoutes_order nil loginRecords_def)
  then show "\<forall>p \<in> set pages. \<forall>rec \<in> set (matched p). namesCodes rec"
    unfolding list_all_iff by blast
qed

text \<open>Without a permission, without a role and not an administrator, only open records admit.\<close>

lemma unprivileged_iff:
  assumes "\<not> isAdmin s" "\<not> isNodeAdmin s" "permissions s = []" "p \<in> set pages"
  shows "routeAllowed s p \<longleftrightarrow> list_all openRecord (matched p)"
proof -
  have no: "\<not> allowed s q" for q using assms(1,3) by (simp add: allowed_def Let_def)
  have "roleAllowed s (recMeta rec) \<and> metaAllowed s (recPermission rec) \<longleftrightarrow> openRecord rec"
    if "rec \<in> set (matched p)" for rec
  proof -
    have "namesCodes rec" using pages_demands(1) assms(4) that by blast
    then show ?thesis
      using assms(1,2) no
      by (cases "recMeta rec"; cases "recPermission rec")
        (auto simp: openRecord_def roleAllowed_def metaAllowed_def recPermission_def namesCodes_def list_all_iff neq_Nil_conv)
  qed
  then show ?thesis by (auto simp: routeAllowed_def list_all_iff)
qed

lemma covers_admits:
  assumes "covers leaf rec" "roleAllowed s (recMeta leaf)" "metaAllowed s (recPermission leaf)"
  shows "roleAllowed s (recMeta rec) \<and> metaAllowed s (recPermission rec)"
  using assms
  by (auto simp: covers_def roleAllowed_def metaAllowed_def recPermission_def list_ex_iff
      split: option.splits PermissionValue.splits) 

lemma load_access_fields:
  "isAdmin (snd (loadProductProFromDB l e s)) = isAdmin s"
  "permissions (snd (loadProductProFromDB l e s)) = permissions s"
  "nodeRoles (snd (loadProductProFromDB l e s)) = nodeRoles s"
  "currentNode (snd (loadProductProFromDB l e s)) = currentNode s"
  by (simp_all add: loadProductProFromDB_def Let_def split: answer.split)

lemma guardState_access:
  assumes "isLogin (gstate p)"
  shows "isAdmin (gstate (guardState getL getE to p)) = isAdmin (gstate p)"
    "permissions (gstate (guardState getL getE to p)) = permissions (gstate p)"
    "isNodeAdmin (gstate (guardState getL getE to p)) = isNodeAdmin (gstate p)"
  using assms by (simp_all add: guardState_def load_access_fields isNodeAdmin_def Let_def)

lemma beforeEach_access:
  fixes resolve getL getE to frm p
  assumes "reachable (gw p)" "isLogin (gstate p)"
  defines "q \<equiv> snd (beforeEach resolve getL getE to frm p)"
  shows "isAdmin (gstate q) = isAdmin (gstate p)" "permissions (gstate q) = permissions (gstate p)"
    "isNodeAdmin (gstate q) = isNodeAdmin (gstate p)"
proof -
  have "gstate q = gstate p \<or> gstate q = gstate (guardState getL getE to p)"
    using assms(2) accessGuard_answers(1) [OF guardState_props(1) [OF assms(1)], of resolve to frm getL getE to]
    by (auto simp: q_def beforeEach_def guardState_def Let_def)
  then show "isAdmin (gstate q) = isAdmin (gstate p)" "permissions (gstate q) = permissions (gstate p)"
    "isNodeAdmin (gstate q) = isNodeAdmin (gstate p)"
    using guardState_access [OF assms(2)] by metis+
qed

lemma chains_nonempty: "c \<in> set (chains up r) \<Longrightarrow> c \<noteq> []"
  by (induction up r rule: chains.induct) (auto simp: Let_def split: option.splits)

lemma pages_matched: "r \<in> set pages \<Longrightarrow> matched r \<noteq> []"
  by (auto simp: pages_def pagesOf_def pageOf_def dest: chains_nonempty)

text \<open>The pages behind the settings redirection.\<close>

definition settingTop :: RouteAccessMeta where
  "settingTop = accessMeta (noMeta\<lparr>permission := PArr settingPermissions\<rparr>)"

definition settingEntries :: "(string \<times> RouteAccessMeta option list) list" where
  "settingEntries =
     [(''/settings/panel'', [Some settingTop, Some settingTop,
         Some (accessMeta (noMeta\<lparr>activeMenu := ''/settings'', adminOnly := True\<rparr>))]),
      (''/settings/alert'', [Some settingTop, Some settingTop,
         Some (accessMeta (noMeta\<lparr>activeMenu := ''/settings'', permission := PStr ''alert_view''\<rparr>))]),
      (''/settings/backupaccount'', [Some settingTop, Some settingTop,
         Some (accessMeta (noMeta\<lparr>activeMenu := ''/settings'', permission := PStr ''backup_view''\<rparr>))])]"

lemma setting_pages: "map (\<lambda>r. (rpath r, map recMeta (matched r))) (take 3 (pagesOf (withSort settingRouter))) = settingEntries"
  by code_simp

lemma setting_in_pages: "r \<in> set (pagesOf (withSort settingRouter)) \<Longrightarrow> r \<in> set pages"
  by (auto simp: pages_def routes_def rolesRoutes_order)

definition metasAllowed :: "GlobalState \<Rightarrow> RouteAccessMeta option list \<Rightarrow> bool" where
  "metasAllowed s = list_all (\<lambda>m. roleAllowed s m \<and> metaAllowed s (case m of None \<Rightarrow> PUndef | Some x \<Rightarrow> permission x))"

lemma routeAllowed_metas: "routeAllowed s r = metasAllowed s (map recMeta (matched r))"
  by (auto simp: routeAllowed_def metasAllowed_def list_all_iff recPermission_def)



text \<open>The links inside the table: the targets of redirections and the menus that pages belong to.\<close>

definition links :: "RouteRecordRaw \<Rightarrow> string list" where
  "links r = concat (map (\<lambda>c. (case rawRedirect (snd (hd c)) of Some (RedirectPath t) \<Rightarrow> [t] | _ \<Rightarrow> []) @
     (case rawMeta (snd (hd c)) of Some m \<Rightarrow> if activeMenu m = [] then [] else [activeMenu m] | None \<Rightarrow> []))
     (chains [] r))"

definition recordNames :: "RouteRecordRaw \<Rightarrow> string list" where
  "recordNames r = List.map_filter (\<lambda>c. rawName (snd (hd c))) (chains [] r)"

definition recordPaths :: "RouteRecordRaw \<Rightarrow> string list" where
  "recordPaths r = map (\<lambda>c. fst (hd c)) (chains [] r)"

text \<open>The links that no record of the same module answers.\<close>

lemma module_links:
  "concat (map (\<lambda>r. filter (\<lambda>t. t \<notin> set (recordPaths r)) (links r)) routes) =
     [''/hosts/security'']"
  "''/hosts/security'' \<notin> set (concat (map recordPaths routes))"
  by code_simp+

lemma module_names:
  "distinct (concat (map recordNames routes))"
  by code_simp

section \<open>Properties\<close>

text \<open>C3. The guard on the panel's own pages: a logged-in user with no permission and no role who
  proceeds gets to a page of which no matched record asks for anything, and these are the home
  page, the error pages and a shared file, or to one of the three pages that the guard lets through
  without an access check: the licence page, the expiry page and \<open>/apps/all\<close> with an \<open>install\<close>
  query.\<close>

theorem guard_unprivileged:
  assumes "reachable (gw p)" "isLogin (gstate p)"
    and "\<not> isAdmin (gstate p)" "\<not> isNodeAdmin (gstate p)" "permissions (gstate p) = []"
    and "r \<in> set pages" "rname to = rname r" "matched to = matched r"
    and "fst (beforeEach resolve getL getE to frm p) = Proceed"
  shows "list_all openRecord (matched to) \<and> rname to \<in> {''home'', ''undefined'', ''404'', ''file-share''} \<or>
    rname to = ''EnterpriseLicenseRequired'' \<or> rname to = ''Expired'' \<or>
    rpath to = ''/apps/all'' \<and> queryDefined ''install'' to"
proof -
  let ?q = "snd (beforeEach resolve getL getE to frm p)"
  have open_: "list_all openRecord (matched r)" if "routeAllowed (gstate ?q) to"
  proof -
    have "routeAllowed (gstate ?q) r" using that assms(8) by (simp add: routeAllowed_def)
    then show ?thesis
      using unprivileged_iff [of "gstate ?q" r] assms(2-6) beforeEach_access [OF assms(1,2)] by simp
  qed
  have "rname r \<in> set (map rname (filter (\<lambda>p. list_all openRecord (matched p)) pages))"
    if "list_all openRecord (matched r)"
    using that assms(6) by simp
  then show ?thesis
    using guard_answers [OF assms(1,2,9)] open_ assms(7,8) unfolding pages_demands(2) by auto
qed

definition viewerPanel :: panel where
  "viewerPanel = guestPanel\<lparr>gw := setLogStatus True (initialWorld ''en'')\<rparr>"

definition homePage :: route where
  "homePage = hd (pagesOf homeRouter)"

lemma home_page:
  "homePage \<in> set pages" "rname homePage = ''home''" "rpath homePage = ''/''" "rquery homePage = []"
  "activeMenu (rmeta homePage) = []" "list_all openRecord (matched homePage)"
proof -
  have "pagesOf homeRouter = [homePage]" unfolding homePage_def by code_simp
  then show "homePage \<in> set pages" by (simp add: pages_def routes_def)
qed (unfold homePage_def, code_simp+)

lemma viewer_reachable: "reachable (gw viewerPanel)"
  by (simp add: viewerPanel_def reachable_initial reachable_actions)

lemma viewer_state:
  "isLogin (gstate viewerPanel)" "\<not> isAdmin (gstate viewerPanel)"
  "\<not> isNodeAdmin (gstate viewerPanel)" "permissions (gstate viewerPanel) = []" "\<not> isEnterprise (gstate viewerPanel)"
  by (simp_all add: viewerPanel_def setLogStatus_def initialWorld_def initialState_def isNodeAdmin_def)

lemma viewer_home: "fst (beforeEach resolve NoData NoData homePage frm viewerPanel) = Proceed"
proof -
  have "routeAllowed (gstate viewerPanel) homePage"
    using unprivileged_iff [OF viewer_state(2-4) home_page(1)] home_page(6) by simp
  then have "fst (hasRouteAccess homePage (gw viewerPanel))" using ra.check_spec [OF viewer_reachable] by simp
  then show ?thesis
    by (simp add: beforeEach_def accessGuard_def viewer_state home_page queryDefined_def setState_def Let_def split: option.split)
qed

theorem guard_unprivileged_witness:
  "list_all openRecord (matched homePage) \<and> rname homePage \<in> {''home'', ''undefined'', ''404'', ''file-share''} \<or>
   rname homePage = ''EnterpriseLicenseRequired'' \<or> rname homePage = ''Expired'' \<or>
   rpath homePage = ''/apps/all'' \<and> queryDefined ''install'' homePage"
  by (rule guard_unprivileged [OF viewer_reachable viewer_state(1-4) home_page(1) refl refl viewer_home])

text \<open>A page decides for itself: outside the settings pages kept for administrators and the
  expiry page, a user may enter a page exactly when the page's own record admits the user; no
  outer record asks for more.\<close>

theorem page_decides:
  assumes "r \<in> set pages"
    and "rname r \<notin> {''Panel'', ''License'', ''About'', ''Safe'', ''Snapshot'', ''Expired''}"
    and "reachable w"
  shows "fst (hasRouteAccess r w) \<longleftrightarrow>
    roleAllowed (store w) (recMeta (last (matched r))) \<and> metaAllowed (store w) (recPermission (last (matched r)))"
proof -
  let ?leaf = "last (matched r)"
  have "rname r \<notin> set (map rname (filter (\<lambda>p. \<not> list_all (covers (last (matched p))) (butlast (matched p))) pages))"
    using assms(2) unfolding pages_demands(3) by simp
  then have cov: "\<forall>rec \<in> set (butlast (matched r)). covers ?leaf rec"
    using assms(1) by (auto simp: list_all_iff)
  have ne: "matched r \<noteq> []" using assms(1) pages_matched by blast
  then have m: "set (matched r) = insert ?leaf (set (butlast (matched r)))"
    by (metis append_butlast_last_id list.simps(15) rotate1.simps(2) set_rotate1)
  show ?thesis
    unfolding ra.check_spec [OF assms(3)] routeAllowed_def m using cov covers_admits by blast
qed

theorem page_decides_witness:
  "fst (hasRouteAccess homePage (gw viewerPanel)) \<longleftrightarrow>
   roleAllowed (gstate viewerPanel) (recMeta (last (matched homePage))) \<and>
   metaAllowed (gstate viewerPanel) (recPermission (last (matched homePage)))"
  by (rule page_decides) (simp_all add: home_page viewer_reachable)

text \<open>Whoever the settings records admit is redirected from \<open>/settings\<close> to a page of the table
  that admits the same user.\<close>

theorem setting_redirect_lands:
  assumes "reachable w" "metaAllowed (store w) (PArr settingPermissions)"
  shows "\<exists>r \<in> set pages. rpath r = fst (redirectToAvailableSetting w) \<and>
    fst (hasRouteAccess r (snd (redirectToAvailableSetting w)))"
proof -
  let ?t = "redirectToAvailableSetting w" and ?s = "store w"
  have w: "reachable (snd ?t)" "store (snd ?t) = ?s"
    using assms(1) by (simp_all add: redirectToAvailableSetting_def hp.check_inv hp.check_obs Let_def)
  have lands: "\<exists>r \<in> set pages. rpath r = path \<and> fst (hasRouteAccess r (snd ?t))"
    if "(path, ms) \<in> set settingEntries" "metasAllowed ?s ms" for path ms
  proof -
    from that(1) obtain r where "r \<in> set (pagesOf (withSort settingRouter))" "rpath r = path" "map recMeta (matched r) = ms"
      unfolding setting_pages [symmetric] by (auto dest: in_set_takeD)
    then show ?thesis using that(2) setting_in_pages by (auto simp: ra.check_spec [OF w(1)] w(2) routeAllowed_metas)
  qed
  have any: "allowed ?s ''alert_view'' \<or> allowed ?s ''backup_view''"
    using assms(2) by (auto simp: metaAllowed_def settingPermissions_def)
  have t: "fst ?t = (if isAdmin ?s then ''/settings/panel'' else if allowed ?s ''alert_view'' then ''/settings/alert''
      else if allowed ?s ''backup_view'' then ''/settings/backupaccount'' else ''/settings/panel'')"
    using assms(1)
    by (simp add: redirectToAvailableSetting_def hp.check_spec hp.check_obs hp.check_inv Let_def)
  obtain ms where "(fst ?t, ms) \<in> set settingEntries" "metasAllowed ?s ms"
    using any assms(2) unfolding t
    by (fastforce simp: settingEntries_def metasAllowed_def settingTop_def accessMeta_def noMeta_def roleAllowed_def
        metaAllowed_def RouteAccessMeta.defs split: if_splits)
  then show ?thesis by (rule lands)
qed

lemma admin_settings:
  "metaAllowed (store w) (PArr settingPermissions)" if "isAdmin (store w)" "masterOnlyPermissions (store w) = []"
proof -
  have "trim ''alert_view'' = ''alert_view''" by code_simp
  with that show ?thesis by (simp add: metaAllowed_def settingPermissions_def allowed_def restricted_def Let_def)
qed

theorem setting_redirect_lands_witness:
  "\<exists>r \<in> set pages. rpath r = fst (redirectToAvailableSetting adminWorld) \<and>
     fst (hasRouteAccess r (snd (redirectToAvailableSetting adminWorld)))"
proof (rule setting_redirect_lands)
  show "reachable adminWorld" using reachable_admin(1) by (simp add: adminPanel_def)
  show "metaAllowed (store adminWorld) (PArr settingPermissions)"
    by (rule admin_settings) (simp_all add: adminWorld_def setAuthInfo_def setLogStatus_def initialWorld_def Let_def orEmpty_def)
qed

text \<open>C31. The table is closed but for one link: record names are unique, and the target of every
  redirection to a path and every menu named by a page is a path of the table, except the
  redirection of the system menu to \<open>/hosts/security\<close>, which no record has. The redirections by
  name and by function are not among these links.\<close>

theorem table_links:
  "distinct (concat (map recordNames routes)) \<and>
   {t \<in> set (concat (map links routes)). t \<notin> set (concat (map recordPaths routes))} = {''/hosts/security''}"
proof -
  let ?own = "\<lambda>r. filter (\<lambda>t. t \<notin> set (recordPaths r)) (links r)"
  have own: "t \<in> set (links r) \<and> t \<notin> set (recordPaths r) \<longleftrightarrow> t \<in> set (?own r)" for t r
    by auto
  have mem: "(\<exists>r \<in> set routes. t \<in> set (?own r)) \<longleftrightarrow> t = ''/hosts/security''" for t
  proof -
    have "(\<exists>r \<in> set routes. t \<in> set (?own r)) \<longleftrightarrow> t \<in> set (concat (map ?own routes))" by auto
    then show ?thesis unfolding module_links(1) by simp
  qed
  have nowhere: "''/hosts/security'' \<notin> set (concat (map recordPaths routes))"
    by (rule module_links(2))
  have "{t \<in> set (concat (map links routes)). t \<notin> set (concat (map recordPaths routes))} = {''/hosts/security''}"
  proof (intro equalityI subsetI)
    fix t assume "t \<in> {t \<in> set (concat (map links routes)). t \<notin> set (concat (map recordPaths routes))}"
    then obtain r where "r \<in> set routes" "t \<in> set (links r)" "t \<notin> set (recordPaths r)" by auto
    then show "t \<in> {''/hosts/security''}" using mem [of t] own by blast
  next
    fix t assume "t \<in> {''/hosts/security''}"
    then have t: "t = ''/hosts/security''" by simp
    then obtain r where "r \<in> set routes" "t \<in> set (links r)" using mem [of t] own by blast
    then show "t \<in> {t \<in> set (concat (map links routes)). t \<notin> set (concat (map recordPaths routes))}"
      using nowhere t by auto
  qed
  then show ?thesis using module_names by blast
qed

end
