(* ===== verification/Sidebar.thy ===== *)
theory Sidebar
  imports Route_Table
begin

text \<open>
  The side menu: \<open>layout/components/Sidebar/index.vue\<close> and the menu store
  \<open>store/modules/menu.ts\<close>. The menu is the route table pruned to what the user may enter, or
  the arrangement the settings name, pruned the same way. Pruning refreshes the permission
  cache at every check, so it threads the \<open>world\<close>; the locale \<open>menu_check\<close> extends the contract
  of the access checks with what pruning by such a check yields. \<open>None\<close> is a raised
  \<open>TypeError\<close>. The answer of the settings request, the parsed arrangement and the router's
  \<open>hasRoute\<close> are parameters.
\<close>

section \<open>The menu store\<close>

record MenuState =
  isCollapse :: bool
  storedMenus :: "RouteRecordRaw list"
  withoutAnimation :: bool

definition initialMenu :: MenuState where
  "initialMenu = \<lparr>isCollapse = False, storedMenus = [], withoutAnimation = False\<rparr>"

definition menuWhiteList :: "string list" where
  "menuWhiteList = [''/login'', ''/error'']"

definition setCollapse :: "MenuState \<Rightarrow> MenuState" where
  "setCollapse m = m\<lparr>isCollapse := \<not> isCollapse m, withoutAnimation := False\<rparr>"

definition setMenuList :: "RouteRecordRaw list \<Rightarrow> MenuState \<Rightarrow> MenuState" where
  "setMenuList ms m = m\<lparr>storedMenus := filter (\<lambda>r. rawPath (info r) \<notin> set menuWhiteList) ms\<rparr>"

definition closeSidebar :: "bool \<Rightarrow> MenuState \<Rightarrow> MenuState" where
  "closeSidebar b m = m\<lparr>isCollapse := True, withoutAnimation := b\<rparr>"

definition handleWindowResize :: "int \<Rightarrow> MenuState \<Rightarrow> MenuState" where
  "handleWindowResize screenWidth m =
     (let m1 = (if \<not> isCollapse m \<and> screenWidth < 1200 then setCollapse m else m)
      in if isCollapse m1 \<and> screenWidth > 1200 then setCollapse m1 else m1)"


section \<open>Pruning\<close>

definition metaOf :: "RouteInfo \<Rightarrow> RouteAccessMeta option" where
  "metaOf i = map_option accessMeta (rawMeta i)"

definition allowMenuItem :: "RouteInfo \<Rightarrow> world \<Rightarrow> bool \<times> world" where
  "allowMenuItem i w =
     (if \<not> hasRouteRoleAccess (metaOf i) (store w) then (False, w)
      else hasPermissionMetaAccess (case metaOf i of None \<Rightarrow> PUndef | Some m \<Rightarrow> permission m) w)"

text \<open>An item left with one child takes over the child's icon and title; assigning to a missing
  \<open>meta\<close> raises.\<close>

definition adoptOnly :: "RouteRecordRaw list \<Rightarrow> RouteInfo \<Rightarrow> RouteInfo option" where
  "adoptOnly cs i =
     (case cs of
        [c] \<Rightarrow>
          (case rawMeta (info c) of
             None \<Rightarrow> Some i
           | Some m \<Rightarrow>
               if micon m = [] \<and> mtitle m = [] then Some i
               else map_option (\<lambda>pm. i\<lparr>rawMeta := Some (pm\<lparr>micon := (if micon m = [] then micon pm else micon m),
                      mtitle := (if mtitle m = [] then mtitle pm else mtitle m)\<rparr>)\<rparr>) (rawMeta i))
      | _ \<Rightarrow> Some i)"

definition showXpack :: "RouteInfo \<Rightarrow> RouteInfo option" where
  "showXpack i =
     (if rawName i = Some ''Xpack-Menu''
      then map_option (\<lambda>m. i\<lparr>rawMeta := Some (m\<lparr>mhideInSidebar := False\<rparr>)\<rparr>) (rawMeta i)
      else Some i)"

definition finishMenu :: "RouteInfo \<Rightarrow> RouteRecordRaw list \<Rightarrow> RouteRecordRaw option" where
  "finishMenu i cs = map_option (\<lambda>j. RouteRaw j (Some cs)) (Option.bind (adoptOnly cs i) showXpack)"

definition kids :: "RouteRecordRaw list option \<Rightarrow> RouteRecordRaw list" where
  "kids cs = (case cs of None \<Rightarrow> [] | Some xs \<Rightarrow> xs)"

text \<open>The common shape of \<open>buildAuthVisibleMenuList\<close> and \<open>buildVisibleMenu\<close>: \<open>Some None\<close> is an item
  left out.\<close>

fun pruneItem :: "(RouteInfo \<Rightarrow> 's \<Rightarrow> bool \<times> 's) \<Rightarrow> RouteRecordRaw \<Rightarrow> 's \<Rightarrow> RouteRecordRaw option option \<times> 's"
  and pruneMenus :: "(RouteInfo \<Rightarrow> 's \<Rightarrow> bool \<times> 's) \<Rightarrow> RouteRecordRaw list \<Rightarrow> 's \<Rightarrow> RouteRecordRaw list option \<times> 's"
where
  "pruneItem check (RouteRaw i cs) w =
     (let a = check i w; menuItem = copyInfo i
      in if \<not> fst a then (Some None, snd a)
         else case cs of
           None \<Rightarrow> (Some (Some (RouteRaw menuItem None)), snd a)
         | Some [] \<Rightarrow> (Some (Some (RouteRaw menuItem (Some []))), snd a)
         | Some (c # cs') \<Rightarrow>
             (let r = pruneMenus check (c # cs') (snd a)
              in (case fst r of None \<Rightarrow> None | Some [] \<Rightarrow> Some None
                  | Some (v # vs) \<Rightarrow> map_option Some (finishMenu menuItem (v # vs)), snd r)))"
| "pruneMenus check [] w = (Some [], w)"
| "pruneMenus check (x # xs) w =
     (let a = pruneItem check x w
      in case fst a of None \<Rightarrow> (None, snd a)
         | Some v \<Rightarrow>
             (let r = pruneMenus check xs (snd a)
              in (map_option (\<lambda>vs. case v of None \<Rightarrow> vs | Some m \<Rightarrow> m # vs) (fst r), snd r)))"

definition buildAuthVisibleMenuList :: "RouteRecordRaw list \<Rightarrow> world \<Rightarrow> RouteRecordRaw list option \<times> world" where
  "buildAuthVisibleMenuList source w = pruneMenus allowMenuItem source w"

definition shownAndAllowed :: "string set \<Rightarrow> RouteInfo \<Rightarrow> world \<Rightarrow> bool \<times> world" where
  "shownAndAllowed showSet i w =
     (case rawName i of None \<Rightarrow> (False, w)
      | Some n \<Rightarrow> if n = [] \<or> n \<notin> showSet then (False, w) else allowMenuItem i w)"

definition buildVisibleMenu :: "string set \<Rightarrow> RouteRecordRaw \<Rightarrow> world \<Rightarrow> RouteRecordRaw option option \<times> world" where
  "buildVisibleMenu showSet menu w = pruneItem (shownAndAllowed showSet) menu w"


section \<open>The arrangement of the settings\<close>

datatype HideItem = HideItem (hlabel: string) (hisShow: bool) (hchildren: "HideItem list option")

fun getCheckedLabels :: "HideItem list \<Rightarrow> string set \<Rightarrow> string set" where
  "getCheckedLabels [] acc = acc"
| "getCheckedLabels (HideItem l sh cs # rest) acc =
     getCheckedLabels rest
       ((case cs of None \<Rightarrow> id | Some xs \<Rightarrow> getCheckedLabels xs) (if sh then insert l acc else acc))"

text \<open>The objects of \<open>itemMap\<close>, by name: \<open>buildTree\<close> writes the children of every object it returns, so a
  list of names stands for a list of references to them.\<close>

type_synonym menu_heap = "string \<rightharpoonup> RouteInfo \<times> string list option"

definition itemMap :: "RouteRecordRaw list \<Rightarrow> menu_heap" where
  "itemMap ms = map_of (rev (concat (map (\<lambda>parent.
     List.map_filter (\<lambda>i. map_option (\<lambda>n. (n, i, None)) (rawName i)) (map (copyInfo \<circ> info) (parent # kids (children parent)))) ms)))"

fun buildNode :: "HideItem \<Rightarrow> menu_heap \<Rightarrow> menu_heap option"
  and buildTree :: "HideItem list \<Rightarrow> menu_heap \<Rightarrow> string list \<times> menu_heap"
where
  "buildNode (HideItem l sh cs) h =
     (case h l of None \<Rightarrow> None
      | Some cell \<Rightarrow>
          (case cs of
             None \<Rightarrow> Some (h(l \<mapsto> (fst cell, None)))
           | Some [] \<Rightarrow> Some (h(l \<mapsto> (fst cell, None)))
           | Some (c # cs') \<Rightarrow> (let r = buildTree (c # cs') h in Some ((snd r)(l \<mapsto> (fst cell, Some (fst r)))))))"
| "buildTree [] h = ([], h)"
| "buildTree (x # rest) h =
     (case buildNode x h of
        None \<Rightarrow> buildTree rest h
      | Some h1 \<Rightarrow> (let r = buildTree rest h1 in (hlabel x # fst r, snd r)))"

definition adoptOnlyAt :: "string \<Rightarrow> menu_heap \<Rightarrow> menu_heap option" where
  "adoptOnlyAt l h =
     (case h l of
        Some (i, Some [c]) \<Rightarrow>
          (case h c of None \<Rightarrow> Some h
           | Some (ci, _) \<Rightarrow> map_option (\<lambda>j. h(l \<mapsto> (j, Some [c]))) (adoptOnly [RouteRaw ci None] i))
      | _ \<Rightarrow> Some h)"

fun adoptAll :: "string list \<Rightarrow> menu_heap \<Rightarrow> menu_heap option" where
  "adoptAll [] h = Some h"
| "adoptAll (l # ls) h = Option.bind (adoptOnlyAt l h) (adoptAll ls)"

definition adjustAndCleanMenu :: "HideItem list \<Rightarrow> RouteRecordRaw list \<Rightarrow> (string list \<times> menu_heap) option" where
  "adjustAndCleanMenu menuItem ms =
     (let (names, h) = buildTree menuItem (itemMap ms) in map_option (Pair names) (adoptAll names h))"

text \<open>What \<open>JSON.stringify\<close> reads from a reference: a chain of references longer than there are objects
  runs in a circle, and raises.\<close>

fun readTree :: "nat \<Rightarrow> menu_heap \<Rightarrow> string \<Rightarrow> RouteRecordRaw option" where
  "readTree 0 h l = None"
| "readTree (Suc n) h l =
     (case h l of None \<Rightarrow> None
      | Some (i, None) \<Rightarrow> Some (RouteRaw i None)
      | Some (i, Some cs) \<Rightarrow> map_option (\<lambda>xs. RouteRaw i (Some xs)) (those (map (readTree n h) cs)))"

definition objectCount :: "RouteRecordRaw list \<Rightarrow> nat" where
  "objectCount ms = length (concat (map (\<lambda>parent. parent # kids (children parent)) ms))"

definition buildMenuListFromSettings ::
  "HideItem list \<Rightarrow> RouteRecordRaw list \<Rightarrow> world \<Rightarrow> RouteRecordRaw list option \<times> world"
where
  "buildMenuListFromSettings hideMenu ms w =
     (let showSet = getCheckedLabels hideMenu {}
      in case adjustAndCleanMenu hideMenu ms of
           None \<Rightarrow> (None, w)
         | Some (names, h) \<Rightarrow>
             (case those (map (readTree (objectCount ms) h) names) of
                None \<Rightarrow> (None, w)
              | Some menus \<Rightarrow> pruneMenus (shownAndAllowed showSet) menus w))"


section \<open>Search and display\<close>

text \<open>\<open>search\<close>: \<open>base\<close> is the answer of the settings request with its two menu fields, \<open>parse\<close> is
  \<open>JSON.parse\<close>, \<open>None\<close> where it raises. The store is written only where the list differs.\<close>

record sidebar =
  menus :: MenuState
  sworld :: world

definition storeMenus :: "RouteRecordRaw list \<Rightarrow> sidebar \<Rightarrow> sidebar" where
  "storeMenus ms b = (if storedMenus (menus b) = ms then b else b\<lparr>menus := setMenuList ms (menus b)\<rparr>)"

definition setDefaultMenuList :: "sidebar \<Rightarrow> sidebar option" where
  "setDefaultMenuList b =
     (let r = buildAuthVisibleMenuList menuList (sworld b)
      in map_option (\<lambda>ms. storeMenus ms (b\<lparr>sworld := snd r\<rparr>)) (fst r))"

definition search :: "(string \<Rightarrow> HideItem list option) \<Rightarrow> (string \<times> string) option \<Rightarrow> sidebar \<Rightarrow> sidebar option" where
  "search parse base b0 =
     (case base of
        None \<Rightarrow> setDefaultMenuList b0
      | Some (hideMenu, accordion) \<Rightarrow>
          (let b = b0\<lparr>sworld := (sworld b0)\<lparr>store := (store (sworld b0))\<lparr>menuAccordion := (accordion = ''Enable'')\<rparr>\<rparr>\<rparr>
           in if hideMenu = [] then setDefaultMenuList b
              else case parse hideMenu of
                None \<Rightarrow> setDefaultMenuList b
              | Some items \<Rightarrow>
                  (let r = buildMenuListFromSettings items menuList (sworld b); b1 = b\<lparr>sworld := snd r\<rparr>
                   in case fst r of None \<Rightarrow> setDefaultMenuList b1 | Some ms \<Rightarrow> Some (storeMenus ms b1))))"

fun registeredItem :: "(string \<Rightarrow> bool) \<Rightarrow> RouteRecordRaw \<Rightarrow> RouteRecordRaw option"
  and buildRegisteredMenuList :: "(string \<Rightarrow> bool) \<Rightarrow> RouteRecordRaw list \<Rightarrow> RouteRecordRaw list"
where
  "registeredItem hasRoute (RouteRaw i cs) =
     (case rawName i of None \<Rightarrow> None
      | Some n \<Rightarrow>
          if n = [] \<or> \<not> hasRoute n then None
          else case cs of
            None \<Rightarrow> Some (RouteRaw i None)
          | Some [] \<Rightarrow> Some (RouteRaw i (Some []))
          | Some (c # cs') \<Rightarrow>
              (case buildRegisteredMenuList hasRoute (c # cs') of [] \<Rightarrow> None | v # vs \<Rightarrow> Some (RouteRaw i (Some (v # vs)))))"
| "buildRegisteredMenuList hasRoute [] = []"
| "buildRegisteredMenuList hasRoute (x # xs) =
     (case registeredItem hasRoute x of None \<Rightarrow> buildRegisteredMenuList hasRoute xs
      | Some m \<Rightarrow> m # buildRegisteredMenuList hasRoute xs)"

definition routerMenus :: "(string \<Rightarrow> bool) \<Rightarrow> MenuState \<Rightarrow> RouteRecordRaw list" where
  "routerMenus hasRoute m =
     filter (\<lambda>r. case rawMeta (info r) of None \<Rightarrow> False | Some x \<Rightarrow> \<not> mhideInSidebar x)
       (buildRegisteredMenuList hasRoute (storedMenus m))"

text \<open>The path of the highlighted entry. A meta without \<open>activeMenu\<close> has an empty one in the model; no
  record of the program sets an empty text, for which the source would give that text.\<close>

definition activeMenuOf :: "route \<Rightarrow> string" where
  "activeMenuOf r = (if activeMenu (rmeta r) \<noteq> [] then activeMenu (rmeta r) else rpath r)"

definition onMounted :: "int \<Rightarrow> (string \<Rightarrow> HideItem list option) \<Rightarrow> (string \<times> string) option \<Rightarrow> sidebar \<Rightarrow> sidebar option" where
  "onMounted screenWidth parse base b =
     (let b1 = (if \<not> isCollapse (menus b) \<and> screenWidth < 1200 then b\<lparr>menus := setCollapse (menus b)\<rparr> else b);
          r = buildAuthVisibleMenuList menuList (sworld b1)
      in if storedMenus (menus b1) = []
         then Option.bind (fst r) (\<lambda>ms. search parse base (b1\<lparr>menus := setMenuList ms (menus b1), sworld := snd r\<rparr>))
         else search parse base b1)"


section \<open>Pruning by a stable check\<close>

definition keepMenus :: "(RouteInfo \<Rightarrow> bool) \<Rightarrow> RouteRecordRaw list \<Rightarrow> RouteRecordRaw list option" where
  "keepMenus P xs = fst (pruneMenus (\<lambda>i u. (P i, u)) xs ())"

locale menu_check = stable_check check spec obs inv
  for check :: "RouteInfo \<Rightarrow> 's \<Rightarrow> bool \<times> 's" and spec :: "'k \<Rightarrow> RouteInfo \<Rightarrow> bool"
    and obs :: "'s \<Rightarrow> 'k" and inv :: "'s \<Rightarrow> bool"
begin

abbreviation stableItem :: "RouteRecordRaw \<Rightarrow> 's \<Rightarrow> bool" where
  "stableItem x s \<equiv> fst (pruneItem check x s) = fst (pruneItem (\<lambda>i u. (spec (obs s) i, u)) x ()) \<and>
     obs (snd (pruneItem check x s)) = obs s \<and> inv (snd (pruneItem check x s))"

abbreviation stableMenus :: "RouteRecordRaw list \<Rightarrow> 's \<Rightarrow> bool" where
  "stableMenus xs s \<equiv> fst (pruneMenus check xs s) = fst (pruneMenus (\<lambda>i u. (spec (obs s) i, u)) xs ()) \<and>
     obs (snd (pruneMenus check xs s)) = obs s \<and> inv (snd (pruneMenus check xs s))"

lemma stable_list: "(\<And>x s. x \<in> set xs \<Longrightarrow> inv s \<Longrightarrow> stableItem x s) \<Longrightarrow> inv s \<Longrightarrow> stableMenus xs s"
proof (induction xs arbitrary: s)
  case (Cons x xs)
  then show ?case by (auto simp: Let_def split: option.splits)
qed simp

lemma stable_item: "inv s \<Longrightarrow> stableItem x s"
proof (induction x arbitrary: s)
  case (RouteRaw i cs)
  show ?case
  proof (cases cs)
    case (Some ys)
    then have ys: "stableMenus ys t" if "inv t" for t
      using RouteRaw.IH that by (intro stable_list) auto
    have c: "inv (snd (check i s))" "obs (snd (check i s)) = obs s" "fst (check i s) = spec (obs s) i"
      using RouteRaw.prems by (simp_all add: check_inv check_obs check_spec)
    show ?thesis
      using ys [OF c(1)] c Some by (cases ys) (auto simp: Let_def split: option.splits list.splits)
  qed (use RouteRaw.prems in \<open>simp add: Let_def check_inv check_obs check_spec\<close>)
qed

lemma prune_stable:
  assumes "inv s"
  shows "fst (pruneMenus check xs s) = keepMenus (spec (obs s)) xs" "obs (snd (pruneMenus check xs s)) = obs s"
    "inv (snd (pruneMenus check xs s))"
  using stable_list [OF stable_item assms] by (simp_all add: keepMenus_def)

end

fun trails :: "RouteRecordRaw \<Rightarrow> RouteInfo list list" where
  "trails (RouteRaw i None) = [[i]]"
| "trails (RouteRaw i (Some [])) = [[i]]"
| "trails (RouteRaw i (Some (c # cs))) = map ((#) i) (concat (map trails (c # cs)))"

lemma trails_nonempty: "trails r \<noteq> []"
  by (induction r rule: trails.induct) auto

definition entryKey :: "RouteInfo \<Rightarrow> string \<times> string option \<times> RouteAccessMeta option" where
  "entryKey i = (rawPath i, rawName i, metaOf i)"

lemma copyInfo_key [simp]: "entryKey (copyInfo i) = entryKey i" "metaOf (copyInfo i) = metaOf i"
  by (simp_all add: copyInfo_def entryKey_def metaOf_def)

lemma adoptOnly_key: "adoptOnly cs i = Some j \<Longrightarrow> entryKey j = entryKey i"
  by (auto simp: adoptOnly_def entryKey_def metaOf_def accessMeta_def RouteAccessMeta.defs
      split: list.splits option.splits if_splits)

lemma showXpack_key: "showXpack i = Some j \<Longrightarrow> entryKey j = entryKey i"
  by (auto simp: showXpack_def entryKey_def metaOf_def accessMeta_def RouteAccessMeta.defs split: if_splits)

lemma finishMenu_key: "finishMenu i cs = Some r \<Longrightarrow> \<exists>j. r = RouteRaw j (Some cs) \<and> entryKey j = entryKey i"
  unfolding finishMenu_def using adoptOnly_key showXpack_key by (fastforce simp: bind_eq_Some_conv)

text \<open>What is kept: of the ways from the top to an innermost entry, exactly those admitted at each step.\<close>

definition keepItem :: "(RouteInfo \<Rightarrow> bool) \<Rightarrow> RouteRecordRaw \<Rightarrow> RouteRecordRaw option option" where
  "keepItem P x = fst (pruneItem (\<lambda>i u. (P i, u)) x ())"

lemma keep_simps [simp]:
  "keepMenus P [] = Some []"
  "keepMenus P (x # xs) = (case keepItem P x of None \<Rightarrow> None
     | Some v \<Rightarrow> map_option (\<lambda>vs. case v of None \<Rightarrow> vs | Some m \<Rightarrow> m # vs) (keepMenus P xs))"
  "keepItem P (RouteRaw i None) = Some (if P i then Some (RouteRaw (copyInfo i) None) else None)"
  "keepItem P (RouteRaw i (Some [])) = Some (if P i then Some (RouteRaw (copyInfo i) (Some [])) else None)"
  "keepItem P (RouteRaw i (Some (c # cs))) = (if \<not> P i then Some None else
     case keepMenus P (c # cs) of None \<Rightarrow> None | Some [] \<Rightarrow> Some None
     | Some (v # vs) \<Rightarrow> map_option Some (finishMenu (copyInfo i) (v # vs)))"
  by (simp_all add: keepMenus_def keepItem_def Let_def split: option.splits)

abbreviation keysOf :: "RouteRecordRaw list \<Rightarrow> (string \<times> string option \<times> RouteAccessMeta option) list list" where
  "keysOf xs \<equiv> map (map entryKey) (concat (map trails xs))"

abbreviation admitted :: "(RouteInfo \<Rightarrow> bool) \<Rightarrow> RouteRecordRaw list \<Rightarrow> (string \<times> string option \<times> RouteAccessMeta option) list list" where
  "admitted P xs \<equiv> map (map entryKey) (filter (list_all P) (concat (map trails xs)))"

lemma keep_list:
  assumes "\<And>x v. x \<in> set xs \<Longrightarrow> keepItem P x = Some v \<Longrightarrow> keysOf (case v of None \<Rightarrow> [] | Some m \<Rightarrow> [m]) = admitted P [x]"
    and "keepMenus P xs = Some out"
  shows "keysOf out = admitted P xs"
  using assms
proof (induction xs arbitrary: out)
  case (Cons x xs)
  from Cons.prems(2) obtain v vs where v: "keepItem P x = Some v" "keepMenus P xs = Some vs"
    and out: "out = (case v of None \<Rightarrow> vs | Some m \<Rightarrow> m # vs)"
    by (auto split: option.splits)
  have "keysOf vs = admitted P xs" using Cons.IH [OF _ v(2)] Cons.prems(1) by auto
  then show ?case using Cons.prems(1) [OF _ v(1)] out by (cases v) auto
qed simp

lemma keep_item: "keepItem P x = Some v \<Longrightarrow> keysOf (case v of None \<Rightarrow> [] | Some m \<Rightarrow> [m]) = admitted P [x]"
proof (induction x arbitrary: v)
  case (RouteRaw i cs)
  consider "cs = None" | "cs = Some []" | c ys where "cs = Some (c # ys)" by (metis neq_Nil_conv option.exhaust)
  then show ?case
  proof cases
    case 3
    have ih: "keysOf out = admitted P (c # ys)" if "keepMenus P (c # ys) = Some out" for out
    proof (rule keep_list [OF _ that])
      fix x v assume "x \<in> set (c # ys)" "keepItem P x = Some v"
      then show "keysOf (case v of None \<Rightarrow> [] | Some m \<Rightarrow> [m]) = admitted P [x]"
        using RouteRaw.IH [of "c # ys" x v] 3 by simp
    qed
    have f: "filter (list_all P) (map ((#) i) xs) = (if P i then map ((#) i) (filter (list_all P) xs) else [])" for xs
      by (induction xs) auto
    have adm: "admitted P [RouteRaw i cs] = (if P i then map ((#) (entryKey i)) (admitted P (c # ys)) else [])"
      unfolding 3 by (simp only: trails.simps list.map concat.simps append_Nil2 f) simp
    show ?thesis
    proof (cases "P i")
      case True
      then obtain out where out: "keepMenus P (c # ys) = Some out"
        "v = None \<and> out = [] \<or> (\<exists>m. v = Some m \<and> out \<noteq> [] \<and> finishMenu (copyInfo i) out = Some m)"
        using RouteRaw.prems unfolding 3 keep_simps by (auto simp del: keep_simps(2) split: option.splits list.splits)
      from out(2) show ?thesis
      proof
        assume "v = None \<and> out = []"
        then show ?thesis using ih [OF out(1)] adm True by simp
      next
        assume "\<exists>m. v = Some m \<and> out \<noteq> [] \<and> finishMenu (copyInfo i) out = Some m"
        then obtain m j o1 os where m: "v = Some m" "out = o1 # os" "m = RouteRaw j (Some out)" "entryKey j = entryKey i"
          by (auto simp: neq_Nil_conv dest!: finishMenu_key)
        have "keysOf [m] = map ((#) (entryKey i)) (keysOf out)" using m(4) by (simp add: m(2,3))
        then show ?thesis using ih [OF out(1)] adm True m(1) by simp
      qed
    next
      case False
      then show ?thesis using RouteRaw.prems adm unfolding 3 keep_simps by simp
    qed
  qed (use RouteRaw.prems in auto)
qed


text \<open>Pruning raises only where an item without \<open>meta\<close> has children.\<close>

fun metaed :: "RouteRecordRaw \<Rightarrow> bool" where
  "metaed (RouteRaw i None) = True"
| "metaed (RouteRaw i (Some [])) = True"
| "metaed (RouteRaw i (Some (c # cs))) = (rawMeta i \<noteq> None \<and> list_all metaed (c # cs))"

lemma finishMenu_total: "rawMeta i \<noteq> None \<Longrightarrow> finishMenu i cs \<noteq> None"
  by (auto simp: finishMenu_def adoptOnly_def showXpack_def split: list.split option.split)

lemma keep_list_total: "\<forall>x \<in> set xs. keepItem P x \<noteq> None \<Longrightarrow> keepMenus P xs \<noteq> None"
  by (induction xs) auto

lemma keep_total: "metaed x \<Longrightarrow> keepItem P x \<noteq> None"
proof (induction x rule: metaed.induct)
  case (3 i c cs)
  have "keepMenus P (c # cs) \<noteq> None"
    using 3 by (intro keep_list_total) (auto simp del: keep_simps simp: list_all_iff)
  moreover have "finishMenu (copyInfo i) vs \<noteq> None" for vs
    using 3 by (intro finishMenu_total) (simp add: copyInfo_def)
  ultimately show ?case
    unfolding keep_simps(5) by (auto simp del: keep_simps split: list.split)
qed auto

definition itemAllowed :: "GlobalState \<Rightarrow> RouteInfo \<Rightarrow> bool" where
  "itemAllowed s i \<longleftrightarrow> roleAllowed s (metaOf i) \<and> metaAllowed s (case metaOf i of None \<Rightarrow> PUndef | Some m \<Rightarrow> permission m)"

definition shownAllowed :: "string set \<Rightarrow> GlobalState \<Rightarrow> RouteInfo \<Rightarrow> bool" where
  "shownAllowed showSet s i \<longleftrightarrow> (\<exists>n \<in> showSet. n \<noteq> [] \<and> rawName i = Some n) \<and> itemAllowed s i"

interpretation am: menu_check allowMenuItem itemAllowed store reachable
  by unfold_locales
    (auto simp: allowMenuItem_def itemAllowed_def hasRouteRoleAccess_iff pm.check_spec pm.check_obs pm.check_inv)

interpretation sm: menu_check "shownAndAllowed showSet" "shownAllowed showSet" store reachable for showSet
  by unfold_locales
    (auto simp: shownAndAllowed_def shownAllowed_def am.check_spec am.check_obs am.check_inv split: option.splits)

lemma menuList_metaed: "list_all metaed menuList"
  by code_simp

lemma default_menu:
  assumes "reachable w"
  shows "\<exists>out. fst (buildAuthVisibleMenuList menuList w) = Some out \<and> keysOf out = admitted (itemAllowed (store w)) menuList"
    "reachable (snd (buildAuthVisibleMenuList menuList w))" "store (snd (buildAuthVisibleMenuList menuList w)) = store w"
proof -
  have "keepMenus (itemAllowed (store w)) menuList \<noteq> None"
    using menuList_metaed keep_total by (intro keep_list_total) (simp add: list_all_iff)
  then obtain out where out: "keepMenus (itemAllowed (store w)) menuList = Some out" by blast
  have "keysOf out = admitted (itemAllowed (store w)) menuList" by (rule keep_list [OF keep_item out])
  then show "\<exists>out. fst (buildAuthVisibleMenuList menuList w) = Some out \<and> keysOf out = admitted (itemAllowed (store w)) menuList"
    using am.prune_stable(1) [OF assms] out by (simp add: buildAuthVisibleMenuList_def)
qed (simp_all add: buildAuthVisibleMenuList_def am.prune_stable [OF assms])


text \<open>Every entry of a menu, at every depth.\<close>

definition everyEntry :: "(RouteInfo \<Rightarrow> bool) \<Rightarrow> RouteRecordRaw list \<Rightarrow> bool" where
  "everyEntry P ms = list_all (list_all P) (concat (map trails ms))"

lemma everyEntry_kept:
  assumes "\<And>i j. entryKey i = entryKey j \<Longrightarrow> P i = P j" "keepMenus P ms = Some out"
  shows "everyEntry P out"
proof -
  have keys: "keysOf out = admitted P ms" by (rule keep_list [OF keep_item assms(2)])
  have P: "list_all P t = list_all (\<lambda>k. \<exists>i. k = entryKey i \<and> P i) (map entryKey t)" for t
  proof -
    have "(\<lambda>i. \<exists>j. entryKey i = entryKey j \<and> P j) = P" using assms(1) by (intro ext) blast
    then show ?thesis by (simp add: list.pred_map o_def)
  qed
  have "list_all P t" if "t \<in> set (concat (map trails out))" for t
  proof -
    have "map entryKey t \<in> set (admitted P ms)" using that by (simp add: keys [symmetric])
    then obtain t' where "map entryKey t = map entryKey t'" "list_all P t'" by auto
    then show ?thesis using P [of t] P [of t'] by simp
  qed
  then show ?thesis by (simp add: everyEntry_def list_all_iff)
qed

lemma everyEntry_filter: "everyEntry P ms \<Longrightarrow> everyEntry P (filter Q ms)"
  by (auto simp: everyEntry_def list_all_iff)

lemma everyEntry_mono: "everyEntry P ms \<Longrightarrow> (\<And>i. P i \<Longrightarrow> Q i) \<Longrightarrow> everyEntry Q ms"
  by (auto simp: everyEntry_def list_all_iff)

lemma everyEntry_setMenuList: "everyEntry P ms \<Longrightarrow> everyEntry P (storedMenus (setMenuList ms m))"
  by (simp add: setMenuList_def everyEntry_filter)

lemma itemAllowed_key: "entryKey i = entryKey j \<Longrightarrow> itemAllowed s i = itemAllowed s j"
  by (simp add: entryKey_def itemAllowed_def)

lemma shownAllowed_key: "entryKey i = entryKey j \<Longrightarrow> shownAllowed S s i = shownAllowed S s j"
  by (simp add: entryKey_def shownAllowed_def itemAllowed_def)

lemma registered_trails:
  "registeredItem hasRoute x = Some y \<Longrightarrow> set (trails y) \<subseteq> set (trails x) \<and>
     (\<forall>t \<in> set (trails y). \<forall>i \<in> set t. \<exists>n. rawName i = Some n \<and> hasRoute n)"
  "set (concat (map trails (buildRegisteredMenuList hasRoute xs))) \<subseteq> set (concat (map trails xs)) \<and>
     (\<forall>t \<in> set (concat (map trails (buildRegisteredMenuList hasRoute xs))). \<forall>i \<in> set t. \<exists>n. rawName i = Some n \<and> hasRoute n)"
proof (induction hasRoute x and hasRoute xs arbitrary: y and rule: registeredItem_buildRegisteredMenuList.induct)
  case (1 hasRoute i cs)
  consider "cs = None" | "cs = Some []" | c ys where "cs = Some (c # ys)" by (metis neq_Nil_conv option.exhaust)
  then show ?case
  proof cases
    case 3
    with "1.prems" obtain n v vs where n: "rawName i = Some n" "\<not> (n = [] \<or> \<not> hasRoute n)"
      and r: "buildRegisteredMenuList hasRoute (c # ys) = v # vs" and y: "y = RouteRaw i (Some (v # vs))"
      by (auto simp del: buildRegisteredMenuList.simps(2) split: option.splits if_splits list.splits)
    have t: "trails y = map ((#) i) (concat (map trails (v # vs)))"
      "trails (RouteRaw i cs) = map ((#) i) (concat (map trails (c # ys)))"
      unfolding y 3 by (rule trails.simps(3))+
    note ih = "1.IH" [OF n 3 refl, unfolded r]
    then have "set (trails y) \<subseteq> set (trails (RouteRaw i cs))" unfolding t set_map by (intro image_mono) (rule conjunct1)
    moreover have "\<forall>s \<in> set (trails y). \<forall>j \<in> set s. \<exists>n. rawName j = Some n \<and> hasRoute n"
      unfolding t set_map using conjunct2 [OF ih] n by simp
    ultimately show ?thesis by (rule conjI)
  qed (use 1 in \<open>auto split: option.splits if_splits\<close>)
next
  case (3 hasRoute x xs)
  then show ?case by (cases "registeredItem hasRoute x") auto
qed simp

lemma everyEntry_shown:
  assumes "everyEntry P (storedMenus m)"
  shows "everyEntry (\<lambda>i. P i \<and> (\<exists>n. rawName i = Some n \<and> hasRoute n)) (routerMenus hasRoute m)"
  unfolding routerMenus_def
  using assms registered_trails(2) [of hasRoute "storedMenus m"]
  by (intro everyEntry_filter) (auto simp: everyEntry_def list_all_iff)


section \<open>What the menu shows\<close>

lemma settings_menu:
  assumes "reachable w"
  shows "fst (buildMenuListFromSettings items ms w) = Some out \<Longrightarrow>
      everyEntry (shownAllowed (getCheckedLabels items {}) (store w)) out"
    "reachable (snd (buildMenuListFromSettings items ms w))" "store (snd (buildMenuListFromSettings items ms w)) = store w"
proof -
  let ?S = "getCheckedLabels items {}"
  have "buildMenuListFromSettings items ms w = (None, w) \<or>
      (\<exists>xs. buildMenuListFromSettings items ms w = pruneMenus (shownAndAllowed ?S) xs w)"
    by (auto simp: buildMenuListFromSettings_def Let_def split: option.split prod.split)
  then consider "buildMenuListFromSettings items ms w = (None, w)"
    | xs where "buildMenuListFromSettings items ms w = pruneMenus (shownAndAllowed ?S) xs w" by blast
  then have "reachable (snd (buildMenuListFromSettings items ms w)) \<and> store (snd (buildMenuListFromSettings items ms w)) = store w \<and>
      (fst (buildMenuListFromSettings items ms w) = Some out \<longrightarrow> everyEntry (shownAllowed ?S (store w)) out)"
  proof cases
    case 1
    then show ?thesis using assms by simp
  next
    case (2 xs)
    have "keepMenus (shownAllowed ?S (store w)) xs = Some out \<longrightarrow> everyEntry (shownAllowed ?S (store w)) out"
      by (rule impI, rule everyEntry_kept [OF shownAllowed_key])
    then show ?thesis unfolding 2 using sm.prune_stable [OF assms] by simp
  qed
  then show "reachable (snd (buildMenuListFromSettings items ms w))"
      "store (snd (buildMenuListFromSettings items ms w)) = store w"
      "fst (buildMenuListFromSettings items ms w) = Some out \<Longrightarrow> everyEntry (shownAllowed ?S (store w)) out"
    by simp_all
qed

lemma stored_entries: "everyEntry P ms \<Longrightarrow> everyEntry P (storedMenus (menus (storeMenus ms b)))"
  by (simp add: storeMenus_def everyEntry_setMenuList)

lemma storeMenus_world [simp]: "sworld (storeMenus ms b) = sworld b"
  by (simp add: storeMenus_def)

lemma itemAllowed_accordion: "itemAllowed (s\<lparr>menuAccordion := a\<rparr>) = itemAllowed s"
  by (rule ext) (simp add: itemAllowed_def roleAllowed_def metaAllowed_def allowed_def restricted_def isMaster_def
      isNodeAdmin_def split: PermissionValue.split option.split)

definition safeFor :: "GlobalState \<Rightarrow> sidebar option \<Rightarrow> bool" where
  "safeFor s r = (case r of None \<Rightarrow> False | Some b \<Rightarrow> everyEntry (itemAllowed s) (storedMenus (menus b)))"

lemma setDefault_safe:
  assumes "reachable (sworld b)"
  shows "safeFor (store (sworld b)) (setDefaultMenuList b)"
proof -
  from default_menu [OF assms] obtain out where out: "fst (buildAuthVisibleMenuList menuList (sworld b)) = Some out" by blast
  then have "everyEntry (itemAllowed (store (sworld b))) out"
    using everyEntry_kept [OF itemAllowed_key] am.prune_stable(1) [OF assms] by (simp add: buildAuthVisibleMenuList_def)
  then show ?thesis
    using out by (simp add: setDefaultMenuList_def safeFor_def stored_entries Let_def)
qed

lemma search_safe:
  assumes "reachable (sworld b)"
  shows "safeFor (store (sworld b)) (search parse base b)"
proof (cases base)
  case None
  then show ?thesis using setDefault_safe [OF assms] by (simp add: search_def)
next
  case (Some base')
  obtain hideMenu accordion where base: "base = Some (hideMenu, accordion)" using Some by (cases base') auto
  define b1 where "b1 = b\<lparr>sworld := (sworld b)\<lparr>store := (store (sworld b))\<lparr>menuAccordion := (accordion = ''Enable'')\<rparr>\<rparr>\<rparr>"
  have r1: "reachable (sworld b1)" using assms by (simp add: b1_def reachable.assigned)
  have st: "safeFor (store (sworld b1)) = safeFor (store (sworld b))"
    by (rule ext) (simp add: b1_def safeFor_def itemAllowed_accordion split: option.split)
  show ?thesis
  proof (cases "hideMenu = [] \<or> parse hideMenu = None")
    case True
    then show ?thesis
      using setDefault_safe [OF r1, unfolded st] by (auto simp: search_def base b1_def [symmetric] Let_def)
  next
    case False
    then obtain items where items: "hideMenu \<noteq> []" "parse hideMenu = Some items" by auto
    let ?r = "buildMenuListFromSettings items menuList (sworld b1)"
    note sm = settings_menu [OF r1, of items menuList]
    have eq: "search parse base b = (case fst ?r of None \<Rightarrow> setDefaultMenuList (b1\<lparr>sworld := snd ?r\<rparr>)
        | Some ms \<Rightarrow> Some (storeMenus ms (b1\<lparr>sworld := snd ?r\<rparr>)))"
      using items by (simp add: search_def base b1_def Let_def split: option.split)
    have "safeFor (store (sworld b1)) (search parse base b)"
    proof (cases "fst ?r")
      case None
      then show ?thesis using setDefault_safe [of "b1\<lparr>sworld := snd ?r\<rparr>"] sm(2,3) eq by simp
    next
      case (Some ms)
      have "everyEntry (itemAllowed (store (sworld b1))) ms"
        using sm(1) [OF Some] by (rule everyEntry_mono) (simp add: shownAllowed_def)
      then show ?thesis using Some eq by (simp add: safeFor_def stored_entries)
    qed
    then show ?thesis unfolding st .
  qed
qed


section \<open>Properties\<close>

text \<open>C16. The default menu never fails to build and is exact: of the ways through the menu tree from
  the top to an innermost entry, it keeps, in order, those all of whose records admit the user,
  with their paths, names and demands unchanged, and no others.\<close>

theorem default_menu_exact:
  assumes "reachable w"
  shows "\<exists>out. fst (buildAuthVisibleMenuList menuList w) = Some out \<and>
    map (map entryKey) (concat (map trails out)) =
    map (map entryKey) (filter (\<lambda>t. metasAllowed (store w) (map metaOf t)) (concat (map trails menuList)))"
proof -
  have "(\<lambda>t. metasAllowed (store w) (map metaOf t)) = list_all (itemAllowed (store w))"
    by (rule ext) (simp add: metasAllowed_def list.pred_map o_def itemAllowed_def [abs_def])
  then show ?thesis using default_menu(1) [OF assms] by simp
qed

theorem default_menu_exact_witness:
  "\<exists>out. fst (buildAuthVisibleMenuList menuList adminWorld) = Some out \<and>
     map (map entryKey) (concat (map trails out)) =
     map (map entryKey) (filter (\<lambda>t. metasAllowed (store adminWorld) (map metaOf t)) (concat (map trails menuList)))"
  by (rule default_menu_exact) (use reachable_admin(1) in \<open>simp add: adminPanel_def\<close>)

text \<open>C4. Whatever the settings request answers (nothing, an arrangement that does not parse, one that
  moves, repeats or nests entries, even in a circle), the search ends with a menu each of whose
  displayed entries, at every depth, admits the user and is a registered route.\<close>

theorem sidebar_safe:
  assumes "reachable (sworld b)"
  shows "\<exists>b'. search parse base b = Some b' \<and>
    everyEntry (\<lambda>i. roleAllowed (store (sworld b)) (metaOf i) \<and>
        metaAllowed (store (sworld b)) (case metaOf i of None \<Rightarrow> PUndef | Some m \<Rightarrow> permission m) \<and>
        (\<exists>n. rawName i = Some n \<and> hasRoute n)) (routerMenus hasRoute (menus b'))"
proof -
  from search_safe [OF assms, of parse base] obtain b' where b': "search parse base b = Some b'"
    "everyEntry (itemAllowed (store (sworld b))) (storedMenus (menus b'))"
    by (auto simp: safeFor_def split: option.splits)
  have "everyEntry (\<lambda>i. itemAllowed (store (sworld b)) i \<and> (\<exists>n. rawName i = Some n \<and> hasRoute n))
      (routerMenus hasRoute (menus b'))"
    by (rule everyEntry_shown [OF b'(2)])
  then show ?thesis using b'(1) by (auto simp: itemAllowed_def elim: everyEntry_mono)
qed

theorem sidebar_safe_witness:
  "\<exists>b'. search (\<lambda>_. Some [HideItem ''App-Menu'' True (Some [HideItem ''App-Menu'' True None])]) (Some (''x'', ''Enable''))
       \<lparr>menus = initialMenu, sworld = adminWorld\<rparr> = Some b' \<and>
     everyEntry (\<lambda>i. roleAllowed (store adminWorld) (metaOf i) \<and>
        metaAllowed (store adminWorld) (case metaOf i of None \<Rightarrow> PUndef | Some m \<Rightarrow> permission m) \<and>
        (\<exists>n. rawName i = Some n \<and> n \<noteq> [])) (routerMenus (\<lambda>n. n \<noteq> []) (menus b'))"
proof -
  have "reachable adminWorld" using reachable_admin(1) by (simp add: adminPanel_def)
  then show ?thesis using sidebar_safe [of "\<lparr>menus = initialMenu, sworld = adminWorld\<rparr>"] by simp
qed

end
