(* ===== verification/Navigation.thy ===== *)
theory Navigation
  imports Route_Table
begin

text \<open>
  A whole navigation: the router runs \<open>beforeEach\<close> on the target, and where the guard answers
  with a location it resolves that and runs the guard again, until the guard lets through,
  cancels or raises; then \<open>afterEach\<close> runs. The router is a parameter, the function from the
  guard's answer to the route it resolves to; the locale \<open>router\<close> states what its documentation
  promises of it, and the route table provides an instance. The theory shows that this loop
  ends: the answers of the guard never send a navigation in a circle.
\<close>

section \<open>Following the guard\<close>

datatype nav_end = Entered route | Stopped | Failed

fun navigate ::
  "nat \<Rightarrow> (guard_result \<Rightarrow> route) \<Rightarrow> (string \<Rightarrow> route) \<Rightarrow> license_status answer \<Rightarrow> license_status answer \<Rightarrow>
   route \<Rightarrow> route \<Rightarrow> panel \<Rightarrow> (nav_end \<times> panel) option"
where
  "navigate 0 locate resolve getL getE to frm p = None"
| "navigate (Suc n) locate resolve getL getE to frm p =
     (let r = beforeEach resolve getL getE to frm p
      in case fst r of
           Proceed \<Rightarrow> Some (Entered to, afterEach to (snd r))
         | Cancel \<Rightarrow> Some (Stopped, afterEach to (snd r))
         | LoadError \<Rightarrow> Some (Failed, snd r)
         | _ \<Rightarrow> navigate n locate resolve getL getE (locate (fst r)) frm (snd r))"

lemma beforeEach_login:
  assumes "reachable (gw p)"
  shows "isLogin (gstate (snd (beforeEach resolve getL getE to frm p))) = isLogin (gstate p)"
proof (rule beforeEach_shape [OF assms, of getL getE to resolve frm])
  fix p' ok s1
  assume "isLogin (gstate p') = isLogin (gstate p)" "isLogin s1 = isLogin (gstate p)"
    "beforeEach resolve getL getE to frm p = guardChain resolve to frm p p' ok s1"
    "guardState getL getE to p = setState s1 p'"
  then show ?thesis
    using accessGuard_answers(1) [OF guardState_props(1) [OF assms], of resolve to frm getL getE to]
    by (simp add: guardChain_def)
qed

text \<open>What the router's documentation promises: a location with a name resolves to the record of that
  name, a path to the record it determines and to the given query, and a location with a name
  only brings no query (the one of the licence page has \<open>code\<close>).\<close>

locale router =
  fixes locate :: "guard_result \<Rightarrow> route"
    and nameAt :: "string \<Rightarrow> string"
  assumes to_name: "rname (locate (ToName n)) = n" "\<not> queryDefined ''uncached'' (locate (ToName n))"
    and to_entrance: "rname (locate (ToEntrance c)) = ''entrance''" "\<not> queryDefined ''uncached'' (locate (ToEntrance c))"
    and to_license: "rname (locate (ToLicense l)) = ''EnterpriseLicenseRequired''"
      "\<not> queryDefined ''uncached'' (locate (ToLicense l))"
    and to_path: "rname (locate (ToPath x q)) = nameAt x" "rquery (locate (ToPath x q)) = q"
    and to_cached: "rname (locate (ToCached d)) = nameAt (rpath (locate (ToCached d)))"
begin

text \<open>The weight of a navigation: what the guard may still answer before it lets through.\<close>

definition rank :: "route \<Rightarrow> GlobalState \<Rightarrow> nat" where
  "rank to s =
     (if \<not> isLogin s then
        (if rname to \<notin> set noLoginWhiteList then 3
         else if rname to = ''login'' \<and> entrance s \<noteq> [] then 2
         else if queryDefined ''uncached'' to then 1 else 0)
      else if rname to \<in> {''login'', ''entrance''} then 3
      else if rname to = ''EnterpriseLicenseRequired'' then (if \<not> isEnterprise s \<or> isEnterpriseLicensed s then 3 else 0)
      else if queryDefined ''uncached'' to then 2 else 1)"

definition weight :: "route \<Rightarrow> panel \<Rightarrow> nat" where
  "weight to p = (if isRedirecting p then 0 else 4) + rank to (gstate p)"

definition placed :: "route \<Rightarrow> bool" where
  "placed to \<longleftrightarrow> (queryDefined ''uncached'' to \<longrightarrow> rname to = nameAt (rpath to))"

lemma rank_le: "rank to s \<le> 3"
  by (simp add: rank_def)

lemma weight_le: "weight to p \<le> 7"
  using rank_le [of to "gstate p"] by (simp add: weight_def)

lemma dropped_query: "\<not> queryDefined ''uncached'' (locate (ToPath x (filter (\<lambda>kv. fst kv \<noteq> ''uncached'') q)))"
proof -
  have "map_of (filter (\<lambda>kv. fst kv \<noteq> ''uncached'') q) ''uncached'' = None" by (auto simp: map_of_eq_None_iff)
  then show ?thesis by (simp add: queryDefined_def to_path)
qed

lemma redirect_lighter:
  assumes "reachable (gw p)" "placed to" "fst (beforeEach resolve getL getE to frm p) = g"
    and "g \<notin> {Proceed, Cancel, LoadError}"
  shows "weight (locate g) (snd (beforeEach resolve getL getE to frm p)) < weight to p \<and> placed (locate g) \<and>
    reachable (gw (snd (beforeEach resolve getL getE to frm p)))"
proof -
  let ?b = "beforeEach resolve getL getE to frm p"
  obtain p' ok s1 where r: "reachable (gw p')" and gs: "guardState getL getE to p = setState s1 p'"
    and same: "isLogin (gstate p') = isLogin (gstate p)" "isLogin s1 = isLogin (gstate p)"
      "entrance (gstate p') = entrance (gstate p)" "entrance s1 = entrance (gstate p)"
      "isEnterprise (gstate p') = isEnterprise (gstate p)" "isEnterprise s1 = isEnterprise (gstate p)"
      "isRedirecting p' = isRedirecting p"
    and lic: "isLogin (gstate p) \<Longrightarrow> rname to \<in> set enterpriseLicenseCheckWhiteList \<Longrightarrow>
       isEnterpriseLicensed s1 = isEnterpriseLicensed (gstate p)"
    and b: "?b = guardChain resolve to frm p p' ok s1"
    by (rule beforeEach_shape [OF assms(1), of getL getE to resolve frm]) blast
  have r1: "reachable (gw (setState s1 p'))" using guardState_props(1) [OF assms(1), of getL getE to] by (simp add: gs)
  note laws = to_name to_entrance to_license
  show ?thesis
  proof (cases "?b = accessGuard resolve to frm (setState s1 p') \<and>
      (isLogin (gstate p) \<or> rname to \<in> set noLoginWhiteList \<and> \<not> (rname to = ''login'' \<and> entrance (gstate p) \<noteq> [])) \<and>
      (isLogin (gstate p) \<longrightarrow> rname to \<notin> {''login'', ''entrance'', ''EnterpriseLicenseRequired''})")
    case True
    note ans = accessGuard_answers [OF r1, of resolve to frm]
    from ans(3) True assms(3,4) consider
        c where "g = ToCached c" "\<not> isRedirecting p" "isRedirecting (snd ?b)"
      | "queryDefined ''uncached'' to" "g = ToPath (rpath to) (filter (\<lambda>kv. fst kv \<noteq> ''uncached'') (rquery to))"
        "isRedirecting (snd ?b) = isRedirecting p"
      using same(7) by auto
    then show ?thesis
    proof cases
      case 1
      then show ?thesis
        using ans(2) True rank_le [of "locate g" "gstate (snd ?b)"] to_cached by (simp add: weight_def placed_def)
    next
      case 2
      then have "rname (locate g) = rname to" "\<not> queryDefined ''uncached'' (locate g)"
        using assms(2) dropped_query by (simp_all add: to_path placed_def)
      then show ?thesis
        using ans(1,2) True 2 same by (auto simp: weight_def placed_def rank_def)
    qed
  next
    case False
    have st: "isLogin (gstate q) = isLogin (gstate p)" "entrance (gstate q) = entrance (gstate p)"
        "isEnterprise (gstate q) = isEnterprise (gstate p)" "isRedirecting q = isRedirecting p" "reachable (gw q)"
      if "q \<in> {p', setState s1 p'}" for q
      using that same r r1 by auto
    consider (guest) "\<not> isLogin (gstate p)" "rank to (gstate p) \<ge> 2" "snd ?b \<in> {p', setState s1 p'}"
        "(\<exists>c. g = ToEntrance c) \<or> g = ToName ''login'' \<and> entrance (gstate p) = []"
      | (user) "isLogin (gstate p)" "rank to (gstate p) = 3" "snd ?b \<in> {p', setState s1 p'}"
        "g = ToName ''home'' \<or> g = ToName ''404''"
      | (license) l where "isLogin (gstate p)" "rank to (gstate p) \<ge> 1" "snd ?b = setState s1 p'" "g = ToLicense l"
        "isEnterprise (gstate p)" "\<not> isEnterpriseLicensed s1"
    proof (cases "isLogin (gstate p)")
      case out: False
      consider "rname to \<notin> set noLoginWhiteList" | "rname to \<in> set noLoginWhiteList" "rname to = ''login''" "entrance (gstate p) \<noteq> []"
        | "rname to \<in> set noLoginWhiteList" "\<not> (rname to = ''login'' \<and> entrance (gstate p) \<noteq> [])" by blast
      then show ?thesis
      proof cases
        case 3
        then have "rname to \<noteq> ''EnterpriseLicenseRequired''" by (auto simp: noLoginWhiteList_def)
        with 3 out have "?b = (if ok then accessGuard resolve to frm (setState s1 p') else (LoadError, setState s1 p'))"
          unfolding b guardChain_def by auto
        with 3 out False assms(3,4) show ?thesis by (cases ok) auto
      qed (use out b assms(3) in \<open>auto intro!: guest simp: guardChain_def rank_def split: if_splits\<close>)
    next
      case inside: True
      consider "rname to \<in> {''login'', ''entrance''}" | "rname to = ''EnterpriseLicenseRequired''"
        | "rname to \<notin> {''login'', ''entrance'', ''EnterpriseLicenseRequired''}" by blast
      then show ?thesis
      proof cases
        case 1
        with inside b assms(3) show ?thesis by (intro user) (auto simp: guardChain_def rank_def split: if_splits)
      next
        case 2
        then have w: "rname to \<in> set enterpriseLicenseCheckWhiteList" by (simp add: enterpriseLicenseCheckWhiteList_def)
        from 2 inside b assms(3,4) w have g: "\<not> isEnterprise (gstate p) \<or> isEnterpriseLicensed s1" "ok"
          by (auto simp: guardChain_def split: if_splits)
        with 2 inside b assms(3) w lic show ?thesis by (intro user) (simp_all add: guardChain_def rank_def)
      next
        case 3
        with inside False b assms(3,4) have "ok" "\<not> isEnterpriseLicensed s1" "isEnterprise (gstate p)"
            "rname to \<notin> set enterpriseLicenseCheckWhiteList"
          by (auto simp: guardChain_def split: if_splits)
        with 3 inside b assms(3) show ?thesis by (intro license) (auto simp: guardChain_def rank_def)
      qed
    qed
    then show ?thesis
    proof cases
      case guest
      have "rank (locate g) (gstate (snd ?b)) = 0 \<and> \<not> queryDefined ''uncached'' (locate g)"
        using guest(4)
      proof
        assume "\<exists>c. g = ToEntrance c"
        then obtain c where "g = ToEntrance c" by blast
        then show ?thesis using guest(1) st [OF guest(3)] to_entrance [of c] by (simp add: rank_def noLoginWhiteList_def)
      next
        assume "g = ToName ''login'' \<and> entrance (gstate p) = []"
        then show ?thesis
          using guest(1) st [OF guest(3)] to_name [of "''login''"] by (simp add: rank_def noLoginWhiteList_def)
      qed
      then show ?thesis using st [OF guest(3)] guest(2) by (simp add: weight_def placed_def)
    next
      case user
      have "rank (locate g) (gstate (snd ?b)) = 1 \<and> \<not> queryDefined ''uncached'' (locate g)"
        using user(4,1) st [OF user(3)] to_name [of "''home''"] to_name [of "''404''"]
        by (elim disjE) (simp_all add: rank_def)
      then show ?thesis using st [OF user(3)] user(2) by (simp add: weight_def placed_def)
    next
      case license
      then have "rank (locate g) (gstate (snd ?b)) = 0"
        using to_license [of l] same by (simp add: rank_def)
      then show ?thesis using st [of "snd ?b"] license(2-4) to_license [of l] by (simp add: weight_def placed_def)
    qed
  qed
qed

text \<open>Enough fuel for the weight is enough to end.\<close>

lemma navigate_ends:
  "reachable (gw p) \<Longrightarrow> placed to \<Longrightarrow> weight to p < n \<Longrightarrow> navigate n locate resolve getL getE to frm p \<noteq> None"
proof (induction n arbitrary: to p)
  case (Suc n)
  let ?b = "beforeEach resolve getL getE to frm p"
  show ?case
  proof (cases "fst ?b \<in> {Proceed, Cancel, LoadError}")
    case False
    then have "navigate n locate resolve getL getE (locate (fst ?b)) frm (snd ?b) \<noteq> None"
      using redirect_lighter [OF Suc.prems(1,2) refl, of resolve getL getE frm] Suc.prems(3) by (intro Suc.IH) auto
    with False show ?thesis by (cases "fst ?b") (simp_all add: Let_def)
  qed (auto simp: Let_def)
qed simp

lemma more_fuel:
  "navigate n locate resolve getL getE to frm p = Some r \<Longrightarrow> navigate (n + k) locate resolve getL getE to frm p = Some r"
  by (induction n arbitrary: to p) (auto simp: Let_def split: guard_result.splits)

text \<open>Where a navigation ends by entering a route, the guard let that route through.\<close>

lemma entered_guarded:
  assumes "navigate n locate resolve getL getE to frm p = Some (Entered r, p')" "reachable (gw p)" "placed to"
  shows "\<exists>q. reachable (gw q) \<and> isLogin (gstate q) = isLogin (gstate p) \<and>
    fst (beforeEach resolve getL getE r frm q) = Proceed \<and> \<not> isRedirecting p'"
  using assms
proof (induction n arbitrary: to p)
  case (Suc n)
  let ?b = "beforeEach resolve getL getE to frm p"
  show ?case
  proof (cases "fst ?b \<in> {Proceed, Cancel, LoadError}")
    case True
    then have "fst ?b = Proceed" "r = to" "p' = afterEach to (snd ?b)"
      using Suc.prems(1) by (auto simp: Let_def)
    then show ?thesis using Suc.prems(2) by (auto simp: afterEach_def Let_def)
  next
    case False
    then have "navigate n locate resolve getL getE (locate (fst ?b)) frm (snd ?b) = Some (Entered r, p')"
      using Suc.prems(1) by (cases "fst ?b") (simp_all add: Let_def)
    from Suc.IH [OF this] show ?thesis
      using redirect_lighter [OF Suc.prems(2,3) refl, of resolve getL getE frm] False
        beforeEach_login [OF Suc.prems(2), of resolve getL getE to frm] by auto
  qed
qed simp

end


section \<open>The table as a router\<close>

definition pageNamed :: "string \<Rightarrow> route" where
  "pageNamed n = (case find (\<lambda>r. rname r = n) pages of Some r \<Rightarrow> r | None \<Rightarrow> homePage\<lparr>rname := n, matched := []\<rparr>)"

definition pageAt :: "string \<Rightarrow> route" where
  "pageAt x = (case find (\<lambda>r. rpath r = x) pages of Some r \<Rightarrow> r | None \<Rightarrow> (pageNamed ''404'')\<lparr>rpath := x\<rparr>)"

definition tableLocate :: "guard_result \<Rightarrow> route" where
  "tableLocate g =
     (case g of
        ToName n \<Rightarrow> pageNamed n
      | ToEntrance c \<Rightarrow> (pageNamed ''entrance'')\<lparr>rcode := c\<rparr>
      | ToLicense l \<Rightarrow> (pageNamed ''EnterpriseLicenseRequired'')\<lparr>rquery := [(''code'', Some l)]\<rparr>
      | ToPath x q \<Rightarrow> (pageAt x)\<lparr>rquery := q\<rparr>
      | ToCached c \<Rightarrow> pageAt c
      | _ \<Rightarrow> homePage)"

lemma page_plain: "r \<in> set pages \<Longrightarrow> rquery r = []"
  by (auto simp: pages_def pagesOf_def pageOf_def)

lemma pageNamed_name: "rname (pageNamed n) = n" "rquery (pageNamed n) = []"
  by (auto simp: pageNamed_def home_page find_Some_iff page_plain split: option.split)

lemma pageAt_path: "rpath (pageAt x) = x"
  by (auto simp: pageAt_def find_Some_iff split: option.split)

interpretation table: router tableLocate "\<lambda>x. rname (pageAt x)"
  by unfold_locales (simp_all add: tableLocate_def pageNamed_name pageAt_path queryDefined_def)



section \<open>Properties\<close>

text \<open>C7. Every navigation ends: whatever the state, the caches and the licence answers, at most seven
  redirections lead to a guard answer that lets through, cancels or fails. A navigation of a user
  who is not logged in that enters a page enters one that needs no login, and one that ends in a
  page leaves no redirection mark behind.\<close>

theorem navigation_ends:
  assumes "router locate nameAt" "reachable (gw p)"
    and "queryDefined ''uncached'' to \<Longrightarrow> rname to = nameAt (rpath to)"
  shows "\<exists>e p'. (\<forall>k. navigate (8 + k) locate resolve getL getE to frm p = Some (e, p')) \<and>
    (\<forall>r. e = Entered r \<longrightarrow> \<not> isRedirecting p' \<and>
       (isLogin (gstate p) \<or> rname r \<in> {''entrance'', ''login'', ''file-share'', ''404'', ''Expired''}))"
proof -
  let ?nav = "\<lambda>n. navigate n locate resolve getL getE to frm p"
  have placed: "router.placed nameAt to" using assms(3) by (simp add: router.placed_def [OF assms(1)])
  have "?nav 8 \<noteq> None"
    using router.navigate_ends [OF assms(1,2) placed] router.weight_le [OF assms(1), of to p] by simp
  then obtain e p' where e: "?nav 8 = Some (e, p')" by auto
  have "rname r \<in> set noLoginWhiteList" if q: "reachable (gw q)" "\<not> isLogin (gstate q)"
      "fst (beforeEach resolve getL getE r frm q) = Proceed" for q r
    using beforeEach_past [of resolve getL getE r frm q] q by simp
  then have "\<not> isRedirecting p' \<and> (isLogin (gstate p) \<or> rname r \<in> set noLoginWhiteList)" if "e = Entered r" for r
    using router.entered_guarded [OF assms(1), of 8 resolve getL getE to frm p r p'] e that assms(2) placed by auto
  moreover have "?nav (8 + k) = Some (e, p')" for k by (rule router.more_fuel [OF assms(1) e])
  ultimately show ?thesis unfolding noLoginWhiteList_def by auto
qed

theorem navigation_ends_witness:
  "\<exists>e p'. navigate 8 tableLocate pageAt NoData NoData (homePage\<lparr>rquery := [(''uncached'', Some ''true'')]\<rparr>) homePage viewerPanel =
     Some (e, p')"
proof -
  have "pagesOf homeRouter = [homePage]" unfolding homePage_def by code_simp
  then have "pageAt (rpath homePage) = homePage" by (simp add: pageAt_def pages_def routes_def)
  then show ?thesis
    using navigation_ends [OF table.router_axioms viewer_reachable,
      of "homePage\<lparr>rquery := [(''uncached'', Some ''true'')]\<rparr>" pageAt NoData NoData homePage]
    by (force dest: spec [of _ 0])
qed

end
