(* ===== verification/Http_Client.thy ===== *)
theory Http_Client
  imports Router_Guard
begin

text \<open>
  The HTTP client \<open>api/index.ts\<close> with what its interceptors call: \<open>utils/auth-response.ts\<close>,
  \<open>api/helper/check-status.ts\<close>, \<open>utils/operate-node.ts\<close>, \<open>utils/node.ts\<close>, the cookie reader of
  \<open>utils/auth.ts\<close>, and \<open>utils/stream-auth.ts\<close>, which checks a stream's address by the same rules.
  The transport is outside: an interceptor is a function from the request or the answer and the
  state to the promise's outcome and the state. Pushes to the router, reloads and the started
  node refreshes are recorded; messages are translation keys or the server's text. The base64
  package is a parameter.
\<close>

section \<open>Codes\<close>

definition SUCCESS :: int where "SUCCESS = 200"
definition EXPIRED :: int where "EXPIRED = 313"
definition OVERDUE :: int where "OVERDUE = 401"
definition FORBIDDEN :: int where "FORBIDDEN = 403"
definition ERR_AUTH :: int where "ERR_AUTH = 406"
definition ERR_GLOBAL_LOADING :: int where "ERR_GLOBAL_LOADING = 407"
definition ERR_XPACK :: int where "ERR_XPACK = 410"
definition NODE_UNBIND :: int where "NODE_UNBIND = 411"
definition ERR_RBAC :: int where "ERR_RBAC = 412"
definition ERR_ENTERPRISE :: int where "ERR_ENTERPRISE = 413"

lemmas result_codes = SUCCESS_def EXPIRED_def OVERDUE_def FORBIDDEN_def ERR_AUTH_def ERR_GLOBAL_LOADING_def
  ERR_XPACK_def NODE_UNBIND_def ERR_RBAC_def ERR_ENTERPRISE_def


section \<open>State\<close>

datatype router_call = PushEntrance string | PushExpired | PushLicense | ReplaceEntrance string | ReplaceOffline

record http =
  hpanel :: panel
  calls :: "router_call list"
  reloads :: nat
  nodeRefreshes :: nat
  operateNodeOverride :: string

abbreviation hstate :: "http \<Rightarrow> GlobalState" where
  "hstate h \<equiv> gstate (hpanel h)"

definition msgError :: "string \<Rightarrow> http \<Rightarrow> http" where
  "msgError m h = h\<lparr>hpanel := (hpanel h)\<lparr>messages := messages (hpanel h) @ [m]\<rparr>\<rparr>"

definition call :: "router_call \<Rightarrow> http \<Rightarrow> http" where
  "call c h = h\<lparr>calls := calls h @ [c]\<rparr>"

definition assign :: "(GlobalState \<Rightarrow> GlobalState) \<Rightarrow> http \<Rightarrow> http" where
  "assign f h = h\<lparr>hpanel := setState (f (hstate h)) (hpanel h)\<rparr>"

definition endSession :: "http \<Rightarrow> http" where
  "endSession h = h\<lparr>hpanel := (hpanel h)\<lparr>gw := clearAuthInfo (setLogStatus False (gw (hpanel h)))\<rparr>\<rparr>"

definition setOperateNodeOverride :: "string option \<Rightarrow> http \<Rightarrow> http" where
  "setOperateNodeOverride node h = h\<lparr>operateNodeOverride := (case node of None \<Rightarrow> [] | Some n \<Rightarrow> n)\<rparr>"

definition clearOperateNodeOverride :: "string option \<Rightarrow> http \<Rightarrow> http" where
  "clearOperateNodeOverride node h =
     (if node = None \<or> node = Some [] \<or> node = Some (operateNodeOverride h) then h\<lparr>operateNodeOverride := []\<rparr> else h)"


section \<open>Nodes\<close>

record NodeItem =
  item_name :: string
  item_addr :: string

definition setDefaultNodeInfo :: "http \<Rightarrow> http" where
  "setDefaultNodeInfo = assign (\<lambda>s. s\<lparr>currentNode := ''local'', currentNodeAddr := ''127.0.0.1''\<rparr>)"

text \<open>\<open>listNodes\<close>: a rejected request and one without data give no nodes.\<close>

definition listNodes :: "NodeItem list answer \<Rightarrow> NodeItem list" where
  "listNodes res = (case res of Rejected \<Rightarrow> [] | NoData \<Rightarrow> [] | Data ns \<Rightarrow> ns)"

definition changeToLocal :: "NodeItem list answer \<Rightarrow> http \<Rightarrow> http" where
  "changeToLocal res h =
     (case listNodes res of
        [] \<Rightarrow> setDefaultNodeInfo h
      | n # ns \<Rightarrow>
          (case (if isAdmin (hstate h) then find (\<lambda>x. item_name x = ''local'') (n # ns) else None) of
             Some x \<Rightarrow> assign (\<lambda>s. s\<lparr>currentNode := ''local'', currentNodeAddr := item_addr x\<rparr>) h
           | None \<Rightarrow> assign (\<lambda>s. s\<lparr>currentNode := item_name n, currentNodeAddr := item_addr n\<rparr>) h))"


section \<open>Authentication answers\<close>

record 'd result_body =
  code :: "int option"
  message :: "string option"
  payload :: 'd

datatype auth_action = ActReject | ActReturn

record AuthResponseResult =
  handled :: bool
  action :: "auth_action option"
  amessage :: string

definition redirectToEntrance :: "http \<Rightarrow> http" where
  "redirectToEntrance h = call (PushEntrance (entrance (hstate h))) (endSession h)"

definition redirectToExpired :: "http \<Rightarrow> http" where
  "redirectToExpired h = call PushExpired h"

definition forbiddenMessage :: string where
  "forbiddenMessage = ''commons.res.forbidden''"

definition notHandled :: AuthResponseResult where
  "notHandled = \<lparr>handled = False, action = None, amessage = []\<rparr>"

definition orText :: "string option \<Rightarrow> string \<Rightarrow> string" where
  "orText m d = (case m of None \<Rightarrow> d | Some t \<Rightarrow> if t = [] then d else t)"

definition handleAuthResponseCode ::
  "'d result_body option \<Rightarrow> bool \<Rightarrow> http \<Rightarrow> AuthResponseResult \<times> http"
where
  "handleAuthResponseCode data showRBACMessage h =
     (let msg = orText (Option.bind data message) forbiddenMessage
      in case Option.bind data code of
           None \<Rightarrow> (notHandled, h)
         | Some c \<Rightarrow>
             if c = OVERDUE \<or> c = FORBIDDEN
             then (\<lparr>handled = True, action = Some ActReject, amessage = msg\<rparr>, redirectToEntrance h)
             else if c = ERR_RBAC
             then (\<lparr>handled = True, action = Some ActReject, amessage = msg\<rparr>, if showRBACMessage then msgError msg h else h)
             else if c = EXPIRED
             then (\<lparr>handled = True, action = Some ActReturn, amessage = msg\<rparr>, redirectToExpired h)
             else (notHandled, h))"

definition handleAuthResponseStatus :: "int \<Rightarrow> http \<Rightarrow> AuthResponseResult \<times> http" where
  "handleAuthResponseStatus st h =
     (if st = OVERDUE \<or> st = FORBIDDEN
      then (\<lparr>handled = True, action = Some ActReject, amessage = forbiddenMessage\<rparr>, redirectToEntrance h)
      else if st = EXPIRED
      then (\<lparr>handled = True, action = Some ActReturn, amessage = forbiddenMessage\<rparr>, redirectToExpired h)
      else (notHandled, h))"

definition checkStatus :: "int \<Rightarrow> string \<Rightarrow> http \<Rightarrow> http" where
  "checkStatus st msg h =
     (if st = 400 then msgError (orText (Some msg) ''commons.res.paramError'') h
      else if st = 404 then msgError (orText (Some msg) ''commons.res.notFound'') h
      else if st = 403 then
        msgError (orText (Some msg) ''commons.res.forbidden'')
          (call (ReplaceEntrance (entrance (hstate h))) (endSession h))
      else if st = 500 then msgError (orText (Some msg) ''commons.res.serverError'') h
      else msgError (orText (Some msg) ''commons.res.commonError'') h)"


section \<open>Cookies\<close>

definition getCookie :: "string \<Rightarrow> string \<Rightarrow> string option" where
  "getCookie documentCookie name =
     (let parts = splitSub (''; '' @ name @ ''='') (''; '' @ documentCookie)
      in if length parts = 2 then Some (hd (splitOn (CHR '';'') (last parts))) else None)"


section \<open>Requests\<close>

record request_config =
  url :: string
  http_method :: "string option"
  headers :: "string \<rightharpoonup> string"
  skipErrorMessage :: bool

definition upperChar :: "char \<Rightarrow> char" where
  "upperChar c =
     (let n = (of_char c :: nat)
      in if (97 \<le> n \<and> n \<le> 122) \<or> (224 \<le> n \<and> n \<le> 254 \<and> n \<noteq> 247) then char_of (n - 32) else c)"

definition toUpperCase :: "string \<Rightarrow> string" where
  "toUpperCase s = map upperChar s"

definition entranceUrls :: "string list" where
  "entranceUrls = [''/core/auth/login'', ''/core/auth/mfalogin'', ''/core/auth/passkey/begin'', ''/core/auth/passkey/finish'',
     ''/core/auth/oidc/begin'', ''/core/auth/oidc/finish'', ''/core/auth/saml2/begin'', ''/core/auth/saml2/finish'']"

definition requiresToken :: "request_config \<Rightarrow> bool" where
  "requiresToken c =
     (toUpperCase (orText (http_method c) ''get'') \<notin> set [''GET'', ''HEAD'', ''OPTIONS'', ''TRACE''])"

definition onRequest ::
  "(string \<Rightarrow> string) \<Rightarrow> string \<Rightarrow> request_config \<Rightarrow> http \<Rightarrow> request_config \<times> http"
where
  "onRequest encodeBase64 documentCookie c h =
     (let s = hstate h;
          h1 = [''Accept-Language'' \<mapsto> language s] ++ headers c;
          node = (case h1 ''CurrentNode'' of None \<Rightarrow> orText (Some (operateNodeOverride h)) (currentNode s) | Some n \<Rightarrow> n);
          h2 = h1(''CurrentNode'' \<mapsto> encodeURIComponent node);
          h3 = (if url c \<in> set entranceUrls then h2(''EntranceCode'' \<mapsto> encodeBase64 (entrance s)) else h2)
      in case (if requiresToken c then getCookie documentCookie ''pcsrftoken'' else None) of
           None \<Rightarrow> (c\<lparr>headers := h3\<rparr>, h)
         | Some t \<Rightarrow>
             if t = [] then (c\<lparr>headers := h3\<rparr>, h)
             else (c\<lparr>headers := h3(''X-CSRF-Token'' \<mapsto> t)\<rparr>, assign (\<lambda>s. s\<lparr>csrfToken := t\<rparr>) h))"


section \<open>Answers\<close>

datatype 'd outcome = ResolveUndefined | ResolveData "'d result_body" | RejectData "'d result_body" | Thrown

text \<open>\<open>routeName\<close> is the name of the current route. Reading a missing answer or the case of a missing
  message raises.\<close>

definition onResponse ::
  "string \<Rightarrow> bool \<Rightarrow> 'd result_body option \<Rightarrow> http \<Rightarrow> 'd outcome \<times> http"
where
  "onResponse routeName skip data h0 =
     (let a = handleAuthResponseCode data True h0; h = snd a
      in case data of
           None \<Rightarrow> (Thrown, h)
         | Some d \<Rightarrow>
             if handled (fst a) then
               (if action (fst a) = Some ActReturn then (ResolveUndefined, h) else (RejectData d, h))
             else if code d = Some ERR_XPACK then
               (RejectData d, (assign (\<lambda>s. s\<lparr>isProductPro := False\<rparr>) h)\<lparr>reloads := reloads h + 1\<rparr>)
             else if code d = Some ERR_ENTERPRISE then
               (let h1 = assign (\<lambda>s. s\<lparr>isEnterpriseLicensed := False\<rparr>) h
                in (RejectData d,
                    if isLogin (hstate h1) \<and> routeName \<noteq> ''EnterpriseLicenseRequired'' then call PushLicense h1 else h1))
             else if code d = Some NODE_UNBIND then
               (ResolveUndefined, h\<lparr>nodeRefreshes := nodeRefreshes h + 1, reloads := reloads h + 1\<rparr>)
             else if code d = Some ERR_GLOBAL_LOADING then
               (ResolveUndefined, assign (\<lambda>s. s\<lparr>isLoading := True, loadingText := orText (message d) []\<rparr>) h)
             else
               (let h1 = (if isLoading (hstate h) then assign (\<lambda>s. s\<lparr>isLoading := False\<rparr>) h else h)
                in if code d = Some ERR_AUTH then (ResolveData d, h1)
                   else if code d \<noteq> None \<and> code d \<noteq> Some 0 \<and> code d \<noteq> Some SUCCESS then
                     (case message d of
                        None \<Rightarrow> (Thrown, h1)
                      | Some m \<Rightarrow>
                          if includesSub (toLowerCase m) ''operation not permitted''
                          then (RejectData d, msgError ''license.tamperHelper'' h1)
                          else (RejectData d, if \<not> skip then msgError m h1 else h1))
                   else (ResolveData d, h1)))"

record error_response =
  estatus :: int
  emessage :: "string option"

definition isCsrfForbidden :: "error_response \<Rightarrow> bool" where
  "isCsrfForbidden r = (case emessage r of None \<Rightarrow> False | Some m \<Rightarrow> includesSub (toLowerCase m) ''csrf token invalid'')"

text \<open>The answer says whether the promise resolves with \<open>undefined\<close> or rejects with the error.\<close>

definition onError :: "bool \<Rightarrow> string \<Rightarrow> error_response option \<Rightarrow> http \<Rightarrow> bool \<times> http" where
  "onError onLine errorText response h0 =
     (let h = (if includesSub errorText ''timeout'' then msgError ''commons.msg.requestTimeout'' h0 else h0)
      in case response of
           None \<Rightarrow> (False, if \<not> onLine then call ReplaceOffline h else h)
         | Some r \<Rightarrow>
             if estatus r = 313 then (True, call PushExpired h)
             else if estatus r = 403 then
               (False, if isCsrfForbidden r then h else msgError (orText (emessage r) forbiddenMessage) h)
             else if estatus r \<in> {500, 502, 524, 407} then (False, checkStatus (estatus r) (orText (emessage r) []) h)
             else (False, h))"


section \<open>Streams\<close>

record stream_answer =
  sstatus :: int
  contentType :: "string option"

definition wsToHttp :: "string \<Rightarrow> string" where
  "wsToHttp u = (if prefix ''ws'' u then ''http'' @ drop 2 u else u)"

text \<open>\<open>checkStreamAuth\<close>: \<open>None\<close> for the fetch is a failed or aborted one, \<open>None\<close> for the body one that
  does not parse. The answer is the message to show.\<close>

definition checkStreamAuth ::
  "stream_answer option \<Rightarrow> 'd result_body option option \<Rightarrow> http \<Rightarrow> string \<times> http"
where
  "checkStreamAuth fetched json h =
     (case fetched of
        None \<Rightarrow> ([], h)
      | Some r \<Rightarrow>
          (let st = handleAuthResponseStatus (sstatus r) h
           in if handled (fst st) then (amessage (fst st), snd st)
              else if \<not> includesSub (orText (contentType r) []) ''application/json'' then ([], snd st)
              else case json of
                None \<Rightarrow> ([], snd st)
              | Some d \<Rightarrow>
                  (let c = handleAuthResponseCode d False (snd st)
                   in if handled (fst c) then (amessage (fst c), snd c) else ([], snd c))))"

definition streamHeaders :: "string option \<Rightarrow> http \<Rightarrow> (string \<rightharpoonup> string)" where
  "streamHeaders node h = [''Accept-Language'' \<mapsto> language (hstate h),
     ''CurrentNode'' \<mapsto> encodeURIComponent (orText node (currentNode (hstate h)))]"



section \<open>What the interceptors keep\<close>

lemma http_simps [simp]:
  "hpanel (call c h) = hpanel h" "hstate (msgError m h) = hstate h" "gw (hpanel (msgError m h)) = gw (hpanel h)"
  "hstate (assign f h) = f (hstate h)" "calls (msgError m h) = calls h" "calls (assign f h) = calls h"
  "calls (call c h) = calls h @ [c]" "calls (endSession h) = calls h"
  by (simp_all add: call_def msgError_def assign_def endSession_def)

lemma endSession_state:
  assumes "reachable (gw (hpanel h))"
  shows "reachable (gw (hpanel (endSession h)))" "\<not> isLogin (hstate (endSession h))" "\<not> isAdmin (hstate (endSession h))"
    "permissions (hstate (endSession h)) = []" "nodeRoles (hstate (endSession h)) = []"
    "masterOnlyPermissions (hstate (endSession h)) = []" "pageStateCache (gw (hpanel (endSession h))) = Map.empty"
proof -
  show "reachable (gw (hpanel (endSession h)))"
    using assms by (simp add: endSession_def reachable.cleared reachable_actions)
qed (simp_all add: endSession_def clearAuthInfo_def setLogStatus_def clearPageStateCache_def
    setMasterOnlyPermissionCodes_def Let_def)

text \<open>An answer that ends the session.\<close>

definition sessionLost :: "'d result_body option \<Rightarrow> bool" where
  "sessionLost data = (Option.bind data code \<in> {Some 401, Some 403})"

lemma handle_lost: "sessionLost data \<Longrightarrow> snd (handleAuthResponseCode data b h) = redirectToEntrance h"
  by (auto simp: sessionLost_def handleAuthResponseCode_def result_codes Let_def)

lemma handle_kept:
  "\<not> sessionLost data \<Longrightarrow> gw (hpanel (snd (handleAuthResponseCode data b h))) = gw (hpanel h)"
  by (auto simp: sessionLost_def handleAuthResponseCode_def redirectToExpired_def result_codes Let_def split: option.split)

lemma response_lost:
  "sessionLost (Some d) \<Longrightarrow> onResponse rn skip (Some d) h = (RejectData d, redirectToEntrance h)"
  by (auto simp: onResponse_def sessionLost_def handleAuthResponseCode_def result_codes Let_def)

lemma response_kept:
  assumes "\<not> sessionLost (Some d)"
  shows "isLogin (hstate (snd (onResponse rn skip (Some d) h))) = isLogin (hstate h)"
    "isAdmin (hstate (snd (onResponse rn skip (Some d) h))) = isAdmin (hstate h)"
    "permissions (hstate (snd (onResponse rn skip (Some d) h))) = permissions (hstate h)"
    "nodeRoles (hstate (snd (onResponse rn skip (Some d) h))) = nodeRoles (hstate h)"
    "masterOnlyPermissions (hstate (snd (onResponse rn skip (Some d) h))) = masterOnlyPermissions (hstate h)"
  using handle_kept [OF assms] by (simp_all add: onResponse_def Let_def split: option.split)


text \<open>The interceptors and the node refresh keep the store reachable.\<close>

lemma assign_reachable:
  "reachable (gw (hpanel h)) \<Longrightarrow> masterOnlyPermissions (f (hstate h)) = masterOnlyPermissions (hstate h) \<Longrightarrow>
   reachable (gw (hpanel (assign f h)))"
  by (simp add: assign_def reachable_setState)

lemma http_reachable:
  assumes "reachable (gw (hpanel h))"
  shows "reachable (gw (hpanel (snd (handleAuthResponseCode data b h))))"
    "reachable (gw (hpanel (snd (onResponse rn skip (Some d) h))))"
    "reachable (gw (hpanel (snd (onRequest enc cookie c h))))"
    "reachable (gw (hpanel (changeToLocal ns h)))"
proof -
  note gone = endSession_state(1) [OF assms]
  show 1: "reachable (gw (hpanel (snd (handleAuthResponseCode data b h))))" for data :: "'x result_body option" and b
    using assms gone
    by (simp add: handleAuthResponseCode_def redirectToEntrance_def redirectToExpired_def Let_def split: option.split)
  show "reachable (gw (hpanel (snd (onResponse rn skip (Some d) h))))"
    using 1 [of "Some d" True] by (simp add: onResponse_def assign_reachable Let_def split: option.split)
  show "reachable (gw (hpanel (snd (onRequest enc cookie c h))))"
    using assms by (simp add: onRequest_def assign_reachable Let_def split: option.split)
  show "reachable (gw (hpanel (changeToLocal ns h)))"
    using assms by (simp add: changeToLocal_def setDefaultNodeInfo_def assign_reachable split: list.split option.split)
qed

lemma changeToLocal_node:
  "listNodes res = [] \<Longrightarrow> currentNode (hstate (changeToLocal res h)) = ''local''"
  "listNodes res \<noteq> [] \<Longrightarrow> currentNode (hstate (changeToLocal res h)) \<in> item_name ` set (listNodes res)"
  "isAdmin (hstate h) \<Longrightarrow> ''local'' \<in> item_name ` set (listNodes res) \<Longrightarrow> currentNode (hstate (changeToLocal res h)) = ''local''"
proof -
  show "listNodes res = [] \<Longrightarrow> currentNode (hstate (changeToLocal res h)) = ''local''"
    by (simp add: changeToLocal_def setDefaultNodeInfo_def)
  have f: "find (\<lambda>x. item_name x = ''local'') ns = Some x \<Longrightarrow> ''local'' \<in> item_name ` set ns" for ns x
    by (auto simp: find_Some_iff image_iff) (metis nth_mem)
  show "listNodes res \<noteq> [] \<Longrightarrow> currentNode (hstate (changeToLocal res h)) \<in> item_name ` set (listNodes res)"
    using f [of "listNodes res"] by (cases "listNodes res") (auto simp: changeToLocal_def simp del: find.simps split: option.split)
  show "isAdmin (hstate h) \<Longrightarrow> ''local'' \<in> item_name ` set (listNodes res) \<Longrightarrow>
      currentNode (hstate (changeToLocal res h)) = ''local''"
    by (cases "listNodes res") (auto simp: changeToLocal_def find_None_iff simp del: find.simps split: option.split)
qed

text \<open>A cookie text: the pairs of a jar, joined. Names have no separator and no equals sign, values no
  separator.\<close>

definition cookiePair :: "string \<times> string \<Rightarrow> string" where
  "cookiePair nv = fst nv @ ''='' @ snd nv"

definition plainJar :: "(string \<times> string) list \<Rightarrow> bool" where
  "plainJar jar = list_all (\<lambda>(n, v). CHR ''='' \<notin> set n \<and> CHR '';'' \<notin> set n \<and> CHR '';'' \<notin> set v) jar"

lemma name_match:
  assumes "CHR ''='' \<notin> set n" "CHR ''='' \<notin> set m"
  shows "prefix (m @ ''='') (n @ ''='' @ s) \<longleftrightarrow> n = m"
proof
  assume "prefix (m @ ''='') (n @ ''='' @ s)"
  then obtain z where "n @ CHR ''='' # s = m @ CHR ''='' # z" by (auto simp: prefix_def)
  then have "takeWhile (\<lambda>c. c \<noteq> CHR ''='') (n @ CHR ''='' # s) = takeWhile (\<lambda>c. c \<noteq> CHR ''='') (m @ CHR ''='' # z)" by simp
  moreover have "takeWhile (\<lambda>c. c \<noteq> CHR ''='') (k @ CHR ''='' # t) = k" if "CHR ''='' \<notin> set k" for k t
    using that by (induction k) auto
  ultimately show "n = m" using assms by simp
qed (simp add: prefix_def)

abbreviation jarText :: "(string \<times> string) list \<Rightarrow> string" where
  "jarText jar \<equiv> concat (map (\<lambda>nv. ''; '' @ cookiePair nv) jar)"

lemma jar_split:
  assumes "plainJar jar" "CHR ''='' \<notin> set m" "CHR '';'' \<notin> set m"
  shows "length (splitSub (''; '' @ m @ ''='') (jarText jar)) = Suc (length (filter (\<lambda>nv. fst nv = m) jar)) \<and>
    takeWhile (\<lambda>c. c \<noteq> CHR '';'') (hd (splitSub (''; '' @ m @ ''='') (jarText jar))) = [] \<and>
    list_all2 (\<lambda>part v. takeWhile (\<lambda>c. c \<noteq> CHR '';'') part = v) (tl (splitSub (''; '' @ m @ ''='') (jarText jar)))
      (map snd (filter (\<lambda>nv. fst nv = m) jar))"
  using assms(1)
proof (induction jar)
  case (Cons nv jar)
  obtain n v where nv: "nv = (n, v)" by (cases nv)
  let ?P = "''; '' @ m @ ''=''" and ?S = "splitSub (''; '' @ m @ ''='') (jarText jar)"
  have plain: "CHR ''='' \<notin> set n" "CHR '';'' \<notin> set n" "CHR '';'' \<notin> set v" "plainJar jar"
    using Cons.prems by (simp_all add: plainJar_def nv)
  have jt: "jarText (nv # jar) = ''; '' @ n @ ''='' @ v @ jarText jar" by (simp add: cookiePair_def nv)
  have tw: "takeWhile (\<lambda>c. c \<noteq> CHR '';'') (w @ x) = w @ takeWhile (\<lambda>c. c \<noteq> CHR '';'') x" if "CHR '';'' \<notin> set w" for w x
    using that by (induction w) auto
  show ?case
  proof (cases "n = m")
    case True
    have "splitSub ?P (jarText (nv # jar)) = [] # (v @ hd ?S) # tl ?S"
      using splitSub_hit [of ?P "v @ jarText jar"] splitSub_skip [OF plain(3), of "CHR '' '' # m @ ''=''" "jarText jar"]
      unfolding jt True by simp
    then show ?thesis using Cons.IH [OF plain(4)] True by (simp add: nv tw [OF plain(3)])
  next
    case False
    have no: "\<not> prefix ?P (''; '' @ n @ ''='' @ v @ jarText jar)"
      using name_match [OF plain(1) assms(2)] False by simp
    have w: "CHR '';'' \<notin> set (CHR '' '' # n @ ''='' @ v)" using plain by simp
    have eq: "jarText (nv # jar) = CHR '';'' # (CHR '' '' # n @ ''='' @ v) @ jarText jar" by (simp add: cookiePair_def nv)
    have "splitSub ?P (jarText (nv # jar)) = (CHR '';'' # (CHR '' '' # n @ ''='' @ v) @ hd ?S) # tl ?S"
      using no [folded jt] splitSub_skip [OF w, of "CHR '' '' # m @ ''=''" "jarText jar"]
      unfolding eq splitSub.simps(2) by simp
    then show ?thesis using Cons.IH [OF plain(4)] False by (simp add: nv)
  qed
qed simp

lemma hd_splitOn: "hd (splitOn c s) = takeWhile (\<lambda>x. x \<noteq> c) s"
proof (induction s)
  case (Cons x s)
  then show ?case by (cases "splitOn c s") (auto)
qed simp

lemma jar_join: "jar \<noteq> [] \<Longrightarrow> sep @ joinWith sep (map f jar) = concat (map (\<lambda>x. sep @ f x) jar)"
proof (induction jar)
  case (Cons x jar)
  then show ?case by (cases jar) auto
qed simp


section \<open>Properties\<close>

text \<open>C5. An answer with the code for an overdue or forbidden session, and no other, ends the
  session: the promise rejects, the login mark, the administrator mark, the permissions, the node
  roles, the master-only list and the cached page states are gone, so that the user is node
  administrator of no node, the router is sent to the entrance, and from then on the guard lets the
  user only onto the pages that need no login. Any other answer leaves the login, the administrator
  mark, the permissions, the node roles and the master-only list as they were.\<close>

theorem session_end:
  assumes "reachable (gw (hpanel h))"
  shows "if code d \<in> {Some 401, Some 403}
    then fst (onResponse rn skip (Some d) h) = RejectData d \<and>
      calls (snd (onResponse rn skip (Some d) h)) = calls h @ [PushEntrance (entrance (hstate h))] \<and>
      \<not> isLogin (hstate (snd (onResponse rn skip (Some d) h))) \<and> \<not> isAdmin (hstate (snd (onResponse rn skip (Some d) h))) \<and>
      permissions (hstate (snd (onResponse rn skip (Some d) h))) = [] \<and>
      nodeRoles (hstate (snd (onResponse rn skip (Some d) h))) = [] \<and>
      \<not> isNodeAdmin (hstate (snd (onResponse rn skip (Some d) h))) \<and>
      masterOnlyPermissions (hstate (snd (onResponse rn skip (Some d) h))) = [] \<and>
      pageStateCache (gw (hpanel (snd (onResponse rn skip (Some d) h)))) = Map.empty \<and>
      (fst (beforeEach resolve getL getE to frm (hpanel (snd (onResponse rn skip (Some d) h)))) = Proceed \<longrightarrow>
        rname to \<in> {''entrance'', ''login'', ''file-share'', ''404'', ''Expired''})
    else isLogin (hstate (snd (onResponse rn skip (Some d) h))) = isLogin (hstate h) \<and>
      isAdmin (hstate (snd (onResponse rn skip (Some d) h))) = isAdmin (hstate h) \<and>
      permissions (hstate (snd (onResponse rn skip (Some d) h))) = permissions (hstate h) \<and>
      nodeRoles (hstate (snd (onResponse rn skip (Some d) h))) = nodeRoles (hstate h) \<and>
      masterOnlyPermissions (hstate (snd (onResponse rn skip (Some d) h))) = masterOnlyPermissions (hstate h)"
proof (cases "code d \<in> {Some 401, Some 403}")
  case True
  then have lost: "onResponse rn skip (Some d) h = (RejectData d, redirectToEntrance h)"
    by (intro response_lost) (simp add: sessionLost_def)
  note e = endSession_state [OF assms]
  have "rname to \<in> set noLoginWhiteList" if "fst (beforeEach resolve getL getE to frm (hpanel (endSession h))) = Proceed"
    using beforeEach_past [of resolve getL getE to frm "hpanel (endSession h)"] that e(1,2) by simp
  with True e lost show ?thesis by (simp add: redirectToEntrance_def noLoginWhiteList_def isNodeAdmin_def)
next
  case False
  then show ?thesis using response_kept [of d rn skip h] by (simp add: sessionLost_def)
qed

definition guestHttp :: http where
  "guestHttp = \<lparr>hpanel = adminPanel, calls = [], reloads = 0, nodeRefreshes = 0, operateNodeOverride = []\<rparr>"

theorem session_end_witness:
  "\<not> isLogin (hstate (snd (onResponse ''home'' False (Some \<lparr>code = Some 401, message = None, payload = ()\<rparr>) guestHttp)))"
  using session_end [of guestHttp "\<lparr>code = Some 401, message = None, payload = ()\<rparr>" "''home''" False] reachable_admin(1)
  by (simp add: guestHttp_def)

text \<open>C28. How an answer settles the promise, by its code alone: data comes through for no code, zero,
  success and the second factor; nothing for expiry, an unbound node and global loading; every
  other code rejects with the answer, unless the message to inspect is missing, which raises.\<close>

theorem response_outcome:
  "fst (onResponse rn skip (Some d) h) =
     (if code d \<in> {None, Some 0, Some 200, Some 406} then ResolveData d
      else if code d \<in> {Some 313, Some 407, Some 411} then ResolveUndefined
      else if code d \<in> {Some 401, Some 403, Some 410, Some 412, Some 413} then RejectData d
      else case message d of None \<Rightarrow> Thrown | Some _ \<Rightarrow> RejectData d)"
proof (cases "code d")
  case None
  then show ?thesis by (simp add: onResponse_def handleAuthResponseCode_def notHandled_def Let_def)
next
  case (Some c)
  then show ?thesis
    by (cases "message d")
      (simp_all add: onResponse_def handleAuthResponseCode_def notHandled_def redirectToExpired_def result_codes Let_def)
qed

text \<open>The cookie reader inverts the cookie text: of a jar of plain pairs it reads the value of a
  name that occurs once, and nothing for a name that is absent or occurs twice, even where one
  name ends or starts with another or a value looks like a pair.\<close>

theorem getCookie_jar:
  assumes "plainJar jar" "CHR ''='' \<notin> set m" "CHR '';'' \<notin> set m"
  shows "getCookie (joinWith ''; '' (map cookiePair jar)) m =
    (case filter (\<lambda>nv. fst nv = m) jar of [nv] \<Rightarrow> Some (snd nv) | _ \<Rightarrow> None)"
proof (cases "jar = []")
  case True
  then show ?thesis by (simp add: getCookie_def)
next
  case False
  let ?parts = "splitSub (''; '' @ m @ ''='') (jarText jar)" and ?hits = "filter (\<lambda>nv. fst nv = m) jar"
  have g: "getCookie (joinWith ''; '' (map cookiePair jar)) m =
      (if length ?parts = 2 then Some (takeWhile (\<lambda>c. c \<noteq> CHR '';'') (last ?parts)) else None)"
    using jar_join [OF False, of "''; ''" cookiePair] by (simp add: getCookie_def hd_splitOn Let_def)
  note split = jar_split [OF assms]
  show ?thesis
  proof (cases "length ?hits = 1")
    case True
    then obtain nv where nv: "?hits = [nv]" by (auto simp: length_Suc_conv)
    then have "list_all2 (\<lambda>part v. takeWhile (\<lambda>c. c \<noteq> CHR '';'') part = v) (tl ?parts) [snd nv]" using split by simp
    then obtain part where part: "tl ?parts = [part]" "takeWhile (\<lambda>c. c \<noteq> CHR '';'') part = snd nv"
      by (auto simp: list_all2_Cons2)
    moreover have "last ?parts = last (tl ?parts)" using part(1) by (metis last_tl list.discI)
    ultimately show ?thesis using split nv by (simp add: g)
  next
    case False
    then have "length ?parts \<noteq> 2" using split by simp
    with False show ?thesis unfolding g by (auto split: list.split)
  qed
qed

theorem getCookie_jar_witness:
  "getCookie ''xpcsrftoken=1; pcsrftoken=a=b; psession=9'' ''pcsrftoken'' = Some ''a=b''"
proof -
  let ?jar = "[(''xpcsrftoken'', ''1''), (''pcsrftoken'', ''a=b''), (''psession'', ''9'')]"
  have "joinWith ''; '' (map cookiePair ?jar) = ''xpcsrftoken=1; pcsrftoken=a=b; psession=9''"
    by (simp add: cookiePair_def)
  then show ?thesis using getCookie_jar [of ?jar "''pcsrftoken''"] by (simp add: plainJar_def)
qed

text \<open>What goes out with a request. The node header always decodes to the node the caller named,
  else the override, else the current node; the entrance code goes only with the eight login
  requests; the token goes exactly with the methods that change state, and only when the cookie
  has one; every other header is the caller's.\<close>

theorem request_headers:
  "Option.bind (headers (fst (onRequest enc cookie c h)) ''CurrentNode'') decodeURIComponent =
     Some (case headers c ''CurrentNode'' of Some n \<Rightarrow> n
           | None \<Rightarrow> if operateNodeOverride h \<noteq> [] then operateNodeOverride h else currentNode (hstate h)) \<and>
   headers (fst (onRequest enc cookie c h)) ''EntranceCode'' =
     (if url c \<in> set entranceUrls then Some (enc (entrance (hstate h))) else headers c ''EntranceCode'') \<and>
   headers (fst (onRequest enc cookie c h)) ''X-CSRF-Token'' =
     (if toUpperCase (orText (http_method c) ''get'') \<in> {''GET'', ''HEAD'', ''OPTIONS'', ''TRACE''} \<or>
         getCookie cookie ''pcsrftoken'' \<in> {None, Some []} then headers c ''X-CSRF-Token''
      else getCookie cookie ''pcsrftoken'') \<and>
   headers (fst (onRequest enc cookie c h)) ''Accept-Language'' =
     (case headers c ''Accept-Language'' of Some l \<Rightarrow> Some l | None \<Rightarrow> Some (language (hstate h))) \<and>
   (k \<in> {''CurrentNode'', ''EntranceCode'', ''X-CSRF-Token'', ''Accept-Language''} \<or>
    headers (fst (onRequest enc cookie c h)) k = headers c k)"
  (is "?node \<and> ?code \<and> ?token \<and> ?lang \<and> ?rest")
proof (intro conjI)
  let ?r = "onRequest enc cookie c h"
  define t where "t = (if requiresToken c then getCookie cookie ''pcsrftoken'' else None)"
  define base where "base = ([''Accept-Language'' \<mapsto> language (hstate h)] ++ headers c)
    (''CurrentNode'' \<mapsto> encodeURIComponent (case headers c ''CurrentNode'' of
       None \<Rightarrow> orText (Some (operateNodeOverride h)) (currentNode (hstate h)) | Some n \<Rightarrow> n))"
  define b2 where "b2 = (if url c \<in> set entranceUrls then base(''EntranceCode'' \<mapsto> enc (entrance (hstate h))) else base)"
  have r: "headers (fst ?r) = (case t of None \<Rightarrow> b2 | Some x \<Rightarrow> if x = [] then b2 else b2(''X-CSRF-Token'' \<mapsto> x))"
    by (simp add: onRequest_def t_def b2_def base_def map_add_def Let_def split: option.split)
  have other: "headers (fst ?r) k = b2 k" if "k \<noteq> ''X-CSRF-Token''" for k
    using that by (simp add: r split: option.split)
  show ?node by (simp add: other) (simp add: b2_def base_def orText_def split: option.split)
  show ?code by (simp add: other) (simp add: b2_def base_def map_add_def split: option.split)
  show ?token
    by (auto simp: r t_def b2_def base_def map_add_def requiresToken_def split: option.split)
  show ?lang by (simp add: other) (simp add: b2_def base_def map_add_def split: option.split)
  show ?rest
    using other [of k] by (cases "k = ''X-CSRF-Token''") (auto simp: b2_def base_def map_add_def split: option.split)
qed

end
