(* ===== verification/Base64_Url.thy ===== *)
theory Base64_Url
  imports Prelude
begin

text \<open>
  Base64 in the login code: the converters between buffers and base64url texts of
  \<open>utils/auth.ts\<close>, over the browser's \<open>btoa\<close> and \<open>atob\<close>, and the field encoder of
  \<open>utils/base64.ts\<close>, whose base64 package is a parameter. A byte is a \<open>char\<close>, a binary string and
  a buffer are both lists of bytes.
\<close>

section \<open>The browser's base64\<close>

definition sextetChar :: "nat \<Rightarrow> char" where
  [js_defs]: "sextetChar n =
     (if n < 26 then char_of (65 + n) else if n < 52 then char_of (71 + n) else if n < 62 then char_of (n - 4)
      else if n = 62 then CHR ''+'' else CHR ''/'')"

definition charSextet :: "char \<Rightarrow> nat option" where
  [js_defs]: "charSextet c =
     (let n = (of_char c :: nat)
      in if 65 \<le> n \<and> n \<le> 90 then Some (n - 65) else if 97 \<le> n \<and> n \<le> 122 then Some (n - 71)
         else if 48 \<le> n \<and> n \<le> 57 then Some (n + 4) else if c = CHR ''+'' then Some 62
         else if c = CHR ''/'' then Some 63 else None)"

fun btoa :: "string \<Rightarrow> string" where
  "btoa [] = []"
| "btoa [a] = (let x = (of_char a :: nat)
     in [sextetChar (x div 4), sextetChar (x mod 4 * 16), CHR ''='', CHR ''=''])"
| "btoa [a, b] = (let x = (of_char a :: nat); y = (of_char b :: nat)
     in [sextetChar (x div 4), sextetChar (x mod 4 * 16 + y div 16), sextetChar (y mod 16 * 4), CHR ''=''])"
| "btoa (a # b # c # s) = (let x = (of_char a :: nat); y = (of_char b :: nat); z = (of_char c :: nat)
     in sextetChar (x div 4) # sextetChar (x mod 4 * 16 + y div 16) # sextetChar (y mod 16 * 4 + z div 64) #
        sextetChar (z mod 64) # btoa s)"

fun decodeSextets :: "nat list \<Rightarrow> string" where
  "decodeSextets (p # q # r # t # s) =
     char_of (p * 4 + q div 16) # char_of (q mod 16 * 16 + r div 4) # char_of (r mod 4 * 64 + t) # decodeSextets s"
| "decodeSextets [p, q, r] = [char_of (p * 4 + q div 16), char_of (q mod 16 * 16 + r div 4)]"
| "decodeSextets [p, q] = [char_of (p * 4 + q div 16)]"
| "decodeSextets _ = []"

text \<open>\<open>atob\<close> ignores white space, takes off at most two equals signs of a text of whole groups, and
  raises on a text with one sextet over or a foreign character.\<close>

definition dropPad :: "string \<Rightarrow> string" where
  "dropPad s =
     (if length s mod 4 \<noteq> 0 then s
      else if suffix ''=='' s then take (length s - 2) s
      else if suffix ''='' s then take (length s - 1) s else s)"

definition atob :: "string \<Rightarrow> string option" where
  "atob s =
     (let t = dropPad (filter (\<lambda>c. (of_char c :: nat) \<notin> {9, 10, 12, 13, 32}) s)
      in if length t mod 4 = 1 then None else map_option decodeSextets (those (map charSextet t)))"


section \<open>Buffers and base64url\<close>

definition base64UrlToBuffer :: "string \<Rightarrow> string option" where
  "base64UrlToBuffer base64url =
     (let base64 = map (\<lambda>c. if c = CHR ''-'' then CHR ''+'' else if c = CHR ''_'' then CHR ''/'' else c) base64url;
          pad = length base64 mod 4
      in atob (if pad \<noteq> 0 then base64 @ replicate (4 - pad) (CHR ''='') else base64))"

definition bufferToBase64Url :: "string \<Rightarrow> string" where
  "bufferToBase64Url buffer =
     rev (dropWhile (\<lambda>c. c = CHR ''='')
       (rev (map (\<lambda>c. if c = CHR ''+'' then CHR ''-'' else if c = CHR ''/'' then CHR ''_'' else c) (btoa buffer))))"

text \<open>\<open>encodeBase64Fields\<close>: a field that holds a non-empty string is replaced by its encoding.\<close>

datatype field_value = FText string | FOther nat

definition encodeField :: "(string \<Rightarrow> string) \<Rightarrow> string \<Rightarrow> (string \<rightharpoonup> field_value) \<Rightarrow> (string \<rightharpoonup> field_value)" where
  "encodeField enc f rec =
     (case rec f of Some (FText v) \<Rightarrow> if v \<noteq> [] then rec(f \<mapsto> FText (enc v)) else rec | _ \<Rightarrow> rec)"

definition encodeBase64Fields ::
  "(string \<Rightarrow> string) \<Rightarrow> string list \<Rightarrow> (string \<rightharpoonup> field_value) \<Rightarrow> (string \<rightharpoonup> field_value)"
where
  "encodeBase64Fields enc fields rec = fold (encodeField enc) fields rec"


section \<open>Round trip\<close>

lemma charSextet_sextetChar: "n < 64 \<Longrightarrow> charSextet (sextetChar n) = Some n"
  by (auto simp: charSextet_def sextetChar_def Let_def)

fun core :: "string \<Rightarrow> nat list" where
  "core [] = []"
| "core [a] = (let x = (of_char a :: nat) in [x div 4, x mod 4 * 16])"
| "core [a, b] = (let x = (of_char a :: nat); y = (of_char b :: nat) in [x div 4, x mod 4 * 16 + y div 16, y mod 16 * 4])"
| "core (a # b # c # s) = (let x = (of_char a :: nat); y = (of_char b :: nat); z = (of_char c :: nat)
     in x div 4 # (x mod 4 * 16 + y div 16) # (y mod 16 * 4 + z div 64) # (z mod 64) # core s)"

lemma sextets_small:
  fixes x y z :: nat
  assumes "x < 256" "y < 256" "z < 256"
  shows "x div 4 < 64" "x mod 4 * 16 + y div 16 < 64" "y mod 16 * 4 + z div 64 < 64" "x mod 4 * 16 < 64" "y mod 16 * 4 < 64"
proof -
  have "y div 16 < 16" "z div 64 < 4" "x mod 4 < 4" "y mod 16 < 16" using assms by (simp_all add: less_mult_imp_div_less)
  then show "x mod 4 * 16 + y div 16 < 64" "y mod 16 * 4 + z div 64 < 64" "x mod 4 * 16 < 64" "y mod 16 * 4 < 64" by linarith+
  show "x div 4 < 64" using assms by (simp add: less_mult_imp_div_less)
qed

lemmas char_sextets_small = sextets_small [OF of_char_less of_char_less of_char_less]

lemma char_sextets_join:
  fixes b :: char
  shows "(of_char b :: nat) div 16 div 16 = 0" "(of_char b :: nat) div 16 mod 16 = of_char b div 16"
    "(of_char b :: nat) div 64 div 4 = 0" "(of_char b :: nat) div 64 mod 4 = of_char b div 64"
proof -
  have "(of_char b :: nat) div 16 < 16" "(of_char b :: nat) div 64 < 4"
    using of_char_less [of b] by (simp_all add: less_mult_imp_div_less)
  then show "(of_char b :: nat) div 16 div 16 = 0" "(of_char b :: nat) div 16 mod 16 = of_char b div 16"
    "(of_char b :: nat) div 64 div 4 = 0" "(of_char b :: nat) div 64 mod 4 = of_char b div 64" by simp_all
qed

lemma core_small: "\<forall>n \<in> set (core s). n < 64"
  by (induction s rule: core.induct) (simp_all add: Let_def char_sextets_small)

lemma core_length: "length (core s) mod 4 \<noteq> 1"
  by (induction s rule: core.induct) (auto simp: Let_def)

lemma btoa_core: "btoa s = map sextetChar (core s) @ replicate ((4 - length (core s) mod 4) mod 4) (CHR ''='')"
  by (induction s rule: core.induct) (auto simp: Let_def numeral_2_eq_2)

lemma decode_core: "decodeSextets (core s) = s"
  by (induction s rule: core.induct) (simp_all add: Let_def char_sextets_join)

lemma those_map_Some: "\<forall>x \<in> set xs. f x = Some (g x) \<Longrightarrow> those (map f xs) = Some (map g xs)"
  by (induction xs) auto

lemma sextetChar_plain:
  assumes "n < 64"
  shows "sextetChar n \<noteq> CHR ''=''" "sextetChar n \<noteq> CHR ''-''" "sextetChar n \<noteq> CHR ''_''"
    "(of_char (sextetChar n) :: nat) \<notin> {9, 10, 12, 13, 32}"
proof -
  have "charSextet c = None" if "c \<in> {CHR ''='', CHR ''-'', CHR ''_''}" for c
    using that by (auto simp: charSextet_def)
  then show "sextetChar n \<noteq> CHR ''=''" "sextetChar n \<noteq> CHR ''-''" "sextetChar n \<noteq> CHR ''_''"
    using charSextet_sextetChar [OF assms] by force+
  show "(of_char (sextetChar n) :: nat) \<notin> {9, 10, 12, 13, 32}"
    using assms by (auto simp: sextetChar_def)
qed

lemma dropPad_core:
  assumes "CHR ''='' \<notin> set t" "length t mod 4 \<noteq> 1"
  shows "dropPad (t @ replicate ((4 - length t mod 4) mod 4) (CHR ''='')) = t"
proof -
  consider "length t mod 4 = 0" | "length t mod 4 = 2" | "length t mod 4 = 3" using assms(2) by linarith
  then show ?thesis
  proof cases
    case 1
    then show ?thesis using assms(1) by (auto simp: dropPad_def suffix_def)
  next
    case 2
    then have "(length t + 2) mod 4 = 0" by presburger
    with 2 show ?thesis by (simp add: dropPad_def suffix_def numeral_2_eq_2)
  next
    case 3
    then have m: "(length t + 1) mod 4 = 0" by presburger
    have "\<not> suffix ''=='' (t @ ''='')" using assms(1) by (auto simp: suffix_def append_eq_append_conv2 Cons_eq_append_conv)
    with 3 m show ?thesis by (simp add: dropPad_def suffix_def)
  qed
qed

lemma atob_core: "atob (map sextetChar (core s) @ replicate ((4 - length (core s) mod 4) mod 4) (CHR ''='')) = Some s"
proof -
  let ?t = "map sextetChar (core s)"
  have t: "CHR ''='' \<notin> set ?t" "\<forall>c \<in> set ?t. (of_char c :: nat) \<notin> {9, 10, 12, 13, 32}"
  proof -
    have *: "sextetChar n \<noteq> CHR ''='' \<and> (of_char (sextetChar n) :: nat) \<notin> {9, 10, 12, 13, 32}" if "n \<in> set (core s)" for n
      using sextetChar_plain [of n] core_small [of s] that by blast
    then show "\<forall>c \<in> set ?t. (of_char c :: nat) \<notin> {9, 10, 12, 13, 32}" by simp
    show "CHR ''='' \<notin> set ?t"
    proof
      assume "CHR ''='' \<in> set ?t"
      then obtain n where "n \<in> set (core s)" "sextetChar n = CHR ''=''" by auto
      then show False using * by blast
    qed
  qed
  have "filter (\<lambda>c. (of_char c :: nat) \<notin> {9, 10, 12, 13, 32}) (?t @ replicate n (CHR ''='')) = ?t @ replicate n (CHR ''='')" for n
    using t(2) by (intro filter_True) auto
  moreover have "those (map charSextet ?t) = Some (core s)"
    using those_map_Some [of "core s" "charSextet \<circ> sextetChar" id] core_small [of s] charSextet_sextetChar by simp
  moreover have "dropPad (?t @ replicate ((4 - length (core s) mod 4) mod 4) (CHR ''='')) = ?t"
    using dropPad_core [OF t(1)] core_length by simp
  ultimately show ?thesis using core_length by (simp add: atob_def decode_core Let_def del: map_map)
qed

definition urlAlphabet :: string where
  "urlAlphabet = ''ABCDEFGHIJKLMNOPQRSTUVWXYZabcdefghijklmnopqrstuvwxyz0123456789-_''"

lemma url_alphabet:
  assumes "n < 64"
  shows "(if sextetChar n = CHR ''+'' then CHR ''-'' else if sextetChar n = CHR ''/'' then CHR ''_'' else sextetChar n)
    \<in> set urlAlphabet"
proof -
  have "list_all (\<lambda>n. (if sextetChar n = CHR ''+'' then CHR ''-'' else if sextetChar n = CHR ''/'' then CHR ''_'' else sextetChar n)
    \<in> set urlAlphabet) [0..<64]" by code_simp
  with assms show ?thesis unfolding list_all_iff by (metis atLeastLessThan_iff le0 set_upt)
qed

text \<open>C30. Base64url round trip: a buffer written as base64url and read back is the buffer, and the
  text written has only letters, digits, \<open>-\<close> and \<open>_\<close>, no padding.\<close>

theorem base64url_roundtrip:
  "base64UrlToBuffer (bufferToBase64Url b) = Some b \<and>
   set (bufferToBase64Url b) \<subseteq> set urlAlphabet"
proof -
  let ?t = "map sextetChar (core b)"
  let ?url = "\<lambda>c. if c = CHR ''+'' then CHR ''-'' else if c = CHR ''/'' then CHR ''_'' else c"
  have plain: "c \<noteq> CHR ''=''" "c \<noteq> CHR ''-''" "c \<noteq> CHR ''_''" "charSextet c \<noteq> None" if "c \<in> set ?t" for c
  proof -
    obtain n where "c = sextetChar n" "n < 64" using \<open>c \<in> set ?t\<close> core_small [of b] by auto
    then show "c \<noteq> CHR ''=''" "c \<noteq> CHR ''-''" "c \<noteq> CHR ''_''" "charSextet c \<noteq> None"
      using sextetChar_plain [of n] charSextet_sextetChar [of n] by simp_all
  qed
  have u: "bufferToBase64Url b = map ?url ?t"
  proof -
    have "CHR ''='' \<notin> set (map ?url xs)" if "CHR ''='' \<notin> set xs" for xs using that by (induction xs) auto
    then have "CHR ''='' \<notin> set (rev (map ?url ?t))" using plain(1) by (simp only: set_rev) blast
    moreover have "dropWhile (\<lambda>c. c = CHR ''='') xs = xs" if "CHR ''='' \<notin> set xs" for xs using that by (cases xs) auto
    ultimately have "dropWhile (\<lambda>c. c = CHR ''='') (rev (map ?url ?t)) = rev (map ?url ?t)" by blast
    then show ?thesis by (simp add: bufferToBase64Url_def btoa_core dropWhile_append)
  qed
  have inverse: "map (\<lambda>c. if c = CHR ''-'' then CHR ''+'' else if c = CHR ''_'' then CHR ''/'' else c) (map ?url ?t) = ?t"
  proof -
    have "map (\<lambda>c. if c = CHR ''-'' then CHR ''+'' else if c = CHR ''_'' then CHR ''/'' else c) (map ?url xs) = xs"
      if "CHR ''-'' \<notin> set xs" "CHR ''_'' \<notin> set xs" for xs
      using that by (induction xs) auto
    then show ?thesis using plain(2,3) by blast
  qed
  have "base64UrlToBuffer (map ?url ?t) = Some b"
    using atob_core [of b] core_length [of b]
    unfolding base64UrlToBuffer_def inverse Let_def by (auto split: if_splits)
  moreover have "set (map ?url ?t) \<subseteq> set urlAlphabet"
    using url_alphabet core_small [of b] by (simp only: set_map image_subset_iff) blast
  ultimately show ?thesis unfolding u by blast
qed

end
