(* ===== verification/Firewall_Address.thy ===== *)
theory Firewall_Address
  imports Validate
begin

text \<open>
  Addresses and ports of the host firewall: \<open>views/host/firewall/utils/validation.ts\<close>, on code
  units. A raised error is \<open>None\<close>. The theorems give the grammars the checks accept: dotted
  quads in canonical decimal, the text forms of an IPv6 address, networks in slash notation and
  port ranges, and that normalising and formatting are idempotent.
\<close>

section \<open>Tags\<close>

text \<open>\<open>split\<close> by runs of separators; a run at an end leaves an empty piece.\<close>

function splitRuns :: "('a \<Rightarrow> bool) \<Rightarrow> 'a list \<Rightarrow> 'a list list" where
  "splitRuns P s =
     (case dropWhile (\<lambda>c. \<not> P c) s of
        [] \<Rightarrow> [s]
      | c # r \<Rightarrow> takeWhile (\<lambda>c. \<not> P c) s # splitRuns P (dropWhile P r))"
  by pat_completeness auto
termination
proof (relation "measure (length \<circ> snd)")
  fix P :: "'a \<Rightarrow> bool" and s c r
  assume "dropWhile (\<lambda>c. \<not> P c) s = c # r"
  then have "length r < length s" using length_dropWhile_le [of "\<lambda>c. \<not> P c" s] by simp
  then have "length (dropWhile P r) < length s" using length_dropWhile_le [of P r] by linarith
  then show "((P, dropWhile P r), (P, s)) \<in> measure (length \<circ> snd)" by simp
qed simp

definition isTagSep :: "nat \<Rightarrow> bool" where
  "isTagSep c = (c \<in> {44, 65292, 59, 65307} \<or> isSpaceU c)"

definition splitTagValues :: "jstr list \<Rightarrow> jstr list" where
  "splitTagValues values =
     nub (filter (\<lambda>v. v \<noteq> []) (map trimU (concat (map (splitRuns isTagSep) values))))"


section \<open>Addresses\<close>

datatype FirewallAddressFamily = Ipv4 | Ipv6 | Inet

definition plainOctetRe :: rexp where
  "plainOctetRe = alts [chr1 48, Seq (Cls [(49, 57)]) (Between 0 2 (Cls digitR))]"

definition isValidIPv4Address :: "jstr \<Rightarrow> bool" where
  "isValidIPv4Address value =
     (let parts = splitOn 46 value
      in length parts = 4 \<and>
         list_all (\<lambda>part. matchRe plainOctetRe part \<and> leNum (Fin 0) (toNumber part) \<and> leNum (toNumber part) (Fin 255)) parts)"

definition hexGroup :: "jstr \<Rightarrow> bool" where
  "hexGroup g = matchRe (Between 1 4 (Cls hexR)) g"

definition splitIf :: "jstr \<Rightarrow> jstr list" where
  "splitIf s = (if s \<noteq> [] then splitOn 58 s else [])"

definition isValidIPv6Address :: "jstr \<Rightarrow> bool" where
  "isValidIPv6Address value =
     (if 58 \<notin> set value \<or> includesSub value [58, 58, 58] \<or> length (splitSub [58, 58] value) - 1 > 1 then False
      else
        (let separator = lastIndexOf 58 value
         in if 46 \<in> set value \<and> (separator < 0 \<or> \<not> isValidIPv4Address (drop (nat (separator + 1)) value)) then False
            else
              (let normalized = (if 46 \<in> set value then take (nat separator) value @ [58, 48, 58, 48] else value);
                   compressed = includesSub normalized [58, 58];
                   parts = splitSub [58, 58] normalized;
                   groups = splitIf (parts ! 0) @ splitIf (if length parts > 1 then parts ! 1 else [])
               in if list_ex (\<lambda>g. \<not> hexGroup g) groups then False
                  else if compressed then length groups < 8 else length groups = 8)))"

definition inferAddressFamily :: "jstr \<Rightarrow> FirewallAddressFamily" where
  "inferAddressFamily value = (if 58 \<in> set value then Ipv6 else Ipv4)"

definition validFor :: "FirewallAddressFamily \<Rightarrow> jstr \<Rightarrow> bool" where
  "validFor family address = (if family = Ipv6 then isValidIPv6Address address else isValidIPv4Address address)"

definition isValidIPOrCIDR :: "jstr \<Rightarrow> bool" where
  "isValidIPOrCIDR value =
     (let slash = indexOf 47 value
      in if slash \<noteq> lastIndexOf 47 value then False
         else
           (let address = (if slash = -1 then value else take (nat slash) value);
                family = inferAddressFamily address
            in if \<not> validFor family address then False
               else if slash = -1 then True
               else
                 (let bits = drop (nat (slash + 1)) value
                  in if \<not> matchRe (Between 1 3 (Cls digitR)) bits then False
                     else leNum (Fin 0) (toNumber bits) \<and>
                       leNum (toNumber bits) (Fin (if family = Ipv6 then 128 else 32)))))"

definition isValidAddressForFamily :: "FirewallAddressFamily \<Rightarrow> jstr \<Rightarrow> bool \<Rightarrow> bool" where
  "isValidAddressForFamily family value allowCIDR =
     (if \<not> allowCIDR \<and> 47 \<in> set value then False
      else isValidIPOrCIDR value \<and> inferAddressFamily (splitOn 47 value ! 0) = family)"

definition formatHostAddress :: "jstr option \<Rightarrow> FirewallAddressFamily option \<Rightarrow> jstr" where
  "formatHostAddress value family =
     (let address = (case value of None \<Rightarrow> [] | Some v \<Rightarrow> trimU v)
      in if address = [] then []
         else
           (let addressFamily = (case family of Some Ipv4 \<Rightarrow> Ipv4 | Some Ipv6 \<Rightarrow> Ipv6
                                 | _ \<Rightarrow> inferAddressFamily (splitOn 47 address ! 0));
                hostPrefix = units (if addressFamily = Ipv6 then ''/128'' else ''/32'')
            in if \<not> suffix hostPrefix address then address
               else
                 (let host = take (length address - length hostPrefix) address
                  in if validFor addressFamily host then host else address)))"

definition formatHostAddressList :: "jstr list \<Rightarrow> FirewallAddressFamily option \<Rightarrow> jstr" where
  "formatHostAddressList values family =
     joinWith (units '', '') (filter (\<lambda>a. a \<noteq> []) (map (\<lambda>v. formatHostAddress (Some v) family) values))"


section \<open>Ports\<close>

text \<open>\<open>/^(\d+)(?:[:-](\d+))?$/\<close> with its two groups. The numbers are read exactly: \<open>Number\<close> rounds
  a text only from $2^{53}$ on, and rounding never crosses the bound 65535 they are compared with.\<close>

definition matchRange :: "jstr \<Rightarrow> (jstr \<times> jstr option) option" where
  "matchRange t =
     (let a = takeWhile isDigitU t
      in if a = [] then None
         else case dropWhile isDigitU t of
           [] \<Rightarrow> Some (a, None)
         | c # b \<Rightarrow> if (c = 58 \<or> c = 45) \<and> b \<noteq> [] \<and> list_all isDigitU b then Some (a, Some b) else None)"

definition normalizePortRange :: "jstr \<Rightarrow> jstr option" where
  "normalizePortRange value =
     (case matchRange (trimU value) of
        None \<Rightarrow> None
      | Some (a, b) \<Rightarrow>
          (let start = digitsVal a; stop = (case b of None \<Rightarrow> start | Some d \<Rightarrow> digitsVal d)
           in if start < 1 \<or> start > 65535 \<or> stop < start \<or> stop > 65535 then None
              else Some (if start = stop then decUnits start else decUnits start @ 45 # decUnits stop)))"

definition isValidPortRange :: "jstr \<Rightarrow> bool" where
  "isValidPortRange value = (case normalizePortRange value of None \<Rightarrow> False | Some _ \<Rightarrow> True)"



section \<open>Port ranges\<close>

definition rangeText :: "nat \<Rightarrow> nat \<Rightarrow> jstr" where
  "rangeText a b = (if a = b then decUnits a else decUnits a @ 45 # decUnits b)"

definition validPorts :: "nat \<Rightarrow> nat \<Rightarrow> bool" where
  "validPorts a b \<longleftrightarrow> 1 \<le> a \<and> a \<le> b \<and> b \<le> 65535"

lemma digits_span:
  assumes "\<forall>c \<in> set a. isDigitU c" "\<not> isDigitU c"
  shows "takeWhile isDigitU (a @ c # b) = a" "dropWhile isDigitU (a @ c # b) = c # b"
  using assms by (induction a) auto

lemma trimU_ends:
  assumes "s \<noteq> []" "\<not> isSpaceU (hd s)" "\<not> isSpaceU (last s)"
  shows "trimU s = s"
proof -
  obtain c cs where c: "s = c # cs" using assms(1) by (cases s) auto
  obtain d ds where d: "rev s = d # ds" "d = last s"
    using assms(1) by (cases "rev s") (auto simp: rev_eq_Cons_iff)
  have "dropWhile isSpaceU s = s" "dropWhile isSpaceU (rev s) = rev s" using assms(2,3) c d by auto
  then show ?thesis by (simp add: trimU_def)
qed

lemma trimU_rangeText:
  assumes "\<forall>c \<in> set a. isDigitU c" "\<forall>c \<in> set b. isDigitU c" "a \<noteq> []" "b \<noteq> []"
  shows "trimU (a @ c # b) = a @ c # b"
  using assms digit_not_space by (intro trimU_ends) auto

lemma normalize_pair:
  assumes "c = 58 \<or> c = 45"
  shows "normalizePortRange (decUnits a @ c # decUnits b) = (if validPorts a b then Some (rangeText a b) else None)"
proof -
  have d: "\<forall>x \<in> set (decUnits n). isDigitU x" for n using decUnits_digit by blast
  have c: "\<not> isDigitU c" using assms by (auto simp: isDigitU_def)
  have "matchRange (trimU (decUnits a @ c # decUnits b)) = Some (decUnits a, Some (decUnits b))"
    using trimU_rangeText [OF d d decUnits_nonempty decUnits_nonempty] digits_span [OF d c] assms d
    by (simp add: matchRange_def list_all_iff)
  then show ?thesis by (simp add: normalizePortRange_def validPorts_def rangeText_def Let_def)
qed

lemma normalize_single:
  assumes "validPorts a a"
  shows "normalizePortRange (decUnits a) = Some (decUnits a)"
proof -
  have d: "\<forall>x \<in> set (decUnits a). isDigitU x" using decUnits_digit by blast
  have tw: "takeWhile isDigitU (decUnits a) = decUnits a" "dropWhile isDigitU (decUnits a) = []"
    using d takeWhile_all [OF d] by simp_all
  have "matchRange (decUnits a) = Some (decUnits a, None)" unfolding matchRange_def Let_def tw by simp
  then show ?thesis using assms trimU_digits [OF d] by (simp add: normalizePortRange_def validPorts_def)
qed

lemma normalize_range: "validPorts a b \<Longrightarrow> normalizePortRange (rangeText a b) = Some (rangeText a b)"
  using normalize_pair [of 45 a b] normalize_single [of a] by (auto simp: rangeText_def)

lemma normalize_result:
  assumes "normalizePortRange v = Some r"
  obtains a b where "validPorts a b" "r = rangeText a b"
proof -
  from assms obtain x y where m: "matchRange (trimU v) = Some (x, y)" by (auto simp: normalizePortRange_def split: option.splits)
  let ?a = "digitsVal x" and ?b = "case y of None \<Rightarrow> digitsVal x | Some d \<Rightarrow> digitsVal d"
  have "normalizePortRange v = (if validPorts ?a ?b then Some (rangeText ?a ?b) else None)"
    by (auto simp: normalizePortRange_def m validPorts_def rangeText_def Let_def split: option.split)
  with assms show ?thesis by (auto split: if_splits intro: that)
qed

text \<open>Port ranges: what normalisation returns are exactly the canonical ranges \<open>a\<close> or \<open>a-b\<close> with ports
  from 1 to 65535 in order; two numbers in decimal with a dash or a colon are accepted exactly when
  they are such a range; and a normalised text is its own normal form.\<close>

theorem normalizePortRange_canonical:
  "((\<exists>v. normalizePortRange v = Some r) \<longleftrightarrow> (\<exists>a b. validPorts a b \<and> r = rangeText a b)) \<and>
   normalizePortRange (decUnits a @ (if colon then 58 else 45) # decUnits b) =
     (if 1 \<le> a \<and> a \<le> b \<and> b \<le> 65535 then Some (if a = b then decUnits a else decUnits a @ 45 # decUnits b) else None) \<and>
   Option.bind (normalizePortRange v) normalizePortRange = normalizePortRange v"
proof (intro conjI)
  show "(\<exists>v. normalizePortRange v = Some r) \<longleftrightarrow> (\<exists>a b. validPorts a b \<and> r = rangeText a b)"
    using normalize_range normalize_result by metis
  show "normalizePortRange (decUnits a @ (if colon then 58 else 45) # decUnits b) =
     (if 1 \<le> a \<and> a \<le> b \<and> b \<le> 65535 then Some (if a = b then decUnits a else decUnits a @ 45 # decUnits b) else None)"
    using normalize_pair [of "if colon then 58 else 45" a b] by (simp add: validPorts_def rangeText_def)
  show "Option.bind (normalizePortRange v) normalizePortRange = normalizePortRange v"
    by (cases "normalizePortRange v") (auto elim!: normalize_result simp: normalize_range)
qed



section \<open>Dotted quads\<close>

lemma plainOctet_iff:
  "matchRe plainOctetRe p \<and> leNum (Fin 0) (toNumber p) \<and> leNum (toNumber p) (Fin 255) \<longleftrightarrow> (\<exists>n \<le> 255. p = decUnits n)"
proof
  assume a: "matchRe plainOctetRe p \<and> leNum (Fin 0) (toNumber p) \<and> leNum (toNumber p) (Fin 255)"
  then have p: "p \<noteq> []" "list_all isDigitU p" "length p = 1 \<or> 48 < hd p"
    by (auto simp: matchRe_iff plainOctetRe_def list_all_iff isDigitU_def)
  then have "toNumber p = Fin (of_nat (digitsVal p))" by (simp add: toNumber_digits list_all_iff)
  with a have "digitsVal p \<le> 255" by simp
  with p show "\<exists>n \<le> 255. p = decUnits n" by (rule numeral_text)
next
  assume "\<exists>n \<le> 255. p = decUnits n"
  then obtain n where n: "n \<le> 255" "p = decUnits n" by blast
  then consider "n < 10" | "10 \<le> n" "n < 100" | "100 \<le> n" "n < 1000" by linarith
  then have "matchRe plainOctetRe p"
  proof cases
    case 1
    then show ?thesis by (cases "n = 0") (simp_all add: n decUnits_small matchRe_iff plainOctetRe_def)
  next
    case 2
    then have "1 \<le> n div 10 \<and> n div 10 \<le> 9" using div_le_mono [of 10 n 10] div_le_mono [of n 99 10] by simp
    with 2 show ?thesis by (simp add: n decUnits_small matchRe_iff plainOctetRe_def)
  next
    case 3
    then have "1 \<le> n div 100 \<and> n div 100 \<le> 9" using div_le_mono [of 100 n 100] div_le_mono [of n 999 100] by simp
    moreover have "m mod 10 \<le> 9" for m :: nat using mod_less_divisor [of 10 m] by linarith
    ultimately show ?thesis using 3 by (simp add: n decUnits_small matchRe_iff plainOctetRe_def)
  qed
  with n show "matchRe plainOctetRe p \<and> leNum (Fin 0) (toNumber p) \<and> leNum (toNumber p) (Fin 255)" by simp
qed

lemma ipv4_split:
  "isValidIPv4Address w \<longleftrightarrow> length (splitOn 46 w) = 4 \<and> list_all (\<lambda>p. \<exists>n \<le> 255. p = decUnits n) (splitOn 46 w)"
  by (simp add: isValidIPv4Address_def plainOctet_iff Let_def)

lemma decUnits_no: "\<not> isDigitU c \<Longrightarrow> c \<notin> set (decUnits n)"
  using decUnits_digit by blast

lemma ipv4_quad:
  "isValidIPv4Address w \<longleftrightarrow> (\<exists>a b c d. a \<le> 255 \<and> b \<le> 255 \<and> c \<le> 255 \<and> d \<le> 255 \<and>
     w = joinWith [46] (map decUnits [a, b, c, d]))"
proof
  assume "isValidIPv4Address w"
  then obtain p q r s where s: "splitOn 46 w = [p, q, r, s]" "list_all (\<lambda>p. \<exists>n \<le> 255. p = decUnits n) [p, q, r, s]"
    by (auto simp: ipv4_split numeral_eq_Suc length_Suc_conv)
  then obtain a b c d where "a \<le> 255" "b \<le> 255" "c \<le> 255" "d \<le> 255" "[p, q, r, s] = map decUnits [a, b, c, d]" by auto
  moreover have "w = joinWith [46] [p, q, r, s]" using s(1) by (metis join_splitOn)
  ultimately show "\<exists>a b c d. a \<le> 255 \<and> b \<le> 255 \<and> c \<le> 255 \<and> d \<le> 255 \<and> w = joinWith [46] (map decUnits [a, b, c, d])"
    by metis
next
  assume "\<exists>a b c d. a \<le> 255 \<and> b \<le> 255 \<and> c \<le> 255 \<and> d \<le> 255 \<and> w = joinWith [46] (map decUnits [a, b, c, d])"
  then obtain a b c d where q: "a \<le> 255" "b \<le> 255" "c \<le> 255" "d \<le> 255" "w = joinWith [46] (map decUnits [a, b, c, d])" by blast
  have "46 \<notin> set (decUnits n)" for n by (rule decUnits_no) (simp add: isDigitU_def)
  then have "splitOn 46 w = map decUnits [a, b, c, d]" unfolding q(5) by (intro splitOn_join) auto
  with q show "isValidIPv4Address w" by (auto simp: ipv4_split)
qed



section \<open>IPv6 addresses\<close>

text \<open>The text forms of an address: eight groups, or fewer than eight with one run left out.\<close>

abbreviation joinColon :: "jstr list \<Rightarrow> jstr" where
  "joinColon gs \<equiv> joinWith [58] gs"

definition ipv6Text :: "jstr \<Rightarrow> bool" where
  "ipv6Text w \<longleftrightarrow> (\<exists>gs. length gs = 8 \<and> list_all hexGroup gs \<and> w = joinColon gs) \<or>
     (\<exists>ls rs. length ls + length rs < 8 \<and> list_all hexGroup (ls @ rs) \<and> w = joinColon ls @ [58, 58] @ joinColon rs)"

lemma hexGroup_iff: "hexGroup g \<longleftrightarrow> 1 \<le> length g \<and> length g \<le> 4 \<and> (\<forall>c \<in> set g. inRanges hexR c)"
  by (auto simp: hexGroup_def matchRe_iff)

lemma hexGroup_no: "hexGroup g \<Longrightarrow> 58 \<notin> set g \<and> 46 \<notin> set g \<and> g \<noteq> []"
  by (auto simp: hexGroup_iff)

text \<open>Splitting at the double colon.\<close>

lemma splitSub_none: "\<not> includesSub s p \<Longrightarrow> splitSub p s = [s]"
  by (induction s) auto

lemma splitSub_join: "p \<noteq> [] \<Longrightarrow> joinWith p (splitSub p s) = s"
proof (induction p s rule: splitSub.induct)
  case (2 p c s)
  show ?case
  proof (cases "prefix p (c # s)")
    case True
    then obtain r where r: "c # s = p @ r" by (auto simp: prefix_def)
    then have d: "drop (length p) (c # s) = r" by simp
    have "joinWith p (splitSub p r) = r" using 2 True d by simp
    then show ?thesis
      unfolding r splitSub_hit [OF 2(3)] using splitSub_nonempty [of p r] by (cases "splitSub p r") auto
  next
    case False
    then have "joinWith p (splitSub p s) = s" using 2 by simp
    then show ?thesis using False splitSub_nonempty [of p s] by (cases "splitSub p s"; cases "tl (splitSub p s)") auto
  qed
qed simp

lemma splitSub_first: "\<not> includesSub (a @ [58]) [58, 58] \<Longrightarrow> splitSub [58, 58] (a @ 58 # 58 # b) = a # splitSub [58, 58] b"
proof (induction a)
  case (Cons x a)
  then have "\<not> prefix [58, 58] (x # a @ 58 # 58 # b)" by (cases a) auto
  with Cons show ?case by simp
qed simp

lemma no_triple:
  "\<not> includesSub (a @ [58]) [58, 58] \<Longrightarrow> \<not> includesSub b [58, 58] \<Longrightarrow> \<not> prefix [58] b \<Longrightarrow>
   \<not> includesSub (a @ 58 # 58 # b) [58, 58, 58]"
proof (induction a)
  case Nil
  then show ?case by (auto simp: includesSub_iff prefix_def append_eq_Cons_conv Cons_eq_append_conv)
next
  case (Cons x a)
  then have "\<not> prefix [58, 58, 58] (x # a @ 58 # 58 # b)" by (cases a) auto
  with Cons show ?case by simp
qed

lemma includes_skip: "58 \<notin> set g \<Longrightarrow> includesSub (g @ s) [58, 58] = includesSub s [58, 58]"
  by (induction g) auto

lemma joinColon_Cons: "gs \<noteq> [] \<Longrightarrow> joinColon (g # gs) = g @ 58 # joinColon gs"
  by (cases gs) auto

lemma includesSub_append: "includesSub a p \<Longrightarrow> includesSub (a @ b) p"
  unfolding includesSub_iff by (metis append.assoc)

lemma joinColon_nonempty: "list_all hexGroup gs \<Longrightarrow> gs \<noteq> [] \<Longrightarrow> joinColon gs \<noteq> []"
  by (cases gs; cases "tl gs") (auto dest: hexGroup_no)

lemma splitSub_hits: "includesSub s [58, 58] \<Longrightarrow> length (splitSub [58, 58] s) \<noteq> 1"
proof (induction s)
  case (Cons c s)
  show ?case
  proof (cases "prefix [58, 58] (c # s)")
    case False
    then have "length (splitSub [58, 58] s) \<noteq> 1" using Cons by (simp only: includesSub.simps) blast
    with False show ?thesis by (cases "splitSub [58, 58] s") simp_all
  qed simp
qed simp

lemma joinColon_start: "list_all hexGroup gs \<Longrightarrow> \<not> prefix [58] (joinColon gs)"
proof (cases gs)
  case (Cons g hs)
  assume "list_all hexGroup gs"
  with Cons have "g \<noteq> []" "58 \<notin> set g" by (auto dest: hexGroup_no)
  then show ?thesis unfolding Cons by (cases hs; cases g) auto
qed simp

lemma joinColon_single: "list_all hexGroup gs \<Longrightarrow> gs \<noteq> [] \<Longrightarrow> \<not> includesSub (joinColon gs @ [58]) [58, 58]"
proof (induction gs)
  case (Cons g gs)
  have g: "58 \<notin> set g" using Cons.prems hexGroup_no by simp
  show ?case
  proof (cases "gs = []")
    case True
    then show ?thesis using includes_skip [OF g, of "[58]"] by simp
  next
    case False
    then have "\<not> includesSub (joinColon gs @ [58]) [58, 58]" "\<not> prefix [58] (joinColon gs)" "joinColon gs \<noteq> []"
      using Cons joinColon_start [of gs] by (auto simp: joinColon_nonempty)
    then have "\<not> includesSub (58 # joinColon gs @ [58]) [58, 58]" by (cases "joinColon gs") auto
    then show ?thesis using includes_skip [OF g] False by (simp add: joinColon_Cons)
  qed
qed simp

lemma joinColon_plain: "list_all hexGroup gs \<Longrightarrow> \<not> includesSub (joinColon gs) [58, 58]"
  using joinColon_single [of gs] includesSub_append [of "joinColon gs" "[58, 58]" "[58]"] by (cases "gs = []") auto

lemma joinColon_nodot: "list_all hexGroup gs \<Longrightarrow> 46 \<notin> set (joinColon gs)"
proof (induction gs)
  case (Cons g gs)
  then show ?case by (cases gs) (auto dest: hexGroup_no)
qed simp

lemma joinColon_split: "list_all hexGroup gs \<Longrightarrow> splitIf (joinColon gs) = gs"
proof (cases "gs = []")
  case False
  assume a: "list_all hexGroup gs"
  then have "joinColon gs \<noteq> []" "splitOn 58 (joinColon gs) = gs"
    using False joinColon_nonempty splitOn_join [of gs 58] hexGroup_no by (auto simp: list_all_iff)
  then show ?thesis by (simp add: splitIf_def)
qed (simp add: splitIf_def)

lemma splitIf_Nil [simp]: "splitIf [] = []"
  by (simp add: splitIf_def)

lemma splitIf_join: "joinColon (splitIf s) = s"
  by (simp add: splitIf_def)

text \<open>The two sides of the double colon, and their groups.\<close>

definition sides :: "jstr \<Rightarrow> jstr list" where
  "sides w = (let parts = splitSub [58, 58] w in splitIf (parts ! 0) @ splitIf (if length parts > 1 then parts ! 1 else []))"

definition sidesOk :: "jstr \<Rightarrow> bool" where
  "sidesOk w \<longleftrightarrow> list_all hexGroup (sides w) \<and> (if includesSub w [58, 58] then length (sides w) < 8 else length (sides w) = 8)"

definition colonsOk :: "jstr \<Rightarrow> bool" where
  "colonsOk w \<longleftrightarrow> 58 \<in> set w \<and> \<not> includesSub w [58, 58, 58] \<and> length (splitSub [58, 58] w) \<le> 2"

lemma ipv6_parts:
  "isValidIPv6Address w \<longleftrightarrow> colonsOk w \<and>
     (if 46 \<in> set w
      then isValidIPv4Address (drop (nat (lastIndexOf 58 w + 1)) w) \<and> 0 \<le> lastIndexOf 58 w \<and>
        sidesOk (take (nat (lastIndexOf 58 w)) w @ [58, 48, 58, 48])
      else sidesOk w)"
  by (auto simp: isValidIPv6Address_def colonsOk_def sidesOk_def sides_def Let_def list_all_iff list_ex_iff not_less
      simp del: splitSub.simps)

lemma sides_join:
  assumes "length (splitSub [58, 58] w) \<le> 2" "sidesOk w"
  shows "ipv6Text w"
proof -
  define parts where "parts = splitSub [58, 58] w"
  have join: "joinWith [58, 58] parts = w" unfolding parts_def by (rule splitSub_join) simp
  show ?thesis
  proof (cases "includesSub w [58, 58]")
    case False
    then have "sides w = splitIf w" by (simp add: sides_def splitSub_none splitIf_def)
    then show ?thesis using assms(2) False splitIf_join [of w] by (auto simp: ipv6Text_def sidesOk_def)
  next
    case True
    have "length parts \<noteq> 0" "length parts \<noteq> 1" using splitSub_hits [OF True] by (simp_all add: parts_def)
    then obtain l r where lr: "parts = [l, r]"
      using assms(1) unfolding parts_def [symmetric] by (cases parts; cases "tl parts") auto
    then have "sides w = splitIf l @ splitIf r" by (simp add: sides_def parts_def [symmetric])
    moreover have "w = joinColon (splitIf l) @ [58, 58] @ joinColon (splitIf r)" using join lr by (simp add: splitIf_join)
    ultimately show ?thesis using assms(2) True by (auto simp: ipv6Text_def sidesOk_def)
  qed
qed

lemma text_sides:
  assumes "ipv6Text w"
  shows "colonsOk w" "sidesOk w" "46 \<notin> set w"
proof -
  have "colonsOk w \<and> sidesOk w \<and> 46 \<notin> set w"
    using assms unfolding ipv6Text_def
  proof (elim disjE exE conjE)
    fix gs assume g: "length gs = 8" "list_all hexGroup gs" "w = joinColon gs"
    have no: "\<not> includesSub w [58, 58]" using joinColon_plain g by simp
    then have "\<not> includesSub w [58, 58, 58]" unfolding includesSub_iff by (metis append_Cons append_Nil)
    moreover have "58 \<in> set w" using g by (cases gs; cases "tl gs") auto
    moreover have "sides w = gs" using no g joinColon_split [of gs] by (simp add: sides_def splitSub_none)
    ultimately show ?thesis using no g joinColon_nodot [of gs] by (simp add: colonsOk_def sidesOk_def splitSub_none)
  next
    fix ls rs assume g: "length ls + length rs < 8" "list_all hexGroup (ls @ rs)" "w = joinColon ls @ [58, 58] @ joinColon rs"
    have l: "\<not> includesSub (joinColon ls @ [58]) [58, 58]" using g(2) joinColon_single [of ls] by (cases "ls = []") auto
    have r: "\<not> includesSub (joinColon rs) [58, 58]" "\<not> prefix [58] (joinColon rs)"
      using g(2) joinColon_plain [of rs] joinColon_start [of rs] by auto
    have parts: "splitSub [58, 58] w = [joinColon ls, joinColon rs]"
      using splitSub_first [OF l] splitSub_none [OF r(1)] by (simp add: g(3))
    then have "sides w = ls @ rs" using g(2) joinColon_split by (simp add: sides_def)
    moreover have "includesSub w [58, 58]" unfolding g(3) includesSub_iff by blast
    ultimately show ?thesis
      using no_triple [OF l r] parts g joinColon_nodot [of ls] joinColon_nodot [of rs] by (simp add: colonsOk_def sidesOk_def)
  qed
  then show "colonsOk w" "sidesOk w" "46 \<notin> set w" by simp_all
qed

lemma ipv6_plain: "46 \<notin> set w \<Longrightarrow> isValidIPv6Address w \<longleftrightarrow> ipv6Text w"
  using sides_join [of w] text_sides [of w] by (auto simp: ipv6_parts colonsOk_def)


text \<open>The last colon, and what follows it.\<close>

lemma lastIndexOf_append: "58 \<notin> set v \<Longrightarrow> lastIndexOf 58 (a @ 58 # v) = int (length a)"
proof -
  assume "58 \<notin> set v"
  then have "findIndex (\<lambda>x. x = 58) (rev v @ 58 # rev a) = int (length v)"
    by (induction v rule: rev_induct) (auto simp: Let_def)
  then show ?thesis by (simp add: lastIndexOf_def Let_def)
qed

lemma count_append:
  assumes "v \<noteq> []" "hd v \<noteq> 58" "\<not> includesSub v [58, 58]"
  shows "length (splitSub [58, 58] (u @ v)) = length (splitSub [58, 58] u)"
proof (induction "[58 :: 'a :: numeral, 58]" u rule: splitSub.induct)
  case 1
  then show ?case using splitSub_none [OF assms(3)] by simp
next
  case (2 c s)
  have pre: "prefix [58, 58] (c # s @ v) = prefix [58, 58] (c # s)"
    using assms(1,2) by (cases s; cases v) auto
  show ?case
  proof (cases "prefix [58, 58] (c # s)")
    case True
    then obtain s' where "c # s = [58, 58] @ s'" by (auto simp: prefix_def)
    then show ?thesis using 2(1) True pre by auto
  next
    case False
    then show ?thesis
      using 2(2) pre splitSub_nonempty [of "[58, 58]" "s @ v"] splitSub_nonempty [of "[58, 58]" s]
      by (cases "splitSub [58, 58] (s @ v)"; cases "splitSub [58, 58] s") auto
  qed
qed

lemma triple_append:
  assumes "v \<noteq> []" "hd v \<noteq> 58" "\<not> includesSub v [58, 58]"
  shows "includesSub (u @ v) [58, 58, 58] = includesSub u [58, 58, 58]"
proof (induction u)
  case Nil
  have "\<not> includesSub v [58, 58, 58]" using assms(3) unfolding includesSub_iff by (metis append_Cons append_Nil)
  then show ?case by simp
next
  case (Cons x u)
  have "prefix [58, 58, 58] (x # u @ v) = prefix [58, 58, 58] (x # u)"
    using assms(1,2) by (cases u; cases "tl u"; cases v) auto
  with Cons show ?case by simp
qed

lemma quad_chars: "isValidIPv4Address v \<Longrightarrow> v \<noteq> [] \<and> 58 \<notin> set v \<and> 46 \<in> set v"
proof -
  assume "isValidIPv4Address v"
  then obtain a b c d where "v = joinWith [46] (map decUnits [a, b, c, d])" by (auto simp: ipv4_quad)
  moreover have "58 \<notin> set (decUnits n)" for n by (rule decUnits_no) (simp add: isDigitU_def)
  ultimately show ?thesis by simp
qed

text \<open>The IPv6 check accepts exactly the text forms of an address: eight groups of one to four hex
  digits, or fewer with one double colon for the missing run; and such a form whose last two
  groups are written as a dotted quad.\<close>

lemma ipv6_grammar:
  "isValidIPv6Address w \<longleftrightarrow> ipv6Text w \<or>
     (\<exists>pre v. w = pre @ 58 # v \<and> isValidIPv4Address v \<and> ipv6Text (pre @ units '':0:0''))"
proof (cases "46 \<in> set w")
  case False
  then show ?thesis using ipv6_plain [of w] quad_chars by auto
next
  case True
  have zeros: "units '':0:0'' = [58, 48, 58, 48]" by (simp add: units_def)
  have one: "isValidIPv6Address (pre @ 58 # v) \<longleftrightarrow> ipv6Text (pre @ [58, 48, 58, 48])"
    if v: "isValidIPv4Address v" for pre v
  proof -
    note q = quad_chars [OF v]
    have hv: "hd v \<noteq> 58" "\<not> includesSub v [58, 58]"
      using q includesSub_first [of "[58, 58]" v] by (cases v; force)+
    have "\<not> includesSub [48, 58, 48 :: nat] [58, 58]" by simp
    then have "colonsOk (pre @ 58 # v) \<longleftrightarrow> colonsOk (pre @ [58, 48, 58, 48])"
      using count_append [OF _ hv, of "pre @ [58]"] count_append [of "[48, 58, 48]" "pre @ [58]"]
        triple_append [OF _ hv, of "pre @ [58]"] triple_append [of "[48, 58, 48]" "pre @ [58]"] q
      by (simp add: colonsOk_def)
    moreover have "46 \<in> set (pre @ 58 # v)" "lastIndexOf 58 (pre @ 58 # v) = int (length pre)"
      using q lastIndexOf_append [of v pre] by auto
    ultimately have "isValidIPv6Address (pre @ 58 # v) \<longleftrightarrow> colonsOk (pre @ [58, 48, 58, 48]) \<and> sidesOk (pre @ [58, 48, 58, 48])"
      using v by (simp add: ipv6_parts nat_add_distrib)
    also have "\<dots> \<longleftrightarrow> ipv6Text (pre @ [58, 48, 58, 48])"
      using sides_join text_sides by (auto simp: colonsOk_def)
    finally show ?thesis .
  qed
  have "\<exists>pre v. w = pre @ 58 # v \<and> isValidIPv4Address v" if "isValidIPv6Address w"
  proof -
    have c: "58 \<in> set w" "isValidIPv4Address (drop (nat (lastIndexOf 58 w + 1)) w)"
      using that True by (simp_all add: ipv6_parts colonsOk_def)
    from c(1) obtain pre v where w: "w = pre @ 58 # v" "58 \<notin> set v" by (metis split_list_last)
    then show ?thesis using c(2) lastIndexOf_append [of v pre] by (auto simp: nat_add_distrib)
  qed
  moreover have "\<not> ipv6Text w" using True text_sides(3) by blast
  ultimately show ?thesis using one unfolding zeros by blast
qed


section \<open>Networks\<close>

definition ipv4Text :: "jstr \<Rightarrow> bool" where
  "ipv4Text w \<longleftrightarrow> (\<exists>a b c d. a \<le> 255 \<and> b \<le> 255 \<and> c \<le> 255 \<and> d \<le> 255 \<and> w = joinWith [46] (map decUnits [a, b, c, d]))"

text \<open>An IPv6 address with its last two groups as a dotted quad.\<close>

definition ipv6Mixed :: "jstr \<Rightarrow> bool" where
  "ipv6Mixed w \<longleftrightarrow> (\<exists>pre v. w = pre @ 58 # v \<and> ipv4Text v \<and> ipv6Text (pre @ units '':0:0''))"

lemma ipv4_text: "isValidIPv4Address w = ipv4Text w"
  by (simp only: ipv4_quad ipv4Text_def)

lemma ipv6_text: "isValidIPv6Address w = (ipv6Text w \<or> ipv6Mixed w)"
  by (simp only: ipv6_grammar ipv6Mixed_def ipv4_text)

lemma validFor_infer: "validFor (inferAddressFamily a) a \<longleftrightarrow> ipv4Text a \<or> ipv6Text a \<or> ipv6Mixed a"
proof -
  have "58 \<notin> set a" if "isValidIPv4Address a" using quad_chars [OF that] by blast
  moreover have "58 \<in> set a" if "isValidIPv6Address a" using that by (simp add: ipv6_parts colonsOk_def)
  ultimately show ?thesis
    unfolding ipv4_text [symmetric] ipv6_text [symmetric] by (auto simp: validFor_def inferAddressFamily_def)
qed

lemma hex_noslash: "list_all hexGroup gs \<Longrightarrow> 47 \<notin> set (joinColon gs)"
proof (induction gs)
  case (Cons g gs)
  then show ?case by (cases gs) (auto simp: hexGroup_iff)
qed simp

lemma quad_noslash: "ipv4Text a \<Longrightarrow> 47 \<notin> set a"
proof -
  have "47 \<notin> set (decUnits n)" for n by (rule decUnits_no) (simp add: isDigitU_def)
  then show "ipv4Text a \<Longrightarrow> 47 \<notin> set a" by (auto simp: ipv4Text_def)
qed

lemma text_noslash: "ipv4Text a \<or> ipv6Text a \<or> ipv6Mixed a \<Longrightarrow> 47 \<notin> set a"
proof -
  have "ipv6Text a \<Longrightarrow> 47 \<notin> set a" for a by (auto simp: ipv6Text_def hex_noslash)
  then show "ipv4Text a \<or> ipv6Text a \<or> ipv6Mixed a \<Longrightarrow> 47 \<notin> set a"
    using quad_noslash by (fastforce simp: ipv6Mixed_def)
qed

lemma one_slash: "indexOf 47 (a @ 47 # b) = int (length a)" if "47 \<notin> set a"
  using that unfolding indexOf_def by (induction a) (auto simp: Let_def)

lemma lastSlash: "lastIndexOf 47 (a @ 47 # b) = int (length a)" if "47 \<notin> set b"
  using that one_slash [of "rev b" "rev a"] by (simp add: lastIndexOf_def indexOf_def Let_def)

lemma no_slash:
  fixes a :: jstr
  assumes "47 \<notin> set a"
  shows "indexOf 47 a = -1" "lastIndexOf 47 a = -1"
  using assms findIndex_none [of "\<lambda>x. x = 47" a] findIndex_none [of "\<lambda>x. x = 47" "rev a"]
  by (auto simp: indexOf_def lastIndexOf_def Let_def)

lemma digits_within:
  "matchRe (Between 1 3 (Cls digitR)) b \<and> leNum (Fin 0) (toNumber b) \<and> leNum (toNumber b) (Fin (of_nat m)) \<longleftrightarrow>
   1 \<le> length b \<and> length b \<le> 3 \<and> list_all isDigitU b \<and> digitsVal b \<le> m"
proof -
  have "matchRe (Between 1 3 (Cls digitR)) b \<longleftrightarrow> 1 \<le> length b \<and> length b \<le> 3 \<and> list_all isDigitU b"
    by (auto simp: matchRe_iff list_all_iff isDigitU_def)
  moreover have "toNumber b = Fin (of_nat (digitsVal b))" if "list_all isDigitU b" "1 \<le> length b"
    using that toNumber_digits [of b] by (cases b) (auto simp: list_all_iff)
  ultimately show ?thesis by auto
qed

text \<open>The notation of a network: an address, and after a slash at most three digits up to the
  number of bits of its family.\<close>

definition prefixOk :: "jstr \<Rightarrow> jstr \<Rightarrow> bool" where
  "prefixOk a b \<longleftrightarrow> 1 \<le> length b \<and> length b \<le> 3 \<and> list_all isDigitU b \<and> digitsVal b \<le> (if 58 \<in> set a then 128 else 32)"

lemma cidr_none: "47 \<notin> set w \<Longrightarrow> isValidIPOrCIDR w \<longleftrightarrow> validFor (inferAddressFamily w) w"
  by (simp add: isValidIPOrCIDR_def no_slash Let_def)

lemma cidr_one:
  assumes "47 \<notin> set a" "47 \<notin> set b"
  shows "isValidIPOrCIDR (a @ 47 # b) \<longleftrightarrow> validFor (inferAddressFamily a) a \<and> prefixOk a b"
proof -
  note at = one_slash [OF assms(1), of b] lastSlash [OF assms(2), of a]
  have "isValidIPOrCIDR (a @ 47 # b) \<longleftrightarrow> validFor (inferAddressFamily a) a \<and> matchRe (Between 1 3 (Cls digitR)) b \<and>
      leNum (Fin 0) (toNumber b) \<and> leNum (toNumber b) (Fin (of_nat (if 58 \<in> set a then 128 else 32)))"
    unfolding isValidIPOrCIDR_def at Let_def by (auto simp: inferAddressFamily_def nat_add_distrib)
  then show ?thesis using digits_within [of b "if 58 \<in> set a then 128 else 32"] unfolding prefixOk_def by blast
qed

lemma cidr_more:
  assumes "47 \<in> set b"
  shows "\<not> isValidIPOrCIDR (a @ 47 # b)"
proof -
  obtain x y where x: "a @ 47 # b = x @ 47 # y" "47 \<notin> set x" using split_list_first [of 47 "a @ 47 # b"] by auto
  obtain u v where u: "b = u @ 47 # v" "47 \<notin> set v" using split_list_last [OF assms] by auto
  have "length x \<le> length a"
  proof (rule ccontr)
    assume "\<not> length x \<le> length a"
    then have "x ! length a = (a @ 47 # b) ! length a" unfolding x(1) by (simp add: nth_append)
    then show False using x(2) nth_mem [of "length a" x] \<open>\<not> length x \<le> length a\<close> by simp
  qed
  moreover have "indexOf 47 (a @ 47 # b) = int (length x)" unfolding x(1) by (rule one_slash [OF x(2)])
  moreover have "lastIndexOf 47 (a @ 47 # b) = int (length (a @ 47 # u))"
    using lastSlash [OF u(2), of "a @ 47 # u"] by (simp add: u(1))
  ultimately show ?thesis by (simp add: isValidIPOrCIDR_def)
qed

text \<open>C8. The firewall accepts as an address or network exactly: a dotted quad in canonical decimal, a text
  form of an IPv6 address, or one of them followed by a slash and at most three digits, up to 32
  for a quad and up to 128 for an IPv6 address.\<close>

theorem isValidIPOrCIDR_grammar:
  "isValidIPOrCIDR w \<longleftrightarrow>
     (\<exists>a b. (ipv4Text a \<or> ipv6Text a \<or> ipv6Mixed a) \<and>
        (w = a \<or> w = a @ 47 # b \<and> 1 \<le> length b \<and> length b \<le> 3 \<and> list_all isDigitU b \<and>
           digitsVal b \<le> (if 58 \<in> set a then 128 else 32)))"
proof -
  have clean: "47 \<notin> set a" if "ipv4Text a \<or> ipv6Text a \<or> ipv6Mixed a" for a
    using that text_noslash by blast
  have digits: "47 \<notin> set b" if "list_all isDigitU b" for b using that by (auto simp: list_all_iff isDigitU_def)
  have "isValidIPOrCIDR w \<longleftrightarrow> (\<exists>a b. validFor (inferAddressFamily a) a \<and> (w = a \<or> w = a @ 47 # b \<and> prefixOk a b))"
  proof (cases "47 \<in> set w")
    case False
    then show ?thesis using cidr_none [of w] by auto
  next
    case True
    then obtain a b where w: "w = a @ 47 # b" "47 \<notin> set a" by (metis split_list_first)
    have "takeWhile (\<lambda>c. c \<noteq> 47) (x @ 47 # y) = x" if "47 \<notin> set x" for x y :: jstr
      using that by (induction x) auto
    then have "a' = a \<and> b' = b" if "w = a' @ 47 # b'" "47 \<notin> set a'" for a' b'
      using that w by (metis append_same_eq list.inject same_append_eq)
    then show ?thesis
      using cidr_one [OF w(2)] cidr_more [of b a] w(1) True clean digits validFor_infer unfolding prefixOk_def by metis
  qed
  then show ?thesis unfolding validFor_infer prefixOk_def .
qed


section \<open>Shown addresses\<close>

lemma trimU_idem: "trimU (trimU s) = trimU s"
proof (cases "trimU s = []")
  case False
  let ?d = "dropWhile isSpaceU s"
  have ne: "dropWhile isSpaceU (rev ?d) \<noteq> []" using False by (simp add: trimU_def)
  then have "\<not> isSpaceU (hd (dropWhile isSpaceU (rev ?d)))" by (rule hd_dropWhile)
  then have l: "\<not> isSpaceU (last (trimU s))" using ne by (simp add: trimU_def last_rev)
  have "suffix (dropWhile isSpaceU (rev ?d)) (rev ?d)" by (rule suffix_dropWhile)
  then have "prefix (trimU s) ?d" by (simp add: trimU_def suffix_to_prefix)
  then obtain r where r: "?d = trimU s @ r" by (auto simp: prefix_def)
  then have "?d \<noteq> []" "hd ?d = hd (trimU s)" using False by simp_all
  then have "\<not> isSpaceU (hd (trimU s))" using hd_dropWhile [of isSpaceU s] by metis
  with l False show ?thesis by (intro trimU_ends) auto
next
  case True
  have "trimU [] = []" by (simp add: trimU_def)
  with True show ?thesis by simp
qed

lemma joinColon_chars: "list_all hexGroup gs \<Longrightarrow> c \<in> set (joinColon gs) \<Longrightarrow> inRanges hexR c \<or> c = 58"
proof (induction gs)
  case (Cons g gs)
  then show ?case by (cases gs) (auto simp: hexGroup_iff)
qed simp

lemma quad_unspaced: "ipv4Text h \<Longrightarrow> c \<in> set h \<Longrightarrow> \<not> isSpaceU c"
proof -
  assume "ipv4Text h" "c \<in> set h"
  then have "\<exists>n. c = 46 \<or> c \<in> set (decUnits n)" unfolding ipv4Text_def by auto
  then show ?thesis using decUnits_digit digit_not_space by (auto simp: isSpaceU_def)
qed

lemma text_unspaced: "ipv6Text h \<Longrightarrow> c \<in> set h \<Longrightarrow> \<not> isSpaceU c"
proof -
  assume h: "ipv6Text h" "c \<in> set h"
  have "\<exists>gs. list_all hexGroup gs \<and> (c = 58 \<or> c \<in> set (joinColon gs))"
    using h unfolding ipv6Text_def by (elim disjE exE conjE) auto
  then have "inRanges hexR c \<or> c = 58" using joinColon_chars by blast
  then show ?thesis by (auto simp: isSpaceU_def)
qed

lemma address_unspaced:
  assumes "validFor g h"
  shows "h \<noteq> []" "trimU h = h" "47 \<notin> set h"
proof -
  have t: "ipv4Text h \<or> ipv6Text h \<or> ipv6Mixed h" using assms by (auto simp: validFor_def ipv4_text ipv6_text split: if_splits)
  have "h \<noteq> []" if "ipv4Text h" using quad_chars that by (simp add: ipv4_text)
  with t show ne: "h \<noteq> []" using text_sides(1) [of "[]"] by (auto simp: ipv6Mixed_def colonsOk_def)
  have "\<not> isSpaceU c" if "c \<in> set h" for c
    using t that quad_unspaced text_unspaced by (fastforce simp: ipv6Mixed_def isSpaceU_def)
  with ne show "trimU h = h" by (intro trimU_ends) auto
  show "47 \<notin> set h" using text_noslash [OF t] .
qed

text \<open>Formatting an address drops a host prefix once; what is shown is formatted already.\<close>

lemma formatHostAddress_idem: "formatHostAddress (Some (formatHostAddress v f)) f = formatHostAddress v f"
proof -
  define a where "a = (case v of None \<Rightarrow> [] | Some w \<Rightarrow> trimU w)"
  have a: "trimU a = a" by (cases v) (simp_all add: a_def trimU_idem trimU_def [of "[]"])
  define g where "g = (case f of Some Ipv4 \<Rightarrow> Ipv4 | Some Ipv6 \<Rightarrow> Ipv6 | _ \<Rightarrow> inferAddressFamily (splitOn 47 a ! 0))"
  define p where "p = units (if g = Ipv6 then ''/128'' else ''/32'')"
  let ?h = "take (length a - length p) a"
  have v: "formatHostAddress v f = (if a \<noteq> [] \<and> suffix p a \<and> validFor g ?h then ?h else a)"
    by (simp add: formatHostAddress_def a_def [symmetric] g_def [symmetric] p_def [symmetric] Let_def)
  have "formatHostAddress (Some a) f = formatHostAddress v f"
    unfolding formatHostAddress_def a_def [symmetric] by (simp add: a)
  moreover have "formatHostAddress (Some ?h) f = ?h" if h: "validFor g ?h"
  proof -
    have "\<not> suffix (units x) ?h" if "CHR ''/'' \<in> set x" for x
    proof
      assume "suffix (units x) ?h"
      then have "set (units x) \<subseteq> set ?h" by (rule set_mono_suffix)
      moreover have "47 \<in> set (units x)" using that by (force simp: units_def)
      ultimately show False using address_unspaced(3) [OF h] by blast
    qed
    then show ?thesis unfolding formatHostAddress_def using address_unspaced [OF h] by (simp add: Let_def)
  qed
  ultimately show ?thesis using v by auto
qed

end
