(* ===== verification/White_List.thy ===== *)
theory White_List
  imports Firewall_Address Json_Text
begin

text \<open>
  The list of ports that the firewall never blocks: reading and writing it
  (\<open>views/host/firewall/setting/white-list/model.ts\<close>) and the drawer that edits it
  (\<open>index.vue\<close> beside it), as a step relation over its buttons and fields. A raised error is \<open>None\<close> in
  the model and \<open>Raised\<close> in the drawer. What is written is read back, and what the drawer sends is
  always a list of different rules in normal form.
\<close>

section \<open>The model\<close>

record WhiteListRule =
  family :: jstr
  protocol :: jstr
  port :: jstr

text \<open>\<open>toLowerCase\<close> as far as it matters here: no other unit is lowered to a letter of the four words
  that the result is compared with.\<close>

definition lowerU :: "nat \<Rightarrow> nat" where
  "lowerU c = (if 65 \<le> c \<and> c \<le> 90 then c + 32 else c)"

definition normalizeWhiteListRule :: "WhiteListRule \<Rightarrow> WhiteListRule option" where
  "normalizeWhiteListRule rule =
     (let fam = map lowerU (family rule); prot = map lowerU (protocol rule)
      in if fam \<notin> {units ''ipv4'', units ''ipv6''} \<or> prot \<notin> {units ''tcp'', units ''udp''} then None
         else map_option (\<lambda>p. \<lparr>family = fam, protocol = prot, port = p\<rparr>) (normalizePortRange (port rule)))"

definition whiteListRuleKey :: "WhiteListRule \<Rightarrow> jstr option" where
  "whiteListRuleKey rule =
     map_option (\<lambda>n. family n @ 47 # protocol n @ 47 # port n) (normalizeWhiteListRule rule)"

text \<open>A rule read from JSON: an element that is not an object, or lacks a member, or has one that is
  not a string, makes the normalisation raise.\<close>

definition textMember :: "(jstr \<times> json) list \<Rightarrow> string \<Rightarrow> jstr option" where
  "textMember ms k = (case map_of (rev ms) (units k) of Some (JStr t) \<Rightarrow> Some t | _ \<Rightarrow> None)"

definition readRule :: "json \<Rightarrow> WhiteListRule option" where
  "readRule j =
     (case j of
        JObj ms \<Rightarrow>
          (case textMember ms ''family'' of None \<Rightarrow> None | Some f \<Rightarrow>
           case textMember ms ''protocol'' of None \<Rightarrow> None | Some p \<Rightarrow>
           case textMember ms ''port'' of None \<Rightarrow> None | Some q \<Rightarrow>
             Some \<lparr>family = f, protocol = p, port = q\<rparr>)
      | _ \<Rightarrow> None)"

definition isListSep :: "nat \<Rightarrow> bool" where
  "isListSep c = (isSpaceU c \<or> c = 44 \<or> c = 59)"

definition readItem :: "jstr \<Rightarrow> WhiteListRule" where
  "readItem item =
     (let parts = splitOn 47 item
      in if length parts = 3 then \<lparr>family = parts ! 0, protocol = parts ! 2, port = parts ! 1\<rparr>
         else \<lparr>family = units ''ipv4'',
               protocol = (if length parts > 1 \<and> parts ! 1 \<noteq> [] then parts ! 1 else units ''tcp''),
               port = parts ! 0\<rparr>)"

text \<open>The loop that normalises the rules and drops repeated ones.\<close>

fun collectRules :: "WhiteListRule option list \<Rightarrow> jstr set \<Rightarrow> WhiteListRule list option" where
  "collectRules [] seen = Some []"
| "collectRules (item # items) seen =
     (case Option.bind item normalizeWhiteListRule of
        None \<Rightarrow> None
      | Some rule \<Rightarrow>
          (case whiteListRuleKey rule of
             None \<Rightarrow> None
           | Some key \<Rightarrow>
               if key \<in> seen then collectRules items seen
               else map_option (Cons rule) (collectRules items (insert key seen))))"

definition parseWhiteList :: "jstr option \<Rightarrow> WhiteListRule list option" where
  "parseWhiteList value =
     (let input = (case value of None \<Rightarrow> [] | Some v \<Rightarrow> trimU v)
      in if input = [] then Some []
         else if hd input = 91
         then (case JSON_parse input of Some (JArr js) \<Rightarrow> collectRules (map readRule js) {} | _ \<Rightarrow> None)
         else collectRules (map (Some \<circ> readItem) (filter (\<lambda>w. w \<noteq> []) (splitRuns isListSep input))) {})"

text \<open>\<open>JSON.stringify\<close>: the strings of a rule in normal form have no unit that needs an escape.\<close>

definition quoted :: "jstr \<Rightarrow> jstr" where
  "quoted s = 34 # s @ [34]"

definition ruleText :: "WhiteListRule \<Rightarrow> jstr" where
  "ruleText r = 123 # joinWith [44] (map (\<lambda>(k, v). quoted (units k) @ 58 # quoted v)
     [(''family'', family r), (''protocol'', protocol r), (''port'', port r)]) @ [125]"

definition serializeWhiteList :: "WhiteListRule list \<Rightarrow> jstr option" where
  "serializeWhiteList rules =
     map_option (\<lambda>ns. 91 # joinWith [44] (map ruleText ns) @ [93]) (those (map normalizeWhiteListRule rules))"

definition whiteListRuleCount :: "jstr option \<Rightarrow> nat" where
  "whiteListRuleCount value = (case parseWhiteList value of None \<Rightarrow> 0 | Some rules \<Rightarrow> length rules)"


section \<open>The drawer\<close>

record WhiteListItem =
  rule :: WhiteListRule
  oldRule :: WhiteListRule
  editing :: bool
  isNew :: bool

record drawer =
  rows :: "WhiteListItem list"
  drawerVisible :: bool
  loading :: bool
  errors :: "string list"
  sent :: "jstr list"
  created :: "string list"

datatype outcome = Done | Raised

definition initialDrawer :: drawer where
  "initialDrawer = \<lparr>rows = [], drawerVisible = False, loading = False, errors = [], sent = [], created = []\<rparr>"

definition defaultWhiteList :: jstr where
  "defaultWhiteList = units ''80/tcp,443/tcp,443/udp''"

definition newItem :: WhiteListItem where
  "newItem = (let r = \<lparr>family = units ''ipv4'', protocol = units ''tcp'', port = []\<rparr>
     in \<lparr>rule = r, oldRule = r, editing = True, isNew = True\<rparr>)"

definition msgError :: "string \<Rightarrow> drawer \<Rightarrow> drawer" where
  "msgError m d = d\<lparr>errors := errors d @ [m]\<rparr>"

text \<open>Opening the drawer, and the answer of the request for the setting: \<open>None\<close> where it fails; the setting
  may be missing in it.\<close>

definition acceptParams :: "drawer \<Rightarrow> drawer" where
  "acceptParams d = d\<lparr>drawerVisible := True, loading := True\<rparr>"

definition acceptAnswer :: "jstr option option \<Rightarrow> drawer \<Rightarrow> outcome \<times> drawer" where
  "acceptAnswer answer d =
     (let d = d\<lparr>loading := False\<rparr>
      in case answer of
           None \<Rightarrow> (Raised, d)
         | Some setting \<Rightarrow>
             (case parseWhiteList (Some (case setting of None \<Rightarrow> defaultWhiteList | Some t \<Rightarrow> t)) of
                None \<Rightarrow> (Raised, d)
              | Some rules \<Rightarrow>
                  (Done, d\<lparr>rows := map (\<lambda>r. \<lparr>rule = r, oldRule = r, editing = False, isNew = False\<rparr>) rules\<rparr>)))"

definition openCreate :: "drawer \<Rightarrow> drawer" where
  "openCreate d =
     (if list_ex (\<lambda>item. isNew item \<and> port (rule item) = []) (rows d) then d else d\<lparr>rows := newItem # rows d\<rparr>)"

definition editRow :: "nat \<Rightarrow> drawer \<Rightarrow> drawer" where
  "editRow i d = d\<lparr>rows := (rows d)[i := (rows d ! i)\<lparr>oldRule := rule (rows d ! i), editing := True\<rparr>]\<rparr>"

definition validateRule :: "WhiteListRule \<Rightarrow> drawer \<Rightarrow> WhiteListRule option \<times> drawer" where
  "validateRule r d =
     (case normalizeWhiteListRule r of
        Some n \<Rightarrow> (Some n, d)
      | None \<Rightarrow> (None, msgError ''firewall.portFormatError'' d))"

text \<open>\<open>some\<close> over the other rows stops at the first duplicate; the key of a row that has no normal form
  raises.\<close>

fun hasDuplicate :: "jstr \<Rightarrow> WhiteListItem list \<Rightarrow> bool option" where
  "hasDuplicate key [] = Some False"
| "hasDuplicate key (item # items) =
     (if port (rule item) = [] then hasDuplicate key items
      else case whiteListRuleKey (rule item) of
             None \<Rightarrow> None
           | Some k \<Rightarrow> if key = k then Some True else hasDuplicate key items)"

definition others :: "nat \<Rightarrow> WhiteListItem list \<Rightarrow> WhiteListItem list" where
  "others i items = take i items @ drop (Suc i) items"

definition saveRow :: "nat \<Rightarrow> drawer \<Rightarrow> outcome \<times> drawer" where
  "saveRow i d =
     (case validateRule (rule (rows d ! i)) d of
        (None, d) \<Rightarrow> (Done, d)
      | (Some r, d) \<Rightarrow>
          (case whiteListRuleKey r of
             None \<Rightarrow> (Raised, d)
           | Some key \<Rightarrow>
               (case hasDuplicate key (others i (rows d)) of
                  None \<Rightarrow> (Raised, d)
                | Some True \<Rightarrow> (Done, msgError ''commons.rule.duplicate'' d)
                | Some False \<Rightarrow>
                    (Done, d\<lparr>rows := (rows d)[i := \<lparr>rule = r, oldRule = r, editing = False, isNew = False\<rparr>]\<rparr>))))"

definition removeRow :: "nat \<Rightarrow> drawer \<Rightarrow> drawer" where
  "removeRow i d = d\<lparr>rows := others i (rows d)\<rparr>"

definition cancelEdit :: "nat \<Rightarrow> drawer \<Rightarrow> drawer" where
  "cancelEdit i d =
     (let row = rows d ! i
      in if isNew row then d\<lparr>rows := others i (rows d)\<rparr>
         else d\<lparr>rows := (rows d)[i := row\<lparr>rule := oldRule row, editing := False\<rparr>]\<rparr>)"

text \<open>The fields of a row being edited write its rule, with any text the user enters.\<close>

definition typeRule :: "nat \<Rightarrow> WhiteListRule \<Rightarrow> drawer \<Rightarrow> drawer" where
  "typeRule i r d = d\<lparr>rows := (rows d)[i := (rows d ! i)\<lparr>rule := r\<rparr>]\<rparr>"

fun validateRules :: "WhiteListItem list \<Rightarrow> WhiteListRule list \<Rightarrow> drawer \<Rightarrow> WhiteListRule list option \<times> drawer" where
  "validateRules [] rules d = (Some rules, d)"
| "validateRules (item # items) rules d =
     (if port (rule item) = [] then validateRules items rules d
      else case validateRule (rule item) d of
        (None, d) \<Rightarrow> (None, d)
      | (Some r, d) \<Rightarrow>
          if list_ex (\<lambda>existing. whiteListRuleKey existing = whiteListRuleKey r) rules
          then (None, msgError ''commons.rule.duplicate'' d)
          else validateRules items (rules @ [r]) d)"

text \<open>Submitting up to the request, and what follows its answer.\<close>

definition onSubmit :: "drawer \<Rightarrow> drawer" where
  "onSubmit d =
     (case validateRules (rows d) [] d of
        (None, d) \<Rightarrow> d
      | (Some rules, d) \<Rightarrow>
          if loading d then d
          else case serializeWhiteList rules of
            None \<Rightarrow> d
          | Some t \<Rightarrow> d\<lparr>loading := True, sent := sent d @ [t]\<rparr>)"

definition onSubmitAnswer :: "(string \<times> bool) option \<Rightarrow> drawer \<Rightarrow> outcome \<times> drawer" where
  "onSubmitAnswer answer d =
     (case answer of
        None \<Rightarrow> (Raised, d\<lparr>loading := False\<rparr>)
      | Some (taskID, queued) \<Rightarrow>
          (Done, if taskID = [] \<or> \<not> queued then d\<lparr>loading := False\<rparr>
                 else d\<lparr>loading := False, drawerVisible := False, created := created d @ [taskID]\<rparr>))"

definition handleClose :: "drawer \<Rightarrow> drawer" where
  "handleClose d = d\<lparr>drawerVisible := False\<rparr>"

text \<open>What the user and the answers can do: which buttons a row has depends on whether it is edited.\<close>

inductive drawer_step :: "drawer \<Rightarrow> drawer \<Rightarrow> bool" where
  step_open: "drawer_step d (acceptParams d)"
| step_accept: "drawer_step d (snd (acceptAnswer answer d))"
| step_create: "drawer_step d (openCreate d)"
| step_edit: "i < length (rows d) \<Longrightarrow> \<not> editing (rows d ! i) \<Longrightarrow> drawer_step d (editRow i d)"
| step_remove: "i < length (rows d) \<Longrightarrow> \<not> editing (rows d ! i) \<Longrightarrow> drawer_step d (removeRow i d)"
| step_save: "i < length (rows d) \<Longrightarrow> editing (rows d ! i) \<Longrightarrow> drawer_step d (snd (saveRow i d))"
| step_cancel: "i < length (rows d) \<Longrightarrow> editing (rows d ! i) \<Longrightarrow> drawer_step d (cancelEdit i d)"
| step_type: "i < length (rows d) \<Longrightarrow> editing (rows d ! i) \<Longrightarrow> drawer_step d (typeRule i r d)"
| step_submit: "drawer_step d (onSubmit d)"
| step_answer: "drawer_step d (snd (onSubmitAnswer response d))"
| step_close: "drawer_step d (handleClose d)"

inductive drawer_reachable :: "drawer \<Rightarrow> bool" where
  drawer_start: "drawer_reachable initialDrawer"
| drawer_next: "drawer_reachable d \<Longrightarrow> drawer_step d d' \<Longrightarrow> drawer_reachable d'"



section \<open>Normal forms\<close>

definition normal :: "WhiteListRule \<Rightarrow> bool" where
  "normal r \<longleftrightarrow> normalizeWhiteListRule r = Some r"

lemma lowerU_idem: "map lowerU (map lowerU s) = map lowerU s"
  by (simp add: lowerU_def)

lemma normalize_normal:
  assumes "normalizeWhiteListRule r = Some n"
  shows "normal n"
proof -
  from assms obtain p where n: "n = \<lparr>family = map lowerU (family r), protocol = map lowerU (protocol r), port = p\<rparr>"
      "normalizePortRange (port r) = Some p"
      "map lowerU (family r) \<in> {units ''ipv4'', units ''ipv6''}" "map lowerU (protocol r) \<in> {units ''tcp'', units ''udp''}"
    by (auto simp: normalizeWhiteListRule_def Let_def split: if_splits)
  from n(2) have "normalizePortRange p = Some p" by (rule normalize_result) (simp add: normalize_range)
  then show ?thesis using n(1,3,4) by (simp only: normal_def normalizeWhiteListRule_def WhiteListRule.select_convs lowerU_idem Let_def) simp
qed

lemma normal_key: "normal r \<Longrightarrow> whiteListRuleKey r = Some (family r @ 47 # protocol r @ 47 # port r)"
  by (simp add: normal_def whiteListRuleKey_def)

lemma normal_words:
  assumes "normal r"
  shows "family r \<in> {units ''ipv4'', units ''ipv6''}" "protocol r \<in> {units ''tcp'', units ''udp''}"
    "\<exists>a b. validPorts a b \<and> port r = rangeText a b"
proof -
  have n: "normalizeWhiteListRule r = Some r" using assms by (simp add: normal_def)
  let ?f = "map lowerU (family r)" and ?p = "map lowerU (protocol r)"
  have w: "?f \<in> {units ''ipv4'', units ''ipv6''} \<and> ?p \<in> {units ''tcp'', units ''udp''}"
    using n by (simp add: normalizeWhiteListRule_def Let_def split: if_splits)
  then obtain q where q: "normalizePortRange (port r) = Some q" "r = \<lparr>family = ?f, protocol = ?p, port = q\<rparr>"
    using n by (auto simp: normalizeWhiteListRule_def Let_def simp del: map_map)
  from q(2) have f: "family r = ?f" "protocol r = ?p" "port r = q" by (metis WhiteListRule.select_convs)+
  show "family r \<in> {units ''ipv4'', units ''ipv6''}" using w f(1) by metis
  show "protocol r \<in> {units ''tcp'', units ''udp''}" using w f(2) by metis
  show "\<exists>a b. validPorts a b \<and> port r = rangeText a b" using q(1) f(3) normalize_result by metis
qed

text \<open>The units of the texts in a rule in normal form.\<close>

definition plainUnit :: "nat \<Rightarrow> bool" where
  "plainUnit c \<longleftrightarrow> 97 \<le> c \<and> c \<le> 122 \<or> isDigitU c \<or> c = 45"

lemma rangeText_plain: "c \<in> set (rangeText a b) \<Longrightarrow> plainUnit c"
  using decUnits_digit by (auto simp: rangeText_def plainUnit_def split: if_splits)

lemma normal_plain:
  assumes "normal r"
  shows "\<forall>c \<in> set (family r) \<union> set (protocol r) \<union> set (port r). plainUnit c"
proof -
  have "list_all plainUnit (units w)" if "w \<in> {''ipv4'', ''ipv6'', ''tcp'', ''udp''}" for w
    using that by (elim insertE emptyE; simp add: units_def plainUnit_def isDigitU_def)
  then have word: "list_all plainUnit (units ''ipv4'')" "list_all plainUnit (units ''ipv6'')"
    "list_all plainUnit (units ''tcp'')" "list_all plainUnit (units ''udp'')" by simp_all
  have "list_all plainUnit (family r)" using normal_words(1) [OF assms] word(1,2) by (elim insertE emptyE) simp_all
  moreover have "list_all plainUnit (protocol r)" using normal_words(2) [OF assms] word(3,4) by (elim insertE emptyE) simp_all
  moreover have "list_all plainUnit (port r)" using normal_words(3) [OF assms] rangeText_plain by (auto simp: list_all_iff)
  ultimately show ?thesis by (auto simp: list_all_iff)
qed

lemma normal_no:
  assumes "normal r" "\<not> plainUnit c"
  shows "c \<notin> set (family r)" "c \<notin> set (protocol r)" "c \<notin> set (port r)"
  using assms normal_plain by blast+

lemma key_inj:
  assumes "normal r" "normal s" "whiteListRuleKey r = whiteListRuleKey s"
  shows "r = s"
proof -
  have no: "47 \<notin> set (family x)" "47 \<notin> set (protocol x)" "47 \<notin> set (port x)" if "normal x" for x
    using normal_no [OF that, of 47] by (simp_all add: plainUnit_def isDigitU_def)
  have split: "splitOn 47 (family x @ 47 # protocol x @ 47 # port x) = [family x, protocol x, port x]" if "normal x" for x
    using splitOn_join [of "[family x, protocol x, port x]" 47] no [OF that] by simp
  have "family r @ 47 # protocol r @ 47 # port r = family s @ 47 # protocol s @ 47 # port s"
    using assms by (simp add: normal_key)
  then show ?thesis using split [OF assms(1)] split [OF assms(2)] by (metis WhiteListRule.surjective list.inject old.unit.exhaust)
qed



section \<open>Written and read back\<close>

lemma parseStr_plain: "\<forall>c \<in> set s. c \<noteq> 34 \<and> c \<noteq> 92 \<and> 32 \<le> c \<Longrightarrow> parseStr (s @ 34 # r) = Some (s, r)"
  by (induction s) auto

lemma parseStr_quoted:
  "list_all plainUnit s \<Longrightarrow> parseStr (s @ 34 # r) = Some (s, r)"
  by (rule parseStr_plain) (auto simp: list_all_iff plainUnit_def isDigitU_def)

lemma parseVal_quoted: "list_all plainUnit s \<Longrightarrow> parseVal (quoted s @ r) = Some (JStr s, r)"
  by (subst parseVal.simps) (simp add: quoted_def isWs_def parseStr_quoted)

lemma parseMembers_text:
  assumes "list_all plainUnit (units k)" "list_all plainUnit v"
  shows "parseMembers (quoted (units k) @ 58 # quoted v @ 125 # r) = Some ([(units k, JStr v)], r)"
    "parseMembers (quoted (units k) @ 58 # quoted v @ 44 # r) =
       map_option (\<lambda>(ms, r2). ((units k, JStr v) # ms, r2)) (parseMembers r)"
proof -
  have "parseStr (units k @ 34 # 58 # x) = Some (units k, 58 # x)" for x using assms(1) by (rule parseStr_quoted)
  moreover have "parseVal (34 # v @ 34 # x) = Some (JStr v, x)" for x using parseVal_quoted [OF assms(2), of x] by (simp add: quoted_def)
  ultimately show "parseMembers (quoted (units k) @ 58 # quoted v @ 125 # r) = Some ([(units k, JStr v)], r)"
    "parseMembers (quoted (units k) @ 58 # quoted v @ 44 # r) =
       map_option (\<lambda>(ms, r2). ((units k, JStr v) # ms, r2)) (parseMembers r)"
    by (subst parseMembers.simps, simp add: quoted_def isWs_def)+
qed

definition ruleJson :: "WhiteListRule \<Rightarrow> json" where
  "ruleJson r = JObj [(units ''family'', JStr (family r)), (units ''protocol'', JStr (protocol r)), (units ''port'', JStr (port r))]"

lemma parseVal_rule:
  assumes "normal r"
  shows "parseVal (ruleText r @ x) = Some (ruleJson r, x)"
proof -
  have v: "list_all plainUnit (family r)" "list_all plainUnit (protocol r)" "list_all plainUnit (port r)"
    using normal_plain [OF assms] by (auto simp: list_all_iff)
  have k: "list_all plainUnit (units ''family'')" "list_all plainUnit (units ''protocol'')" "list_all plainUnit (units ''port'')"
    by (simp_all add: units_def plainUnit_def)
  have "parseMembers (quoted (units ''family'') @ 58 # quoted (family r) @ 44 # quoted (units ''protocol'') @ 58 # quoted (protocol r) @
      44 # quoted (units ''port'') @ 58 # quoted (port r) @ 125 # x) =
    Some ([(units ''family'', JStr (family r)), (units ''protocol'', JStr (protocol r)), (units ''port'', JStr (port r))], x)"
    by (simp add: parseMembers_text k v)
  then show ?thesis
    by (subst parseVal.simps) (simp add: ruleText_def ruleJson_def isWs_def quoted_def)
qed

lemma parseElems_rules:
  "rs \<noteq> [] \<Longrightarrow> list_all normal rs \<Longrightarrow> parseElems (joinWith [44] (map ruleText rs) @ 93 # x) = Some (map ruleJson rs, x)"
proof (induction rs)
  case (Cons r rs)
  then have r: "normal r" "list_all normal rs" by simp_all
  show ?case
  proof (cases rs)
    case Nil
    then show ?thesis by (subst parseElems.simps) (simp add: parseVal_rule r(1) isWs_def)
  next
    case (Cons r' rs')
    then have "parseElems (joinWith [44] (map ruleText rs) @ 93 # x) = Some (map ruleJson rs, x)" using Cons.IH r(2) by simp
    then show ?thesis
      by (subst parseElems.simps) (simp add: Cons parseVal_rule r(1) isWs_def)
  qed
qed simp

lemma JSON_rules: "list_all normal rs \<Longrightarrow> JSON_parse (91 # joinWith [44] (map ruleText rs) @ [93]) = Some (JArr (map ruleJson rs))"
proof (cases rs)
  case (Cons r rs')
  assume n: "list_all normal rs"
  obtain y where y: "joinWith [44] (map ruleText rs) @ [93] = 123 # y" by (cases rs') (auto simp: Cons ruleText_def)
  have "parseElems (123 # y) = Some (map ruleJson rs, [])" using parseElems_rules [of rs "[]"] n Cons y by simp
  then show ?thesis unfolding JSON_parse_def y by (subst parseVal.simps) (simp add: isWs_def)
qed (simp add: JSON_parse_def parseVal.simps isWs_def)

lemma readRule_json: "readRule (ruleJson r) = Some r"
  by (simp add: readRule_def ruleJson_def textMember_def units_def)

lemma collect_normal:
  assumes "list_all normal rs"
  shows "collectRules (map Some rs) seen =
    Some (dedupBy (\<lambda>x. x) {r. normal r \<and> the (whiteListRuleKey r) \<in> seen} rs)"
  using assms
proof (induction rs arbitrary: seen)
  case (Cons r rs)
  then have n: "normal r" "list_all normal rs" by simp_all
  have "{s. normal s \<and> the (whiteListRuleKey s) \<in> insert (the (whiteListRuleKey r)) seen} =
      insert r {s. normal s \<and> the (whiteListRuleKey s) \<in> seen}"
    using key_inj [of _ r] n(1) by (auto simp: normal_key)
  then show ?case using Cons.IH [OF n(2)] n(1) by (auto simp: normal_key normal_def [of r, THEN iffD1])
qed simp

lemma those_normalize: "those (map normalizeWhiteListRule rules) = Some ns \<Longrightarrow> list_all normal ns"
  by (induction rules arbitrary: ns) (auto simp: normalize_normal split: option.splits)

text \<open>Reading a written list: the rules in normal form, each once.\<close>

lemma parse_serialized:
  assumes "list_all normal ns"
  shows "parseWhiteList (Some (91 # joinWith [44] (map ruleText ns) @ [93])) = Some (nub ns)"
proof -
  let ?t = "91 # joinWith [44] (map ruleText ns) @ [93]"
  have "trimU ?t = ?t" by (rule trimU_ends) (simp_all add: isSpaceU_def)
  moreover have "collectRules (map readRule (map ruleJson ns)) {} = Some (nub ns)"
    using collect_normal [OF assms, of "{}"] by (simp add: readRule_json o_def)
  ultimately show ?thesis using JSON_rules [OF assms] by (simp add: parseWhiteList_def)
qed

text \<open>C21. Writing the white list and reading it back gives the rules in normal form, each once, in their
  order; writing fails exactly when a rule has no normal form.\<close>

theorem white_list_roundtrip:
  "Option.bind (serializeWhiteList rules) (\<lambda>t. parseWhiteList (Some t)) =
     map_option nub (those (map normalizeWhiteListRule rules))"
  using parse_serialized those_normalize [of rules]
  by (cases "those (map normalizeWhiteListRule rules)") (simp_all add: serializeWhiteList_def)


section \<open>Editing\<close>

lemma normal_reserialize: "list_all normal rs \<Longrightarrow> those (map normalizeWhiteListRule rs) = Some rs"
  by (induction rs) (auto simp: normal_def)

lemma collect_result: "collectRules items seen = Some rs \<Longrightarrow> list_all normal rs"
  by (induction items seen arbitrary: rs rule: collectRules.induct)
    (auto simp: normalize_normal split: option.splits if_splits elim!: bind_eq_Some_conv [THEN iffD1, elim_format])

lemma parse_result: "parseWhiteList v = Some rs \<Longrightarrow> list_all normal rs"
  by (auto simp: parseWhiteList_def Let_def collect_result split: if_splits option.splits json.splits)

definition wellItem :: "WhiteListItem \<Rightarrow> bool" where
  "wellItem it \<longleftrightarrow> (isNew it \<or> normal (oldRule it)) \<and> (editing it \<or> normal (rule it) \<and> \<not> isNew it)"

definition wellSent :: "jstr \<Rightarrow> bool" where
  "wellSent t \<longleftrightarrow> (\<exists>rs. distinct rs \<and> list_all normal rs \<and> serializeWhiteList rs = Some t \<and> parseWhiteList (Some t) = Some rs)"

definition wellDrawer :: "drawer \<Rightarrow> bool" where
  "wellDrawer d \<longleftrightarrow> list_all wellItem (rows d) \<and> list_all wellSent (sent d)"

lemma validateRules_state: "sent (snd (validateRules items rules d)) = sent d \<and> rows (snd (validateRules items rules d)) = rows d \<and>
    loading (snd (validateRules items rules d)) = loading d"
  by (induction items rules d rule: validateRules.induct)
    (auto simp: validateRule_def msgError_def split: option.splits)

lemma validateRules_rules:
  "validateRules items rules d = (Some out, d') \<Longrightarrow> distinct rules \<Longrightarrow> list_all normal rules \<Longrightarrow>
   distinct out \<and> list_all normal out"
proof (induction items rules d arbitrary: out d' rule: validateRules.induct)
  case (2 item items rules d)
  show ?case
  proof (cases "port (rule item) = []")
    case False
    with 2(3) obtain r where r: "normalizeWhiteListRule (rule item) = Some r"
        "\<not> list_ex (\<lambda>x. whiteListRuleKey x = whiteListRuleKey r) rules" "validateRules items (rules @ [r]) d = (Some out, d')"
      by (auto simp: validateRule_def split: option.splits if_splits)
    then have "r \<notin> set rules" "normal r" using normalize_normal by (auto simp: list_ex_iff)
    with 2 r False show ?thesis by (simp add: validateRule_def)
  qed (use 2 in simp)
qed simp

lemma serialized_well:
  assumes "distinct rs" "list_all normal rs" "serializeWhiteList rs = Some t"
  shows "wellSent t"
proof -
  have "t = 91 # joinWith [44] (map ruleText rs) @ [93]" using assms(2,3) by (simp add: serializeWhiteList_def normal_reserialize)
  then have "parseWhiteList (Some t) = Some (nub rs)" using parse_serialized [OF assms(2)] by simp
  moreover have "nub rs = rs" using assms(1) by (intro dedupBy_id) auto
  ultimately show ?thesis using assms by (auto simp: wellSent_def)
qed

lemma submit_well: "wellDrawer d \<Longrightarrow> wellDrawer (onSubmit d)"
proof -
  assume w: "wellDrawer d"
  obtain res d' where v: "validateRules (rows d) [] d = (res, d')" by force
  then have d': "sent d' = sent d" "rows d' = rows d" using validateRules_state [of "rows d" "[]" d] by simp_all
  show ?thesis
  proof (cases res)
    case None
    then show ?thesis using w d' v by (simp add: onSubmit_def wellDrawer_def)
  next
    case (Some rs)
    then have "distinct rs" "list_all normal rs" using validateRules_rules [of "rows d" "[]" d rs d'] v by simp_all
    then show ?thesis
      using serialized_well w d' v Some by (auto simp: onSubmit_def wellDrawer_def split: option.splits)
  qed
qed

lemma well_update: "list_all P xs \<Longrightarrow> (i < length xs \<Longrightarrow> P x) \<Longrightarrow> list_all P (xs[i := x])"
  by (cases "i < length xs") (auto simp: list_all_length nth_list_update)

lemma well_others: "list_all P xs \<Longrightarrow> list_all P (others i xs)"
  unfolding others_def list_all_iff using set_take_subset [of i xs] set_drop_subset [of "Suc i" xs] by auto

lemma well_row: "wellDrawer d \<Longrightarrow> i < length (rows d) \<Longrightarrow> wellItem (rows d ! i)"
  by (simp add: wellDrawer_def list_all_length)

lemma save_well: "wellDrawer d \<Longrightarrow> wellDrawer (snd (saveRow i d))"
proof -
  assume w: "wellDrawer d"
  have "wellItem \<lparr>rule = r, oldRule = r, editing = False, isNew = False\<rparr>" if "normalizeWhiteListRule x = Some r" for x r
    using normalize_normal [OF that] by (simp add: wellItem_def)
  then show ?thesis
    using w by (auto simp: saveRow_def validateRule_def msgError_def wellDrawer_def well_update split: option.split bool.split)
qed

lemma drawer_well: "drawer_step d d' \<Longrightarrow> wellDrawer d \<Longrightarrow> wellDrawer d'"
proof (induction rule: drawer_step.induct)
  case (step_accept d answer)
  have "list_all wellItem (map (\<lambda>r. \<lparr>rule = r, oldRule = r, editing = False, isNew = False\<rparr>) rs)" if "parseWhiteList v = Some rs" for v rs
    using parse_result [OF that] by (simp add: list_all_iff wellItem_def)
  with step_accept show ?case by (auto simp: acceptAnswer_def wellDrawer_def Let_def split: option.split)
next
  case (step_edit i d)
  with well_row [of d i] show ?case by (auto simp: editRow_def wellDrawer_def wellItem_def intro!: well_update)
next
  case (step_cancel i d)
  with well_row [of d i] show ?case
    by (auto simp: cancelEdit_def wellDrawer_def wellItem_def Let_def intro!: well_update well_others)
next
  case (step_type i d r)
  with well_row [of d i] show ?case by (auto simp: typeRule_def wellDrawer_def wellItem_def intro!: well_update)
qed (simp_all add: save_well submit_well,
    auto simp: acceptParams_def openCreate_def newItem_def wellItem_def removeRow_def onSubmitAnswer_def handleClose_def
      wellDrawer_def well_others Let_def split: option.split)

lemma reachable_well: "drawer_reachable d \<Longrightarrow> wellDrawer d"
proof (induction rule: drawer_reachable.induct)
  case drawer_start
  then show ?case by (simp add: wellDrawer_def initialDrawer_def)
qed (rule drawer_well)

text \<open>The scan for a duplicate stops at the first row that repeats the rule or has no normal form.\<close>

lemma hasDuplicate_find:
  assumes "normal n" "whiteListRuleKey n = Some key"
  shows "hasDuplicate key items =
    (case find (\<lambda>it. port (rule it) \<noteq> [] \<and> normalizeWhiteListRule (rule it) \<in> {None, Some n}) items of
       None \<Rightarrow> Some False | Some it \<Rightarrow> if normalizeWhiteListRule (rule it) = None then None else Some True)"
proof (induction items)
  case (Cons it items)
  show ?case
  proof (cases "normalizeWhiteListRule (rule it)")
    case None
    then show ?thesis using Cons by (simp add: whiteListRuleKey_def)
  next
    case (Some m)
    then have m: "normal m" "whiteListRuleKey (rule it) = whiteListRuleKey m"
      using normalize_normal by (auto simp: whiteListRuleKey_def normal_def)
    obtain k where k: "whiteListRuleKey m = Some k" using normal_key [OF m(1)] by blast
    then have "key = k \<longleftrightarrow> m = n" using key_inj [OF m(1) assms(1)] assms(2) by auto
    then show ?thesis using Cons.IH Some m(2) k by simp
  qed
qed simp


section \<open>Properties\<close>

text \<open>C29. Saving a row, on every branch: a rule without normal form shows the format error; of the other
  filled rows the first one that repeats the rule or has itself no normal form decides, by the
  duplicate message or by an error that nobody catches; otherwise the row takes the normal form
  and leaves editing.\<close>

theorem saveRow_outcome:
  "saveRow i d =
     (case normalizeWhiteListRule (rule (rows d ! i)) of
        None \<Rightarrow> (Done, d\<lparr>errors := errors d @ [''firewall.portFormatError'']\<rparr>)
      | Some n \<Rightarrow>
          (case find (\<lambda>it. port (rule it) \<noteq> [] \<and> normalizeWhiteListRule (rule it) \<in> {None, Some n})
             (take i (rows d) @ drop (Suc i) (rows d)) of
             None \<Rightarrow> (Done, d\<lparr>rows := (rows d)[i := \<lparr>rule = n, oldRule = n, editing = False, isNew = False\<rparr>]\<rparr>)
           | Some it \<Rightarrow>
               if normalizeWhiteListRule (rule it) = None then (Raised, d)
               else (Done, d\<lparr>errors := errors d @ [''commons.rule.duplicate'']\<rparr>)))"
proof (cases "normalizeWhiteListRule (rule (rows d ! i))")
  case None
  then show ?thesis by (simp add: saveRow_def validateRule_def msgError_def)
next
  case (Some n)
  then have n: "normal n" by (rule normalize_normal)
  show ?thesis
    using hasDuplicate_find [OF n normal_key [OF n]] Some normal_key [OF n]
    by (simp add: saveRow_def validateRule_def msgError_def others_def split: option.split)
qed

text \<open>C9. Whatever the user and the answers do, in any order: a row that is not being edited holds a rule in
  normal form, and every text the drawer sends is the writing of different rules in normal form,
  which reads back as these rules.\<close>

theorem white_list_drawer:
  assumes "drawer_reachable d"
  shows "(\<forall>it \<in> set (rows d). editing it \<or> normalizeWhiteListRule (rule it) = Some (rule it)) \<and>
    (\<forall>t \<in> set (sent d). \<exists>rs. distinct rs \<and> (\<forall>r \<in> set rs. normalizeWhiteListRule r = Some r) \<and>
       serializeWhiteList rs = Some t \<and> parseWhiteList (Some t) = Some rs)"
  using reachable_well [OF assms]
  by (auto simp: wellDrawer_def wellItem_def wellSent_def normal_def list_all_iff)

definition webRule :: WhiteListRule where
  "webRule = \<lparr>family = units ''ipv4'', protocol = units ''tcp'', port = decUnits 80\<rparr>"

definition exampleDrawer :: drawer where
  "exampleDrawer = onSubmit (snd (acceptAnswer (Some (serializeWhiteList [webRule])) (acceptParams initialDrawer)))"

lemma webRule_normal: "normal webRule"
proof -
  have "map lowerU (units ''ipv4'') = units ''ipv4''" "map lowerU (units ''tcp'') = units ''tcp''"
    by (simp_all add: units_def lowerU_def)
  then show ?thesis using normalize_single [of 80] by (simp add: normal_def normalizeWhiteListRule_def webRule_def validPorts_def Let_def)
qed

lemma example_sent: "sent exampleDrawer = [91 # ruleText webRule @ [93]]"
proof -
  have n: "normalizeWhiteListRule webRule = Some webRule" using webRule_normal by (simp add: normal_def)
  then have t: "serializeWhiteList [webRule] = Some (91 # ruleText webRule @ [93])" by (simp add: serializeWhiteList_def)
  moreover have "parseWhiteList (Some (91 # ruleText webRule @ [93])) = Some [webRule]"
    using parse_serialized [of "[webRule]"] webRule_normal by simp
  moreover have "port webRule \<noteq> []" by (simp add: webRule_def)
  ultimately show ?thesis
    by (simp add: exampleDrawer_def acceptAnswer_def acceptParams_def initialDrawer_def onSubmit_def validateRule_def n Let_def)
qed

theorem white_list_drawer_witness:
  "sent exampleDrawer = [91 # ruleText webRule @ [93]] \<and>
   (\<exists>rs. distinct rs \<and> list_all (\<lambda>r. normalizeWhiteListRule r = Some r) rs \<and>
      serializeWhiteList rs = Some (91 # ruleText webRule @ [93]) \<and> parseWhiteList (Some (91 # ruleText webRule @ [93])) = Some rs)"
proof -
  have "drawer_reachable exampleDrawer"
    unfolding exampleDrawer_def by (meson drawer_start drawer_next step_open step_accept step_submit)
  then show ?thesis using white_list_drawer [of exampleDrawer] by (simp add: example_sent list_all_iff)
qed

end
