(* ===== verification/Docker_Guard.thy ===== *)
theory Docker_Guard
  imports Firewall_Address "HOL-Library.AList"
begin

text \<open>
  The guard of container ports: its policies and messages (\<open>views/host/firewall/docker/model.ts\<close>) and the
  import of policies from a file (\<open>views/host/firewall/docker/import/index.vue\<close>). A policy comes from outside as
  any JSON value; the text of a number is a parameter. The theorems say what an accepted policy is,
  that accepting it again changes nothing, and which policies an import keeps.
\<close>

section \<open>Values\<close>

datatype jsval = VUndef | VNull | VBool bool | VNum jsnum | VStr jstr | VArr "jsval list" | VObj "(jstr \<times> jsval) list"

text \<open>\<open>String (v)\<close>: an array is its elements joined by commas, null and undefined elements being empty.\<close>

fun stringOf :: "(jsnum \<Rightarrow> jstr) \<Rightarrow> jsval \<Rightarrow> jstr" where
  "stringOf nt VUndef = units ''undefined''"
| "stringOf nt VNull = units ''null''"
| "stringOf nt (VBool b) = units (if b then ''true'' else ''false'')"
| "stringOf nt (VNum x) = nt x"
| "stringOf nt (VStr s) = s"
| "stringOf nt (VArr vs) = joinWith [44] (map (\<lambda>v. if v = VUndef \<or> v = VNull then [] else stringOf nt v) vs)"
| "stringOf nt (VObj ms) = units ''[object Object]''"

definition field :: "jsval \<Rightarrow> string \<Rightarrow> jsval" where
  "field v k = (case v of VObj ms \<Rightarrow> (case map_of ms (units k) of None \<Rightarrow> VUndef | Some x \<Rightarrow> x) | _ \<Rightarrow> VUndef)"

definition isInteger :: "jsnum \<Rightarrow> bool" where
  "isInteger x = (case x of Fin q \<Rightarrow> snd (quotient_of q) = 1 | _ \<Rightarrow> False)"

fun textOf :: "jsval \<Rightarrow> jstr option" where
  "textOf (VStr s) = Some s"
| "textOf v = None"


section \<open>Policies\<close>

record DockerGuardPolicy =
  family :: jsval
  hostIP :: jstr
  hostPort :: jsnum
  protocol :: jsval
  mode :: jsval
  sources :: "jstr list"
  description :: jstr

text \<open>The typed check of an address at a family that may be any value: it compares strictly.\<close>

definition addressFor :: "jsval \<Rightarrow> jstr \<Rightarrow> bool \<Rightarrow> bool" where
  "addressFor fam value allowCIDR =
     (if fam = VStr (units ''ipv4'') then isValidAddressForFamily Ipv4 value allowCIDR
      else if fam = VStr (units ''ipv6'') then isValidAddressForFamily Ipv6 value allowCIDR
      else False)"

definition isValidDockerGuardSource :: "jsval \<Rightarrow> jstr \<Rightarrow> bool" where
  "isValidDockerGuardSource fam value = addressFor fam value True"

text \<open>The parts of a policy that are checked one after the other: address and port, sources, description.\<close>

definition policyHost :: "jsval \<Rightarrow> jsval \<Rightarrow> jsval \<Rightarrow> (jstr \<times> jsnum) option" where
  "policyHost fam ip prt =
     (case ip of
        VStr a \<Rightarrow>
          (case prt of
             VNum n \<Rightarrow>
               if \<not> isInteger n then None
               else if \<not> (leNum (Fin 1) n \<and> leNum n (Fin 65535)) then None
               else if \<not> addressFor fam a False then None
               else Some (a, n)
           | _ \<Rightarrow> None)
      | _ \<Rightarrow> None)"

definition policySources :: "jsval \<Rightarrow> jsval \<Rightarrow> jsval \<Rightarrow> jstr list option" where
  "policySources fam md v =
     (case v of
        VArr vs \<Rightarrow>
          (case those (map textOf vs) of
             None \<Rightarrow> None
           | Some texts \<Rightarrow>
               (let srcs = filter (\<lambda>s. s \<noteq> []) (map trimU texts)
                in if md \<noteq> VStr (units ''deny_all'') \<and> srcs = [] then None
                   else if md \<noteq> VStr (units ''deny_all'') \<and> \<not> list_all (isValidDockerGuardSource fam) srcs then None
                   else Some (if md = VStr (units ''deny_all'') then [] else nub srcs)))
      | _ \<Rightarrow> None)"

definition policyDescription :: "jsval \<Rightarrow> jstr option" where
  "policyDescription v = (case v of VUndef \<Rightarrow> Some [] | VStr t \<Rightarrow> Some (trimU t) | _ \<Rightarrow> None)"

definition policyWords :: "(jsnum \<Rightarrow> jstr) \<Rightarrow> jsval \<Rightarrow> jsval \<Rightarrow> jsval \<Rightarrow> bool" where
  "policyWords nt fam prot md \<longleftrightarrow>
     stringOf nt fam \<in> {units ''ipv4'', units ''ipv6''} \<and> stringOf nt prot \<in> {units ''tcp'', units ''udp''} \<and>
     stringOf nt md \<in> {units ''deny_sources'', units ''allow_sources'', units ''deny_all''}"

definition normalizeDockerGuardPolicy :: "(jsnum \<Rightarrow> jstr) \<Rightarrow> jsval \<Rightarrow> DockerGuardPolicy option" where
  "normalizeDockerGuardPolicy nt value =
     (let fam = field value ''family''; prot = field value ''protocol''; md = field value ''mode''
      in if (case value of VObj ms \<Rightarrow> False | VArr vs \<Rightarrow> False | _ \<Rightarrow> True) then None
         else if \<not> policyWords nt fam prot md then None
         else
           Option.bind (policyHost fam (field value ''hostIP'') (field value ''hostPort'')) (\<lambda>(ip, prt).
           Option.bind (policySources fam md (field value ''sources'')) (\<lambda>srcs.
           Option.bind (policyDescription (field value ''description'')) (\<lambda>desc.
             Some \<lparr>family = fam, hostIP = ip, hostPort = prt, protocol = prot, mode = md, sources = srcs, description = desc\<rparr>))))"

definition dockerGuardEndpointKey :: "(jsnum \<Rightarrow> jstr) \<Rightarrow> DockerGuardPolicy \<Rightarrow> jstr" where
  "dockerGuardEndpointKey nt p =
     joinWith [124] [stringOf nt (family p), hostIP p, nt (hostPort p), stringOf nt (protocol p)]"


section \<open>Endpoints\<close>

text \<open>What the messages read of an endpoint and of the state of the guard. A message is its key with
  its arguments; a missing text and an empty one are alike.\<close>

record DockerGuardEndpoint =
  efamily :: FirewallAddressFamily
  containerState :: string
  policyUUID :: string
  effective :: bool
  trafficPath :: string
  managementTarget :: string
  managementReason :: string

record DockerGuardFamilyStatus =
  reason :: string
  initialized :: bool
  bound :: bool

record DockerGuardBase =
  ipv4 :: DockerGuardFamilyStatus
  ipv6 :: DockerGuardFamilyStatus
  backend :: string

datatype message = T string "message list" | Lit string

definition isDockerGuardRuntimeEndpoint :: "DockerGuardEndpoint \<Rightarrow> bool" where
  "isDockerGuardRuntimeEndpoint e =
     (containerState e = [] \<or> containerState e \<in> {''running'', ''paused'', ''restarting''})"

definition dockerGuardManagementTarget :: "DockerGuardEndpoint \<Rightarrow> string" where
  "dockerGuardManagementTarget e =
     (if managementTarget e \<noteq> [] then managementTarget e
      else if trafficPath e = ''forward'' then ''container_guard''
      else if trafficPath e = ''input'' then ''host_firewall''
      else ''needs_diagnosis'')"

definition dockerGuardEndpointManagementMessage :: "DockerGuardEndpoint \<Rightarrow> message" where
  "dockerGuardEndpointManagementMessage e =
     (if managementReason e \<noteq> [] then T (''firewall.dockerTrafficPathReason.'' @ managementReason e) []
      else T ''firewall.dockerTrafficPathUnknown'' [])"

definition dockerGuardFamilyStatusMessage :: "DockerGuardBase \<Rightarrow> string \<Rightarrow> DockerGuardFamilyStatus \<Rightarrow> message" where
  "dockerGuardFamilyStatusMessage base fam st =
     (if reason st \<noteq> [] then T (''firewall.dockerGuardStatusReason.'' @ reason st) [Lit fam]
      else
        (let state = T (if \<not> initialized st then ''firewall.notInitialized''
                        else if \<not> bound st then ''commons.status.unbind'' else ''firewall.notEffective'') [];
             chainName = (if backend base = ''nftables'' then ''NFT_1PANEL_DOCKER'' else ''1PANEL_DOCKER'')
         in T ''firewall.familyChainIssue'' [Lit fam, Lit chainName, state]))"

definition dockerGuardEndpointStatusMessage :: "DockerGuardBase \<Rightarrow> DockerGuardEndpoint \<Rightarrow> message option" where
  "dockerGuardEndpointStatusMessage base e =
     (if policyUUID e = [] \<or> effective e then None
      else
        (let target = dockerGuardManagementTarget e
         in if target = ''host_firewall'' then Some (T ''firewall.dockerInputPolicyNotEffective'' [])
            else if target = ''needs_diagnosis'' then Some (dockerGuardEndpointManagementMessage e)
            else
              (let v6 = (efamily e = Ipv6)
               in Some (dockerGuardFamilyStatusMessage base (if v6 then ''IPv6'' else ''IPv4'') (if v6 then ipv6 base else ipv4 base)))))"


section \<open>Import\<close>

record import_state =
  visible :: bool
  loading :: bool
  policies :: "DockerGuardPolicy list"
  selects :: "DockerGuardPolicy list"
  submitError :: string
  errors :: "string list"
  submitted :: "DockerGuardPolicy list list"
  tasks :: "string list"

definition acceptParams :: "import_state \<Rightarrow> import_state" where
  "acceptParams d = d\<lparr>loading := False, policies := [], selects := [], submitError := [], visible := True\<rparr>"

text \<open>A file is chosen: up to its reading, and the parsed text, \<open>None\<close> where \<open>JSON.parse\<close> raises.\<close>

definition fileOnChange :: "bool \<Rightarrow> import_state \<Rightarrow> import_state" where
  "fileOnChange hasRaw d =
     (if \<not> hasRaw then d else d\<lparr>loading := True, policies := [], selects := [], submitError := []\<rparr>)"

definition byEndpoint :: "(jsnum \<Rightarrow> jstr) \<Rightarrow> DockerGuardPolicy list \<Rightarrow> (jstr \<times> DockerGuardPolicy) list" where
  "byEndpoint nt ps = fold (\<lambda>p m. AList.update (dockerGuardEndpointKey nt p) p m) ps []"

definition onload :: "(jsnum \<Rightarrow> jstr) \<Rightarrow> jsval option \<Rightarrow> import_state \<Rightarrow> import_state" where
  "onload nt parsed d =
     (let failed = d\<lparr>policies := [], selects := [], errors := errors d @ [''commons.msg.errImportFormat''], loading := False\<rparr>
      in case parsed of
           Some (VArr vs) \<Rightarrow>
             (case those (map (normalizeDockerGuardPolicy nt) vs) of
                None \<Rightarrow> failed
              | Some normalized \<Rightarrow>
                  (let ps = map snd (byEndpoint nt normalized)
                   in d\<lparr>policies := ps, selects := ps, loading := False\<rparr>))
         | _ \<Rightarrow> failed)"

text \<open>The rows ticked in the table.\<close>

definition selectRows :: "DockerGuardPolicy list \<Rightarrow> import_state \<Rightarrow> import_state" where
  "selectRows ps d = d\<lparr>selects := ps\<rparr>"

definition onImport :: "import_state \<Rightarrow> import_state" where
  "onImport d =
     (if loading d \<or> selects d = [] then d
      else d\<lparr>loading := True, submitError := [], submitted := submitted d @ [selects d]\<rparr>)"

text \<open>The answer: a task, or the text of the error that the request ended with.\<close>

definition onImportAnswer :: "string + string \<times> bool \<Rightarrow> import_state \<Rightarrow> import_state" where
  "onImportAnswer answer d =
     (case answer of
        Inl err \<Rightarrow> d\<lparr>submitError := err, loading := False\<rparr>
      | Inr (taskID, queued) \<Rightarrow>
          if taskID = [] \<or> \<not> queued then d\<lparr>submitError := ''commons.msg.operationFailed'', loading := False\<rparr>
          else d\<lparr>visible := False, tasks := tasks d @ [taskID], loading := False\<rparr>)"



section \<open>What an accepted policy is\<close>

text \<open>The value that a policy is written to a file as.\<close>

definition policyValue :: "DockerGuardPolicy \<Rightarrow> jsval" where
  "policyValue p = VObj [(units ''family'', family p), (units ''hostIP'', VStr (hostIP p)), (units ''hostPort'', VNum (hostPort p)),
     (units ''protocol'', protocol p), (units ''mode'', mode p), (units ''sources'', VArr (map VStr (sources p))),
     (units ''description'', VStr (description p))]"

definition denyAll :: "DockerGuardPolicy \<Rightarrow> bool" where
  "denyAll p \<longleftrightarrow> mode p = VStr (units ''deny_all'')"

definition soundSources :: "jsval \<Rightarrow> jsval \<Rightarrow> jstr list \<Rightarrow> bool" where
  "soundSources fam md srcs \<longleftrightarrow>
     (if md = VStr (units ''deny_all'') then srcs = []
      else srcs \<noteq> [] \<and> distinct srcs \<and> (\<forall>s \<in> set srcs. s \<noteq> [] \<and> trimU s = s \<and> isValidDockerGuardSource fam s))"

lemma nub_keep: "distinct xs \<Longrightarrow> nub xs = xs"
  by (rule dedupBy_id) auto

lemma those_texts: "those (map textOf (map VStr ss)) = Some ss"
  by (induction ss) auto

lemma trimU_Nil: "trimU [] = []"
  by (simp add: trimU_def)

lemma trimmed_sources: "\<forall>s \<in> set ss. s \<noteq> [] \<and> trimU s = s \<Longrightarrow> filter (\<lambda>s. s \<noteq> []) (map trimU ss) = ss"
  by (induction ss) auto

lemma sources_sound: "policySources fam md v = Some srcs \<Longrightarrow> soundSources fam md srcs"
proof -
  assume p: "policySources fam md v = Some srcs"
  then obtain vs ts where v: "v = VArr vs" "those (map textOf vs) = Some ts"
    by (auto simp: policySources_def split: jsval.splits option.splits)
  let ?ss = "filter (\<lambda>s. s \<noteq> []) (map trimU ts)"
  have t: "\<forall>s \<in> set ?ss. s \<noteq> [] \<and> trimU s = s" by (auto simp: trimU_idem)
  show ?thesis
  proof (cases "md = VStr (units ''deny_all'')")
    case True
    then show ?thesis using p v by (simp add: policySources_def soundSources_def Let_def split: if_splits)
  next
    case False
    then have s: "srcs = nub ?ss" "?ss \<noteq> []" "list_all (isValidDockerGuardSource fam) ?ss"
      using p v by (simp_all add: policySources_def Let_def split: if_splits)
    have "set srcs = set ?ss" "distinct srcs" unfolding s(1) by (rule set_nub, rule distinct_nub)
    with s(2,3) t False show ?thesis unfolding soundSources_def list_all_iff by (metis set_empty)
  qed
qed

lemma sources_fixed: "soundSources fam md srcs \<Longrightarrow> policySources fam md (VArr (map VStr srcs)) = Some srcs"
proof (cases "md = VStr (units ''deny_all'')")
  case False
  assume "soundSources fam md srcs"
  with False have s: "srcs \<noteq> []" "distinct srcs" "\<forall>s \<in> set srcs. s \<noteq> [] \<and> trimU s = s" "list_all (isValidDockerGuardSource fam) srcs"
    by (auto simp: soundSources_def list_all_iff)
  show ?thesis
    using False s(1,4) by (simp only: policySources_def jsval.simps those_texts option.simps Let_def trimmed_sources [OF s(3)] nub_keep [OF s(2)]) simp
qed (simp add: soundSources_def policySources_def)

lemma normalize_parts:
  "normalizeDockerGuardPolicy nt v = Some p \<Longrightarrow>
   policyWords nt (family p) (protocol p) (mode p) \<and>
   policyHost (family p) (VStr (hostIP p)) (VNum (hostPort p)) = Some (hostIP p, hostPort p) \<and>
   soundSources (family p) (mode p) (sources p) \<and> trimU (description p) = description p"
proof -
  assume "normalizeDockerGuardPolicy nt v = Some p"
  then obtain ip prt srcs desc where w: "policyWords nt (field v ''family'') (field v ''protocol'') (field v ''mode'')"
      "policyHost (field v ''family'') (field v ''hostIP'') (field v ''hostPort'') = Some (ip, prt)"
      "policySources (field v ''family'') (field v ''mode'') (field v ''sources'') = Some srcs"
      "policyDescription (field v ''description'') = Some desc"
      "p = \<lparr>family = field v ''family'', hostIP = ip, hostPort = prt, protocol = field v ''protocol'', mode = field v ''mode'',
         sources = srcs, description = desc\<rparr>"
    unfolding normalizeDockerGuardPolicy_def Let_def by (fastforce simp: bind_eq_Some_conv split: if_splits)
  have "policyHost (field v ''family'') (VStr ip) (VNum prt) = Some (ip, prt)"
    using w(2) by (auto simp: policyHost_def split: jsval.splits if_splits)
  moreover have "trimU desc = desc"
    using w(4) by (auto simp: policyDescription_def trimU_idem trimU_Nil split: jsval.splits)
  ultimately show ?thesis using w(1,5) sources_sound [OF w(3)] by simp
qed

lemma policy_fixed:
  assumes "policyWords nt (family p) (protocol p) (mode p)"
    "policyHost (family p) (VStr (hostIP p)) (VNum (hostPort p)) = Some (hostIP p, hostPort p)"
    "soundSources (family p) (mode p) (sources p)" "trimU (description p) = description p"
  shows "normalizeDockerGuardPolicy nt (policyValue p) = Some p"
proof -
  have f: "field (policyValue p) ''family'' = family p" "field (policyValue p) ''protocol'' = protocol p"
    "field (policyValue p) ''mode'' = mode p" "field (policyValue p) ''hostIP'' = VStr (hostIP p)"
    "field (policyValue p) ''hostPort'' = VNum (hostPort p)" "field (policyValue p) ''sources'' = VArr (map VStr (sources p))"
    "field (policyValue p) ''description'' = VStr (description p)"
    by (simp_all add: field_def policyValue_def units_def)
  have "\<not> (case policyValue p of VObj ms \<Rightarrow> False | VArr vs \<Rightarrow> False | _ \<Rightarrow> True)" by (simp add: policyValue_def)
  then show ?thesis
    unfolding normalizeDockerGuardPolicy_def f Let_def using assms sources_fixed by (simp add: policyDescription_def)
qed


lemma port_integer:
  assumes "isInteger x" "leNum (Fin 1) x" "leNum x (Fin 65535)"
  shows "\<exists>n. x = Fin (of_nat n) \<and> 1 \<le> n \<and> n \<le> 65535"
proof -
  obtain q where x: "x = Fin q" "snd (quotient_of q) = 1" using assms(1) by (auto simp: isInteger_def split: jsnum.splits)
  then obtain a :: int where q: "q = of_int a" using quotient_of_div [of q] by (metis div_by_1 of_int_1 prod.collapse)
  then have "1 \<le> a" "a \<le> 65535" using assms(2,3) x(1) by simp_all
  then show ?thesis using q x(1) by (intro exI [of _ "nat a"]) (simp, linarith)
qed

lemma addressFor_plain:
  assumes "addressFor fam ip False"
  shows "fam = VStr (units ''ipv4'') \<and> isValidIPv4Address ip \<or> fam = VStr (units ''ipv6'') \<and> isValidIPv6Address ip"
proof -
  have "validFor g ip" if "isValidAddressForFamily g ip False" for g
  proof -
    have no: "47 \<notin> set ip" "isValidIPOrCIDR ip" "inferAddressFamily (splitOn 47 ip ! 0) = g"
      using that by (auto simp: isValidAddressForFamily_def split: if_splits)
    then show ?thesis using cidr_none [OF no(1)] by simp
  qed
  then show ?thesis using assms by (auto simp: addressFor_def validFor_def split: if_splits)
qed

lemma byEndpoint_keys:
  fixes nt ps
  defines "key \<equiv> dockerGuardEndpointKey nt"
  shows "distinct (map key (map snd (byEndpoint nt ps))) \<and>
    map_of (map (\<lambda>p. (key p, p)) (map snd (byEndpoint nt ps))) = map_of (rev (map (\<lambda>p. (key p, p)) ps))"
proof -
  let ?f = "\<lambda>p m. AList.update (key p) p m"
  have inv: "distinct (map fst (fold ?f ps m)) \<and> (\<forall>(k, p) \<in> set (fold ?f ps m). k = key p) \<and>
      map_of (fold ?f ps m) = map_of m ++ map_of (rev (map (\<lambda>p. (key p, p)) ps))"
    if "distinct (map fst m)" "\<forall>(k, p) \<in> set m. k = key p" for m
    using that
  proof (induction ps arbitrary: m)
    case (Cons p ps)
    have "set (AList.update (key p) p m) \<subseteq> insert (key p, p) (set m)" by (induction m) auto
    with Cons.prems have "distinct (map fst (?f p m))" "\<forall>(k, q) \<in> set (?f p m). k = key q"
      by (auto simp: distinct_update)
    from Cons.IH [OF this] show ?case by (auto simp: update_conv' map_add_def fun_eq_iff split: option.split)
  qed simp
  from inv [of "[]"] have m: "distinct (map fst (byEndpoint nt ps))" "\<forall>(k, p) \<in> set (byEndpoint nt ps). k = key p"
      "map_of (byEndpoint nt ps) = map_of (rev (map (\<lambda>p. (key p, p)) ps))"
    by (simp_all add: byEndpoint_def key_def)
  have "map (\<lambda>p. (key p, p)) (map snd (byEndpoint nt ps)) = byEndpoint nt ps"
    using m(2) by (auto intro!: map_idI simp: o_def)
  moreover have "map key (map snd (byEndpoint nt ps)) = map fst (byEndpoint nt ps)" using m(2) by auto
  ultimately show ?thesis using m(1,3) by metis
qed

lemma endpoint_message: "dockerGuardEndpointStatusMessage base e = None \<longleftrightarrow> policyUUID e = [] \<or> effective e"
  by (simp add: dockerGuardEndpointStatusMessage_def Let_def)


section \<open>Properties\<close>

text \<open>C20. An accepted policy is sound: its family is one of the two words and its address is a plain address of
  that family, its port is an integer from 1 to 65535, a policy that denies all has no sources,
  any other has at least one, all different, trimmed, and addresses or networks of the family; and
  accepting it again gives it back.\<close>

theorem docker_policy_sound:
  assumes "normalizeDockerGuardPolicy nt v = Some p"
  shows "(family p = VStr (units ''ipv4'') \<and> isValidIPv4Address (hostIP p) \<or>
     family p = VStr (units ''ipv6'') \<and> isValidIPv6Address (hostIP p)) \<and>
   (\<exists>n. hostPort p = Fin (of_nat n) \<and> 1 \<le> n \<and> n \<le> 65535) \<and>
   (if mode p = VStr (units ''deny_all'') then sources p = []
    else sources p \<noteq> [] \<and> distinct (sources p) \<and> (\<forall>s \<in> set (sources p). trimU s = s \<and> isValidDockerGuardSource (family p) s)) \<and>
   normalizeDockerGuardPolicy nt (policyValue p) = Some p"
proof (intro conjI)
  note parts = normalize_parts [OF assms]
  then have h: "isInteger (hostPort p)" "leNum (Fin 1) (hostPort p)" "leNum (hostPort p) (Fin 65535)" "addressFor (family p) (hostIP p) False"
    by (auto simp: policyHost_def split: if_splits)
  show "family p = VStr (units ''ipv4'') \<and> isValidIPv4Address (hostIP p) \<or>
     family p = VStr (units ''ipv6'') \<and> isValidIPv6Address (hostIP p)"
    using h(4) by (rule addressFor_plain)
  show "\<exists>n. hostPort p = Fin (of_nat n) \<and> 1 \<le> n \<and> n \<le> 65535" using h(1-3) by (rule port_integer)
  show "if mode p = VStr (units ''deny_all'') then sources p = []
    else sources p \<noteq> [] \<and> distinct (sources p) \<and> (\<forall>s \<in> set (sources p). trimU s = s \<and> isValidDockerGuardSource (family p) s)"
    using parts by (auto simp: soundSources_def split: if_splits)
  show "normalizeDockerGuardPolicy nt (policyValue p) = Some p" using parts by (intro policy_fixed) auto
qed

definition closedPort :: "jsval \<Rightarrow> DockerGuardPolicy" where
  "closedPort prot = \<lparr>family = VStr (units ''ipv4''), hostIP = joinWith [46] (map decUnits [0, 0, 0, 0]), hostPort = Fin 80,
     protocol = prot, mode = VStr (units ''deny_all''), sources = [], description = []\<rparr>"

lemma closedPort_accepted:
  assumes "stringOf nt prot = units ''tcp''"
  shows "normalizeDockerGuardPolicy nt (policyValue (closedPort prot)) = Some (closedPort prot)"
proof (rule policy_fixed)
  let ?ip = "hostIP (closedPort prot)"
  have q: "isValidIPv4Address ?ip" unfolding ipv4_quad closedPort_def by (intro exI [of _ 0]) simp
  then have a: "47 \<notin> set ?ip" "58 \<notin> set ?ip" using quad_noslash quad_chars by (auto simp: ipv4_text)
  have "isValidAddressForFamily Ipv4 ?ip False"
    using q a cidr_none [OF a(1)] by (simp add: isValidAddressForFamily_def inferAddressFamily_def validFor_def)
  then show "policyHost (family (closedPort prot)) (VStr ?ip) (VNum (hostPort (closedPort prot))) = Some (?ip, hostPort (closedPort prot))"
    by (simp add: policyHost_def addressFor_def isInteger_def closedPort_def)
qed (simp_all add: closedPort_def policyWords_def assms soundSources_def trimU_Nil)

text \<open>The words are compared as strings but kept as they came: an array that holds a word passes.\<close>

lemma array_protocol: "protocol (the (normalizeDockerGuardPolicy nt (policyValue (closedPort (VArr [VStr (units ''tcp'')]))))) =
    VArr [VStr (units ''tcp'')]"
  by (subst closedPort_accepted) (simp_all add: closedPort_def)

theorem docker_policy_sound_witness:
  "\<exists>n. hostPort (closedPort (VStr (units ''tcp''))) = Fin (of_nat n) \<and> 1 \<le> n \<and> n \<le> 65535"
  using docker_policy_sound [OF closedPort_accepted [of "\<lambda>_. []" "VStr (units ''tcp'')"]] by simp

text \<open>An import keeps, of the policies in the file, for every endpoint the last one, with no endpoint
  twice, and selects all of them; where the file is no array, or one of its entries is no policy,
  it keeps nothing and says so.\<close>

theorem docker_import:
  "case (case parsed of Some (VArr vs) \<Rightarrow> those (map (normalizeDockerGuardPolicy nt) vs) | _ \<Rightarrow> None) of
     None \<Rightarrow> onload nt parsed d =
       d\<lparr>policies := [], selects := [], errors := errors d @ [''commons.msg.errImportFormat''], loading := False\<rparr>
   | Some ns \<Rightarrow> \<exists>ps. onload nt parsed d = d\<lparr>policies := ps, selects := ps, loading := False\<rparr> \<and>
       distinct (map (dockerGuardEndpointKey nt) ps) \<and>
       map_of (map (\<lambda>p. (dockerGuardEndpointKey nt p, p)) ps) = map_of (rev (map (\<lambda>p. (dockerGuardEndpointKey nt p, p)) ns))"
proof (cases "case parsed of Some (VArr vs) \<Rightarrow> those (map (normalizeDockerGuardPolicy nt) vs) | _ \<Rightarrow> None")
  case None
  then show ?thesis by (auto simp: onload_def Let_def split: option.splits jsval.splits)
next
  case (Some ns)
  then have "onload nt parsed d = d\<lparr>policies := map snd (byEndpoint nt ns), selects := map snd (byEndpoint nt ns), loading := False\<rparr>"
    by (auto simp: onload_def Let_def split: option.splits jsval.splits)
  with Some byEndpoint_keys [of nt ns] show ?thesis by auto
qed

end
