(* ===== verification/Runtime_Environment.thy ===== *)
theory Runtime_Environment
  imports JS_Number "HOL-Library.AList"
begin

text \<open>
  Environment variables of a runtime: the reader of \<open>.env\<close> texts (\<open>utils/runtime-environment.ts\<close>) and the
  form that imports them (\<open>views/website/runtime/components/environment/index.vue\<close>), on code units. The reader
  works line by line, but a quoted value may span lines; its loop is a recursion on the lines left,
  which the scan of a quoted value never makes more. An error is \<open>Inl\<close> of its line and reason.
\<close>

section \<open>Lines and assignments\<close>

definition dropBOM :: "jstr \<Rightarrow> jstr" where
  "dropBOM t = (case t of [] \<Rightarrow> [] | c # s \<Rightarrow> if c = 65279 then s else t)"

text \<open>\<open>replace (/\r\n?/g, '\n')\<close>.\<close>

fun newlines :: "jstr \<Rightarrow> jstr" where
  "newlines [] = []"
| "newlines (c # s) =
     (if c = 13 then 10 # (if s \<noteq> [] \<and> hd s = 10 then newlines (tl s) else newlines s) else c # newlines s)"

definition linesOf :: "jstr \<Rightarrow> jstr list" where
  "linesOf t = splitOn 10 (newlines (dropBOM t))"

definition keyStart :: "nat \<Rightarrow> bool" where
  "keyStart c \<longleftrightarrow> 65 \<le> c \<and> c \<le> 90 \<or> 97 \<le> c \<and> c \<le> 122 \<or> c = 95"

definition keyChar :: "nat \<Rightarrow> bool" where
  "keyChar c \<longleftrightarrow> keyStart c \<or> isDigitU c"

definition isLineEnd :: "nat \<Rightarrow> bool" where
  "isLineEnd c \<longleftrightarrow> c \<in> {10, 13, 8232, 8233}"

text \<open>\<open>/^(?:export\s+)?([A-Za-z_][A-Za-z0-9_]*)\s*=\s*(.*)$/\<close>: the prefix is tried first; the dot stops at
  the line ends of the language.\<close>

definition assignAt :: "jstr \<Rightarrow> (jstr \<times> jstr) option" where
  "assignAt s =
     (if s = [] \<or> \<not> keyStart (hd s) then None
      else case dropWhile isSpaceU (dropWhile keyChar s) of
        [] \<Rightarrow> None
      | d # r \<Rightarrow>
          (let v = dropWhile isSpaceU r
           in if d \<noteq> 61 \<or> list_ex isLineEnd v then None else Some (takeWhile keyChar s, v)))"

definition matchAssignment :: "jstr \<Rightarrow> (jstr \<times> jstr) option" where
  "matchAssignment line =
     (let r = drop 6 line
      in if prefix (units ''export'') line \<and> r \<noteq> [] \<and> isSpaceU (hd r)
         then (case assignAt (dropWhile isSpaceU r) of Some m \<Rightarrow> Some m | None \<Rightarrow> assignAt line)
         else assignAt line)"


section \<open>Values\<close>

text \<open>The scan for the closing quote: the text before it, the text after it in its line, and the lines left.\<close>

fun scanQuote :: "nat \<Rightarrow> jstr \<Rightarrow> jstr list \<Rightarrow> (jstr \<times> jstr \<times> jstr list) option" where
  "scanQuote q [] [] = None"
| "scanQuote q [] (l # ls) = scanQuote q (10 # l) ls"
| "scanQuote q (c # s) ls =
     (if c = 92 \<and> s \<noteq> [] \<and> (hd s = q \<or> hd s = 92)
      then map_option (\<lambda>(b, r). (c # hd s # b, r)) (scanQuote q (tl s) ls)
      else if c = q then Some ([], s, ls)
      else map_option (\<lambda>(b, r). (c # b, r)) (scanQuote q s ls))"

definition escapeChar :: "nat \<Rightarrow> nat option" where
  "escapeChar c = map_of [(110, 10), (114, 13), (116, 9), (34, 34), (92, 92)] c"

fun unescapeDouble :: "jstr \<Rightarrow> jstr" where
  "unescapeDouble [] = []"
| "unescapeDouble (c # s) =
     (if c = 92 \<and> s \<noteq> [] \<and> escapeChar (hd s) \<noteq> None then the (escapeChar (hd s)) # unescapeDouble (tl s)
      else c # unescapeDouble s)"

fun unescapeSingle :: "jstr \<Rightarrow> jstr" where
  "unescapeSingle [] = []"
| "unescapeSingle (c # s) =
     (if c = 92 \<and> s \<noteq> [] \<and> hd s = 39 then 39 # unescapeSingle (tl s) else c # unescapeSingle s)"

definition unquote :: "nat \<Rightarrow> jstr \<Rightarrow> jstr" where
  "unquote q body = (if q = 34 then unescapeDouble body else unescapeSingle body)"

text \<open>\<open>replace (/\s+#.*$/, '').trimEnd ()\<close>.\<close>

fun cutComment :: "jstr \<Rightarrow> jstr" where
  "cutComment [] = []"
| "cutComment (c # s) =
     (let r = dropWhile isSpaceU s
      in if isSpaceU c \<and> r \<noteq> [] \<and> hd r = 35 then [] else c # cutComment s)"

definition plainValue :: "jstr \<Rightarrow> jstr" where
  "plainValue v =
     (if v \<noteq> [] \<and> hd v = 35 then [] else rev (dropWhile isSpaceU (rev (cutComment v))))"


section \<open>The reader\<close>

lemma scanQuote_lines: "scanQuote q s ls = Some (b, r, ls') \<Longrightarrow> length ls' \<le> length ls"
  by (induction q s ls arbitrary: b rule: scanQuote.induct) (fastforce split: if_splits)+

text \<open>One round of the loop at line \<open>i\<close>, counted from 0: an error, or the next line, the lines left and the entries.\<close>

definition readLine ::
  "nat \<Rightarrow> jstr \<Rightarrow> jstr list \<Rightarrow> (jstr \<times> jstr) list \<Rightarrow> (nat \<times> string) + nat \<times> jstr list \<times> (jstr \<times> jstr) list"
where
  "readLine i l ls entries =
     (let line = dropWhile isSpaceU l
      in if line = [] \<or> hd line = 35 then Inr (i + 1, ls, entries)
         else case matchAssignment line of
           None \<Rightarrow> Inl (i + 1, ''envInvalidAssignment'')
         | Some (key, v) \<Rightarrow>
             if v \<noteq> [] \<and> (hd v = 34 \<or> hd v = 39)
             then (case scanQuote (hd v) (tl v) ls of
                     None \<Rightarrow> Inl (i + 1, ''envUnclosedQuote'')
                   | Some (body, rest, ls') \<Rightarrow>
                       (let trailing = trimU rest; j = i + (length ls - length ls')
                        in if trailing \<noteq> [] \<and> hd trailing \<noteq> 35 then Inl (j + 1, ''envUnexpectedText'')
                           else Inr (j + 1, ls', AList.update key (unquote (hd v) body) entries)))
             else Inr (i + 1, ls, AList.update key (plainValue v) entries))"

lemma readLine_next:
  assumes "readLine i l ls es = Inr (j, ls', es')"
  shows "length ls' \<le> length ls" "j + length ls' = i + 1 + length ls" "es' = es \<or> (\<exists>k v. es' = AList.update k v es \<and>
      (\<exists>w. matchAssignment (dropWhile isSpaceU l) = Some (k, w)))"
  using assms
  by (auto simp: readLine_def Let_def split: if_splits option.splits prod.splits dest!: scanQuote_lines)

lemma readLine_error: "readLine i l ls es = Inl (n, why) \<Longrightarrow> i < n \<and> n \<le> i + 1 + length ls"
  by (auto simp: readLine_def Let_def split: if_splits option.splits prod.splits dest!: scanQuote_lines)

function parseLines :: "nat \<Rightarrow> jstr list \<Rightarrow> (jstr \<times> jstr) list \<Rightarrow> (nat \<times> string) + (jstr \<times> jstr) list" where
  "parseLines i [] entries = Inr entries"
| "parseLines i (l # ls) entries =
     (case readLine i l ls entries of Inl e \<Rightarrow> Inl e | Inr (j, ls', entries') \<Rightarrow> parseLines j ls' entries')"
  by pat_completeness auto
termination
  by (relation "measure (\<lambda>(i, ls, es). length ls)") (auto dest!: readLine_next(1))

definition parseEnvironment :: "jstr \<Rightarrow> (nat \<times> string) + (jstr \<times> jstr) list" where
  "parseEnvironment text = parseLines 0 (linesOf text) []"

definition mergeEnvironments :: "(jstr \<times> jstr) list \<Rightarrow> (jstr \<times> jstr) list \<Rightarrow> (jstr \<times> jstr) list" where
  "mergeEnvironments current incoming = fold (\<lambda>(k, v) es. AList.update k v es) incoming current"


section \<open>The form\<close>

record env_form =
  environments :: "(jstr \<times> jstr) list"
  importVisible :: bool
  importText :: jstr

definition openImport :: "env_form \<Rightarrow> env_form" where
  "openImport f = f\<lparr>importText := [], importVisible := True\<rparr>"

definition importEnv :: "env_form \<Rightarrow> env_form" where
  "importEnv f =
     (case parseEnvironment (importText f) of
        Inl e \<Rightarrow> f
      | Inr es \<Rightarrow>
          if es = [] then f
          else f\<lparr>environments := mergeEnvironments (environments f) es, importVisible := False, importText := []\<rparr>)"

definition addEnv :: "env_form \<Rightarrow> env_form" where
  "addEnv f = f\<lparr>environments := environments f @ [([], [])]\<rparr>"

definition removeEnv :: "nat \<Rightarrow> env_form \<Rightarrow> env_form" where
  "removeEnv i f = f\<lparr>environments := take i (environments f) @ drop (Suc i) (environments f)\<rparr>"



section \<open>What is read\<close>

definition validKey :: "jstr \<Rightarrow> bool" where
  "validKey k \<longleftrightarrow> k \<noteq> [] \<and> keyStart (hd k) \<and> list_all keyChar k"

lemma assignAt_key: "assignAt s = Some (k, v) \<Longrightarrow> validKey k"
proof -
  assume a: "assignAt s = Some (k, v)"
  then have s: "s \<noteq> []" "keyStart (hd s)" "k = takeWhile keyChar s"
    by (auto simp: assignAt_def Let_def split: list.splits if_splits)
  then have "k \<noteq> []" "hd k = hd s" by (cases s; simp add: keyChar_def)+
  with s show ?thesis by (auto simp: validKey_def list_all_iff dest: set_takeWhileD)
qed

lemma matchAssignment_key: "matchAssignment l = Some (k, v) \<Longrightarrow> validKey k"
  by (auto simp: matchAssignment_def Let_def assignAt_key split: if_splits option.splits)

definition goodEntries :: "(jstr \<times> jstr) list \<Rightarrow> bool" where
  "goodEntries es \<longleftrightarrow> distinct (map fst es) \<and> list_all validKey (map fst es)"

lemma good_update: "goodEntries es \<Longrightarrow> validKey k \<Longrightarrow> goodEntries (AList.update k v es)"
  by (auto simp: goodEntries_def distinct_update list_all_iff update_keys split: if_splits)

text \<open>The reader keeps the keys sound, and an error names a line of the text.\<close>

lemma parseLines_sound:
  "goodEntries es \<Longrightarrow>
   (case parseLines i ls es of Inl (n, why) \<Rightarrow> i < n \<and> n \<le> i + length ls | Inr out \<Rightarrow> goodEntries out)"
proof (induction i ls es rule: parseLines.induct)
  case (2 i l ls entries)
  show ?case
  proof (cases "readLine i l ls entries")
    case (Inl e)
    then show ?thesis using readLine_error by (cases e) auto
  next
    case (Inr t)
    obtain j ls' es' where t: "t = (j, ls', es')" by (cases t)
    note nx = readLine_next [OF Inr [unfolded t]]
    have "goodEntries es'" using nx(3) 2(2) good_update matchAssignment_key by blast
    then show ?thesis using 2(1) [OF Inr, of j "(ls', es')" ls' es'] t nx(1,2) Inr by (auto split: sum.splits)
  qed
qed simp


section \<open>Written and read back\<close>

text \<open>A text for every value: the double quotes of the reader, with its escapes.\<close>

fun escapeDouble :: "jstr \<Rightarrow> jstr" where
  "escapeDouble [] = []"
| "escapeDouble (c # s) =
     (case map_of [(10, 110), (13, 114), (34, 34), (92, 92)] c of Some e \<Rightarrow> [92, e] | None \<Rightarrow> [c]) @ escapeDouble s"

definition printEntry :: "jstr \<times> jstr \<Rightarrow> jstr" where
  "printEntry e = fst e @ 61 # 34 # escapeDouble (snd e) @ [34]"

definition readable :: "jstr \<times> jstr \<Rightarrow> bool" where
  "readable e \<longleftrightarrow> validKey (fst e) \<and> 8232 \<notin> set (snd e) \<and> 8233 \<notin> set (snd e)"

lemma unescape_escape: "unescapeDouble (escapeDouble v) = v"
  by (induction v) (auto simp: escapeChar_def)

lemma scan_escape: "scanQuote 34 (escapeDouble v @ 34 # r) ls = Some (escapeDouble v, r, ls)"
proof (induction v)
  case (Cons c v)
  then show ?case by (cases "escapeDouble v @ 34 # r") auto
qed simp

lemma escape_units: "c \<in> set (escapeDouble v) \<Longrightarrow> c \<in> set v \<and> c \<notin> {10, 13} \<or> c \<in> {92, 110, 114, 34}"
  by (induction v) (auto split: if_splits)

lemma key_span:
  assumes "validKey k" "\<not> keyChar c"
  shows "takeWhile keyChar (k @ c # s) = k" "dropWhile keyChar (k @ c # s) = c # s" "k \<noteq> []" "keyStart (hd k)"
proof -
  have "\<forall>x \<in> set k. keyChar x" using assms(1) by (simp add: validKey_def list_all_iff)
  then show "takeWhile keyChar (k @ c # s) = k" "dropWhile keyChar (k @ c # s) = c # s"
    using assms(2) by (simp_all add: takeWhile_append2 dropWhile_append2)
qed (use assms in \<open>simp_all add: validKey_def\<close>)

lemma key_not_space: "keyChar c \<Longrightarrow> \<not> isSpaceU c"
  by (auto simp: keyChar_def keyStart_def isDigitU_def isSpaceU_def)

lemma equals_units: "\<not> keyChar 61" "\<not> isSpaceU 61" "\<not> isSpaceU 34"
  by (simp_all add: keyChar_def keyStart_def isDigitU_def isSpaceU_def)

lemma assign_print:
  assumes "readable e"
  shows "assignAt (printEntry e) = Some (fst e, 34 # escapeDouble (snd e) @ [34])"
proof -
  have k: "validKey (fst e)" using assms by (simp add: readable_def)
  note span = key_span [OF k equals_units(1)]
  have "\<not> isLineEnd c" if "c \<in> set (escapeDouble (snd e))" for c
    using escape_units [OF that] assms by (auto simp: isLineEnd_def readable_def)
  then have "\<not> list_ex isLineEnd (34 # escapeDouble (snd e) @ [34])" by (auto simp: list_ex_iff isLineEnd_def)
  then show ?thesis
    using span(3,4) by (simp add: assignAt_def printEntry_def span(1,2) equals_units)
qed

lemma match_print:
  assumes "readable e"
  shows "matchAssignment (printEntry e) = Some (fst e, 34 # escapeDouble (snd e) @ [34])"
proof -
  have k: "validKey (fst e)" using assms by (simp add: readable_def)
  have "\<not> isSpaceU (hd (drop 6 (printEntry e)))" if px: "prefix (units ''export'') (printEntry e)" "drop 6 (printEntry e) \<noteq> []"
  proof -
    obtain r where r: "printEntry e = units ''export'' @ r" using px(1) by (blast elim: prefixE)
    have "list_all keyChar (units ''export'')" by (simp add: units_def keyChar_def keyStart_def)
    then have "takeWhile keyChar (printEntry e) = units ''export'' @ takeWhile keyChar r"
      unfolding r by (simp add: list_all_iff takeWhile_append2)
    then have "fst e = units ''export'' @ takeWhile keyChar r"
      using key_span(1) [OF k equals_units(1)] by (simp add: printEntry_def)
    then have "r = takeWhile keyChar r @ 61 # 34 # escapeDouble (snd e) @ [34]" using r by (simp add: printEntry_def)
    then have "keyChar (hd r) \<or> hd r = 61" by (cases r) (auto split: if_splits)
    moreover have "drop 6 (printEntry e) = r" unfolding r by (simp add: units_def)
    ultimately show ?thesis using key_not_space equals_units(2) by metis
  qed
  then show ?thesis using assign_print [OF assms] by (auto simp: matchAssignment_def Let_def)
qed

lemma readLine_print:
  assumes "readable e"
  shows "readLine i (printEntry e) ls es = Inr (i + 1, ls, AList.update (fst e) (snd e) es)"
proof -
  have k: "validKey (fst e)" using assms by (simp add: readable_def)
  obtain c s where c: "printEntry e = c # s" "keyStart c" using key_span(3,4) [OF k equals_units(1)] by (cases "fst e") (auto simp: printEntry_def)
  then have "dropWhile isSpaceU (printEntry e) = printEntry e" "printEntry e \<noteq> []" "hd (printEntry e) \<noteq> 35"
    using key_not_space [of c] by (auto simp: keyChar_def keyStart_def)
  then show ?thesis
    unfolding readLine_def Let_def using match_print [OF assms] scan_escape [of "snd e" "[]" ls]
    by (simp add: unquote_def unescape_escape trimU_def)
qed

lemma update_fresh: "k \<notin> fst ` set es \<Longrightarrow> AList.update k v es = es @ [(k, v)]"
  by (induction es) auto

lemma parse_print:
  "list_all readable es \<Longrightarrow> distinct (map fst es) \<Longrightarrow> fst ` set es \<inter> fst ` set acc = {} \<Longrightarrow>
   parseLines i (map printEntry es) acc = Inr (acc @ es)"
proof (induction es arbitrary: i acc)
  case (Cons e es)
  then have "parseLines (i + 1) (map printEntry es) (acc @ [e]) = Inr ((acc @ [e]) @ es)" by (intro Cons.IH) auto
  then show ?case using Cons.prems update_fresh [of "fst e" acc "snd e"] by (simp add: readLine_print)
qed simp

lemma newlines_none: "13 \<notin> set s \<Longrightarrow> newlines s = s"
  by (induction s) auto

lemma print_units:
  assumes "readable e" "c \<in> set (printEntry e)"
  shows "c \<noteq> 10" "c \<noteq> 13" "printEntry e \<noteq> []" "hd (printEntry e) \<noteq> 65279"
proof -
  have k: "validKey (fst e)" using assms by (simp add: readable_def)
  then have "keyChar x \<and> x \<noteq> 10 \<and> x \<noteq> 13" if "x \<in> set (fst e)" for x
    using that by (auto simp: validKey_def list_all_iff keyChar_def keyStart_def isDigitU_def)
  then show "c \<noteq> 10" "c \<noteq> 13" using assms(2) escape_units [of c "snd e"] by (auto simp: printEntry_def)
  show "printEntry e \<noteq> []" "hd (printEntry e) \<noteq> 65279" using k by (auto simp: printEntry_def validKey_def keyStart_def hd_append)
qed

lemma set_join: "c \<in> set (joinWith [d] ws) \<Longrightarrow> c = d \<or> (\<exists>w \<in> set ws. c \<in> set w)"
  by (induction "[d]" ws rule: joinWith.induct) auto

lemma linesOf_print:
  assumes "list_all readable es"
  shows "linesOf (joinWith [10] (map printEntry es)) = (if es = [] then [[]] else map printEntry es)"
proof (cases es)
  case Nil
  then show ?thesis by (simp add: linesOf_def dropBOM_def)
next
  case (Cons e es')
  let ?t = "joinWith [10] (map printEntry es)"
  have r: "readable e" "\<forall>x \<in> set es. readable x" using assms Cons by (simp_all add: list_all_iff)
  have "c \<noteq> 13" if "c \<in> set ?t" for c
    using set_join [OF that] r(2) print_units(2) by auto
  then have "newlines ?t = ?t" using newlines_none by blast
  moreover have "dropBOM ?t = ?t"
    using print_units(3,4) [OF r(1)] by (cases es'; cases "printEntry e") (auto simp: dropBOM_def Cons)
  moreover have "10 \<notin> set w" if "w \<in> set (map printEntry es)" for w using that r(2) print_units(1) by fastforce
  then have "splitOn 10 ?t = map printEntry es" using Cons by (intro splitOn_join) auto
  ultimately show ?thesis using Cons by (simp add: linesOf_def)
qed

lemma merge_lookup: "map_of (mergeEnvironments cur inc) = map_of cur ++ map_of (rev inc)"
  unfolding mergeEnvironments_def
proof (induction inc arbitrary: cur)
  case (Cons e inc)
  obtain k v where e: "e = (k, v)" by (cases e)
  have "map_of (fold (\<lambda>(k, v) es. AList.update k v es) (e # inc) cur) = (map_of cur)(k \<mapsto> v) ++ map_of (rev inc)"
    using Cons [of "AList.update k v cur"] by (simp add: e update_conv' fun_upd_def)
  then show ?case by (simp add: e)
qed simp

lemma merge_keys: "distinct (map fst cur) \<Longrightarrow> distinct (map fst (mergeEnvironments cur inc))"
  unfolding mergeEnvironments_def by (induction inc arbitrary: cur) (auto simp: distinct_update)

lemma parse_printed:
  assumes "list_all readable es" "distinct (map fst es)"
  shows "parseEnvironment (joinWith [10] (map printEntry es)) = Inr es"
proof (cases "es = []")
  case True
  then show ?thesis using linesOf_print [OF assms(1)] by (simp add: parseEnvironment_def readLine_def)
next
  case False
  then show ?thesis using linesOf_print [OF assms(1)] parse_print [OF assms, of "[]"] by (simp add: parseEnvironment_def)
qed


section \<open>Properties\<close>

text \<open>C25. The reader always ends: with different keys that are all identifiers, or with an error at a line
  of the text.\<close>

theorem environment_read:
  "case parseEnvironment t of
     Inl (n, why) \<Rightarrow> 1 \<le> n \<and> n \<le> length (linesOf t)
   | Inr es \<Rightarrow> distinct (map fst es) \<and> list_all (\<lambda>k. k \<noteq> [] \<and> keyStart (hd k) \<and> list_all keyChar k) (map fst es)"
  using parseLines_sound [of "[]" 0 "linesOf t"]
  by (auto simp: parseEnvironment_def goodEntries_def validKey_def list_all_iff split: sum.splits)

text \<open>C10. Every environment can be written so that it is read back: keys with values in double quotes, in
  which quotes, backslashes and line breaks are escaped, are read as they were, whatever the values
  hold but the two exotic line separators. Importing such a text sets exactly these variables and
  keeps all others.\<close>

theorem environment_roundtrip:
  assumes "\<forall>(k, v) \<in> set es. k \<noteq> [] \<and> keyStart (hd k) \<and> list_all keyChar k \<and> 8232 \<notin> set v \<and> 8233 \<notin> set v"
    and "distinct (map fst es)"
  shows "parseEnvironment (joinWith [10] (map printEntry es)) = Inr es \<and>
    map_of (environments (importEnv (f\<lparr>importText := joinWith [10] (map printEntry es)\<rparr>))) = map_of (environments f) ++ map_of es"
proof -
  have "list_all readable es" using assms(1) by (auto simp: list_all_iff readable_def validKey_def)
  then have p: "parseEnvironment (joinWith [10] (map printEntry es)) = Inr es" using assms(2) by (rule parse_printed)
  have "map_of (rev es) = map_of es" using assms(2) by (simp add: map_of_inject_set rev_map [symmetric])
  then show ?thesis using p merge_lookup [of "environments f" es] by (auto simp: importEnv_def)
qed

theorem environment_roundtrip_witness:
  "parseEnvironment (joinWith [10] (map printEntry [(units ''PATH'', units ''a b''), (units ''X_1'', [34, 92, 10, 35])])) =
     Inr [(units ''PATH'', units ''a b''), (units ''X_1'', [34, 92, 10, 35])]"
  using environment_roundtrip [of "[(units ''PATH'', units ''a b''), (units ''X_1'', [34, 92, 10, 35])]"]
  by (simp add: units_def keyStart_def keyChar_def isDigitU_def)

end
