(* ===== verification/Dashboard_Cache.thy ===== *)
theory Dashboard_Cache
  imports Prelude
begin

text \<open>
  The cache of the start page in the local storage (\<open>utils/dashboardCache.ts\<close>) and the functions of
  \<open>views/home/index.vue\<close> that read and fill it. The storage holds nothing, a text that does not parse, or
  entries with their expiry; whether it takes a text is a parameter, since a full storage raises.
  Times are milliseconds, and the answers of requests are arguments of the steps that follow them.
\<close>

section \<open>The cache\<close>

datatype 'v stored = Absent | Broken | Entries "string \<rightharpoonup> 'v \<times> int"

definition readCache :: "'v stored \<Rightarrow> (string \<rightharpoonup> 'v \<times> int) option" where
  "readCache st = (case st of Absent \<Rightarrow> Some Map.empty | Broken \<Rightarrow> None | Entries m \<Rightarrow> Some m)"

definition getDashboardCache :: "int \<Rightarrow> string \<Rightarrow> 'v stored \<Rightarrow> 'v option" where
  "getDashboardCache now key st =
     (case readCache st of
        None \<Rightarrow> None
      | Some cache \<Rightarrow>
          (case cache key of
             None \<Rightarrow> None
           | Some (v, expireAt) \<Rightarrow> if expireAt > now then Some v else None))"

definition clearDashboardCache :: "'v stored \<Rightarrow> 'v stored" where
  "clearDashboardCache st = Absent"

definition setItem :: "((string \<rightharpoonup> 'v \<times> int) \<Rightarrow> bool) \<Rightarrow> (string \<rightharpoonup> 'v \<times> int) \<Rightarrow> 'v stored" where
  "setItem takes m = (if takes m then Entries m else Absent)"

definition setDashboardCache ::
  "((string \<rightharpoonup> 'v \<times> int) \<Rightarrow> bool) \<Rightarrow> int \<Rightarrow> string \<Rightarrow> 'v \<Rightarrow> int \<Rightarrow> 'v stored \<Rightarrow> 'v stored"
where
  "setDashboardCache takes now key v ttl st =
     (case readCache st of
        None \<Rightarrow> Absent
      | Some cache \<Rightarrow> setItem takes (cache(key \<mapsto> (v, now + ttl))))"

definition clearDashboardCacheByPrefix ::
  "((string \<rightharpoonup> 'v \<times> int) \<Rightarrow> bool) \<Rightarrow> string list \<Rightarrow> 'v stored \<Rightarrow> 'v stored"
where
  "clearDashboardCacheByPrefix takes ps st =
     (case st of
        Absent \<Rightarrow> Absent
      | Broken \<Rightarrow> clearDashboardCache st
      | Entries m \<Rightarrow> setItem takes (m |` {key. \<not> list_ex (\<lambda>p. prefix p key) ps}))"


section \<open>The contract of an expiring cache\<close>

text \<open>A cache may forget, but it never answers what was not put, nor after the expiry.\<close>

locale expiring_cache =
  fixes get :: "int \<Rightarrow> 'k \<Rightarrow> 's \<Rightarrow> 'v option"
    and puts :: "int \<Rightarrow> 'k \<Rightarrow> 'v \<Rightarrow> int \<Rightarrow> 's \<Rightarrow> 's \<Rightarrow> bool"
    and forgets :: "'s \<Rightarrow> 's \<Rightarrow> bool"
    and empty :: 's
  assumes get_empty: "get t k empty = None"
    and get_put: "puts t0 k v ttl s s' \<Longrightarrow> get t k s' = Some x \<Longrightarrow> x = v \<and> t < t0 + ttl"
    and get_other: "puts t0 k v ttl s s' \<Longrightarrow> k' \<noteq> k \<Longrightarrow> get t k' s' = Some x \<Longrightarrow> get t k' s = Some x"
    and get_forgets: "forgets s s' \<Longrightarrow> get t k s' = Some x \<Longrightarrow> get t k s = Some x"
begin

text \<open>The storage together with what was put, the newest first.\<close>

inductive run :: "'s \<Rightarrow> (int \<times> 'k \<times> 'v \<times> int) list \<Rightarrow> bool" where
  run_empty: "run empty []"
| run_put: "run s log \<Longrightarrow> puts t k v ttl s s' \<Longrightarrow> run s' ((t, k, v, ttl) # log)"
| run_forget: "run s log \<Longrightarrow> forgets s s' \<Longrightarrow> run s' log"

lemma run_fresh:
  "run s log \<Longrightarrow> get t k s = Some v \<Longrightarrow> \<exists>t0 ttl. find (\<lambda>(_, k', _, _). k' = k) log = Some (t0, k, v, ttl) \<and> t < t0 + ttl"
proof (induction arbitrary: t k v rule: run.induct)
  case run_empty
  then show ?case by (simp add: get_empty)
next
  case (run_put s log t1 k1 v1 ttl1 s')
  show ?case
  proof (cases "k1 = k")
    case True
    then show ?thesis using run_put.prems get_put [OF run_put.hyps(2)] by simp
  next
    case False
    then have "get t k s = Some v" using get_other [OF run_put.hyps(2) _ run_put.prems] by simp
    from run_put.IH [OF this] show ?thesis using False by simp
  qed
next
  case (run_forget s log s')
  then show ?case using get_forgets by blast
qed

end

lemma get_setItem: "getDashboardCache t k (setItem takes m) = Some x \<Longrightarrow> \<exists>e. m k = Some (x, e) \<and> t < e"
  by (auto simp: getDashboardCache_def readCache_def setItem_def split: if_splits option.splits)

lemma get_Absent: "getDashboardCache t k Absent = None"
  by (simp add: getDashboardCache_def readCache_def)

definition stores :: "int \<Rightarrow> string \<Rightarrow> 'v \<Rightarrow> int \<Rightarrow> 'v stored \<Rightarrow> 'v stored \<Rightarrow> bool" where
  "stores t k v ttl s s' \<longleftrightarrow> (\<exists>takes. s' = setDashboardCache takes t k v ttl s)"

definition drops :: "'v stored \<Rightarrow> 'v stored \<Rightarrow> bool" where
  "drops s s' \<longleftrightarrow> s' = clearDashboardCache s \<or> (\<exists>takes ps. s' = clearDashboardCacheByPrefix takes ps s)"

lemma get_stores:
  assumes "stores t0 k v ttl s s'" "getDashboardCache t k' s' = Some x"
  shows "if k' = k then x = v \<and> t < t0 + ttl else getDashboardCache t k' s = Some x"
proof -
  obtain takes where s': "s' = setDashboardCache takes t0 k v ttl s" using assms(1) by (auto simp: stores_def)
  then obtain m where m: "readCache s = Some m" "s' = setItem takes (m(k \<mapsto> (v, t0 + ttl)))"
    using assms(2) by (auto simp: setDashboardCache_def get_Absent split: option.splits)
  from get_setItem [OF assms(2) [unfolded m(2)]] show ?thesis
    using m(1) by (auto simp: getDashboardCache_def split: if_splits)
qed

lemma get_drops:
  assumes "drops s s'" "getDashboardCache t k s' = Some x"
  shows "getDashboardCache t k s = Some x"
proof -
  have "s' \<noteq> Absent" using assms(2) by (auto simp: get_Absent)
  then obtain m takes ps where m: "s = Entries m" "s' = setItem takes (m |` {key. \<not> list_ex (\<lambda>p. prefix p key) ps})"
    using assms(1) by (cases s) (auto simp: drops_def clearDashboardCache_def clearDashboardCacheByPrefix_def)
  from get_setItem [OF assms(2) [unfolded m(2)]] show ?thesis
    by (auto simp: m(1) getDashboardCache_def readCache_def restrict_map_def split: if_splits)
qed

lemma drops_clear: "drops s (clearDashboardCache s)" "drops s (clearDashboardCacheByPrefix takes ps s)"
  by (auto simp: drops_def)

interpretation dc: expiring_cache getDashboardCache stores drops Absent
  by unfold_locales (auto simp: get_Absent dest: get_stores get_drops)


section \<open>The start page\<close>

datatype cached = Options "string list" | Setting string

record home =
  storage :: "cached stored"
  netOptions :: "string list"
  netOptionsFromCache :: bool
  ioOptions :: "string list"
  ioOptionsFromCache :: bool
  netOption :: string
  ioOption :: string
  defaultNetwork :: string
  defaultIO :: string
  isSafety :: string
  memoCarouselSetting :: string
  simpleNodeCarouselSetting :: string
  carouselSettingReady :: bool
  hasRefreshedOptionsOnHover :: bool

definition DASHBOARD_CACHE_TTL :: "string \<Rightarrow> int" where
  "DASHBOARD_CACHE_TTL k = (if k = ''netOptions'' \<or> k = ''ioOptions'' then 60 * 60 * 1000 else 10 * 60 * 1000)"

text \<open>What the page reads under a key has the shape the page wrote there.\<close>

definition cachedOptions :: "int \<Rightarrow> string \<Rightarrow> home \<Rightarrow> string list option" where
  "cachedOptions now key h = (case getDashboardCache now key (storage h) of Some (Options os) \<Rightarrow> Some os | _ \<Rightarrow> None)"

definition cachedSetting :: "int \<Rightarrow> string \<Rightarrow> home \<Rightarrow> string option" where
  "cachedSetting now key h = (case getDashboardCache now key (storage h) of Some (Setting t) \<Rightarrow> Some t | _ \<Rightarrow> None)"

definition applyDefaultNetOption :: "home \<Rightarrow> home" where
  "applyDefaultNetOption h =
     (if netOptions h = [] then h
      else (let defaultNet = (if defaultNetwork h \<noteq> [] then defaultNetwork h else netOptions h ! 0)
            in if defaultNet \<noteq> [] \<and> netOption h \<noteq> defaultNet then h\<lparr>netOption := defaultNet\<rparr> else h))"

definition applyDefaultIOOption :: "home \<Rightarrow> home" where
  "applyDefaultIOOption h =
     (if ioOptions h = [] then h
      else (let dflt = (if defaultIO h \<noteq> [] then defaultIO h else ioOptions h ! 0)
            in if dflt \<noteq> [] \<and> ioOption h \<noteq> dflt then h\<lparr>ioOption := dflt\<rparr> else h))"

text \<open>Loading the options: the cached ones, or \<open>None\<close> where a request is sent; and its answer.\<close>

definition onLoadNetworkOptions :: "int \<Rightarrow> bool \<Rightarrow> home \<Rightarrow> home option" where
  "onLoadNetworkOptions now force h =
     (case (if force then None else cachedOptions now ''netOptions'' h) of
        Some os \<Rightarrow> Some (applyDefaultNetOption (h\<lparr>netOptions := os, netOptionsFromCache := True\<rparr>))
      | None \<Rightarrow> None)"

definition onNetworkOptions ::
  "((string \<rightharpoonup> cached \<times> int) \<Rightarrow> bool) \<Rightarrow> int \<Rightarrow> string list \<Rightarrow> home \<Rightarrow> home"
where
  "onNetworkOptions takes now os h =
     (let h1 = h\<lparr>netOptions := os, netOptionsFromCache := False\<rparr>;
          h2 = h1\<lparr>storage := setDashboardCache takes now ''netOptions'' (Options os) (DASHBOARD_CACHE_TTL ''netOptions'') (storage h1)\<rparr>
      in applyDefaultNetOption h2)"

definition onLoadIOOptions :: "int \<Rightarrow> bool \<Rightarrow> home \<Rightarrow> home option" where
  "onLoadIOOptions now force h =
     (case (if force then None else cachedOptions now ''ioOptions'' h) of
        Some os \<Rightarrow> Some (applyDefaultIOOption (h\<lparr>ioOptions := os, ioOptionsFromCache := True\<rparr>))
      | None \<Rightarrow> None)"

definition onIOOptions ::
  "((string \<rightharpoonup> cached \<times> int) \<Rightarrow> bool) \<Rightarrow> int \<Rightarrow> string list \<Rightarrow> home \<Rightarrow> home"
where
  "onIOOptions takes now os h =
     (let h1 = h\<lparr>ioOptions := os, ioOptionsFromCache := False\<rparr>;
          h2 = h1\<lparr>storage := setDashboardCache takes now ''ioOptions'' (Options os) (DASHBOARD_CACHE_TTL ''ioOptions'') (storage h1)\<rparr>
      in applyDefaultIOOption h2)"

text \<open>The settings of the page: all three cached, or all three asked for.\<close>

definition loadSettingInfo :: "int \<Rightarrow> home \<Rightarrow> home option" where
  "loadSettingInfo now h =
     (case (cachedSetting now ''safeStatus'' h, cachedSetting now ''memoCarouselSetting'' h,
            cachedSetting now ''simpleNodeCarouselSetting'' h) of
        (Some a, Some b, Some c) \<Rightarrow>
          Some (h\<lparr>isSafety := a, memoCarouselSetting := b, simpleNodeCarouselSetting := c, carouselSettingReady := True\<rparr>)
      | _ \<Rightarrow> None)"

definition onSettingInfo ::
  "((string \<rightharpoonup> cached \<times> int) \<Rightarrow> bool) \<Rightarrow> int \<Rightarrow> string \<Rightarrow> string \<Rightarrow> string \<Rightarrow> home \<Rightarrow> home"
where
  "onSettingInfo takes now a b c h =
     (let put = (\<lambda>k v. setDashboardCache takes now k (Setting v) (DASHBOARD_CACHE_TTL ''safeStatus''))
      in h\<lparr>isSafety := a, memoCarouselSetting := b, simpleNodeCarouselSetting := c, carouselSettingReady := True,
           storage := put ''simpleNodeCarouselSetting'' c (put ''memoCarouselSetting'' b (put ''safeStatus'' a (storage h)))\<rparr>)"

text \<open>Refreshing on hover: which of the two lists is asked for again.\<close>

definition refreshOptionsOnHover :: "home \<Rightarrow> (bool \<times> bool) \<times> home" where
  "refreshOptionsOnHover h =
     (if hasRefreshedOptionsOnHover h \<or> \<not> netOptionsFromCache h \<and> \<not> ioOptionsFromCache h then ((False, False), h)
      else ((netOptionsFromCache h, ioOptionsFromCache h), h\<lparr>hasRefreshedOptionsOnHover := True\<rparr>))"

definition refreshDashboard :: "home \<Rightarrow> home" where
  "refreshDashboard h = h\<lparr>storage := clearDashboardCache (storage h), hasRefreshedOptionsOnHover := False\<rparr>"

text \<open>Saving a carousel setting. The variable \<open>target\<close> holds the text of the setting and not its reference, so
  that the assignment of its member \<open>value\<close> after a failed request raises.\<close>

datatype outcome = Done | Raised

definition updateDashboardCarouselSetting ::
  "((string \<rightharpoonup> cached \<times> int) \<Rightarrow> bool) \<Rightarrow> string \<Rightarrow> bool \<Rightarrow> home \<Rightarrow> outcome \<times> home"
where
  "updateDashboardCarouselSetting takes key succeeds h =
     (if \<not> carouselSettingReady h then (Done, h)
      else
        (let p = (if key = ''DashboardMemoVisible'' then ''memoCarouselSetting'' else ''simpleNodeCarouselSetting'');
             h1 = h\<lparr>storage := clearDashboardCacheByPrefix takes [p] (storage h)\<rparr>
         in (if succeeds then Done else Raised, h1)))"


section \<open>Properties\<close>

text \<open>What can happen to the page, with the values it put into the cache, the newest first: its own
  functions, the security entrance being set on the settings page, which drops a key, and the page
  being left and opened again.\<close>

inductive visited :: "home \<Rightarrow> (int \<times> string \<times> cached) list \<Rightarrow> bool" where
  visit_first: "storage h = Absent \<Longrightarrow> visited h []"
| visit_net_cached: "visited h log \<Longrightarrow> onLoadNetworkOptions now force h = Some h' \<Longrightarrow> visited h' log"
| visit_net: "visited h log \<Longrightarrow> visited (onNetworkOptions takes now os h) ((now, ''netOptions'', Options os) # log)"
| visit_io_cached: "visited h log \<Longrightarrow> onLoadIOOptions now force h = Some h' \<Longrightarrow> visited h' log"
| visit_io: "visited h log \<Longrightarrow> visited (onIOOptions takes now os h) ((now, ''ioOptions'', Options os) # log)"
| visit_setting_cached: "visited h log \<Longrightarrow> loadSettingInfo now h = Some h' \<Longrightarrow> visited h' log"
| visit_setting: "visited h log \<Longrightarrow> visited (onSettingInfo takes now a b c h)
    ((now, ''simpleNodeCarouselSetting'', Setting c) # (now, ''memoCarouselSetting'', Setting b) # (now, ''safeStatus'', Setting a) # log)"
| visit_hover: "visited h log \<Longrightarrow> visited (snd (refreshOptionsOnHover h)) log"
| visit_refresh: "visited h log \<Longrightarrow> visited (refreshDashboard h) log"
| visit_carousel: "visited h log \<Longrightarrow> visited (snd (updateDashboardCarouselSetting takes key succeeds h)) log"
| visit_default: "visited h log \<Longrightarrow> visited (h\<lparr>defaultNetwork := n, defaultIO := i\<rparr>) log"
| visit_entrance: "visited h log \<Longrightarrow> visited (h\<lparr>storage := clearDashboardCacheByPrefix takes [''safeStatus''] (storage h)\<rparr>) log"
| visit_again: "visited h log \<Longrightarrow> storage h' = storage h \<Longrightarrow> visited h' log"


lemma net_storage: "onLoadNetworkOptions now force h = Some h' \<Longrightarrow> storage h' = storage h"
  by (auto simp: onLoadNetworkOptions_def applyDefaultNetOption_def Let_def split: option.splits)

lemma io_storage: "onLoadIOOptions now force h = Some h' \<Longrightarrow> storage h' = storage h"
  by (auto simp: onLoadIOOptions_def applyDefaultIOOption_def Let_def split: option.splits)

lemma setting_storage: "loadSettingInfo now h = Some h' \<Longrightarrow> storage h' = storage h"
  by (auto simp: loadSettingInfo_def split: option.splits)

definition timed :: "int \<times> string \<times> cached \<Rightarrow> int \<times> string \<times> cached \<times> int" where
  "timed e = (case e of (t, k, v) \<Rightarrow> (t, k, v, DASHBOARD_CACHE_TTL k))"

lemma visited_run: "visited h log \<Longrightarrow> dc.run (storage h) (map timed log)"
proof (induction rule: visited.induct)
  case (visit_net h log takes now os)
  have "stores now ''netOptions'' (Options os) (DASHBOARD_CACHE_TTL ''netOptions'') (storage h) (storage (onNetworkOptions takes now os h))"
    by (auto simp: stores_def onNetworkOptions_def applyDefaultNetOption_def Let_def)
  with visit_net.IH show ?case by (simp add: timed_def dc.run_put)
next
  case (visit_io h log takes now os)
  have "stores now ''ioOptions'' (Options os) (DASHBOARD_CACHE_TTL ''ioOptions'') (storage h) (storage (onIOOptions takes now os h))"
    by (auto simp: stores_def onIOOptions_def applyDefaultIOOption_def Let_def)
  with visit_io.IH show ?case by (simp add: timed_def dc.run_put)
next
  case (visit_setting h log takes now a b c)
  have put: "dc.run (setDashboardCache takes now k v ttl s) ((now, k, v, ttl) # l)" if "dc.run s l" for k v ttl s l
    by (rule dc.run_put [OF that]) (auto simp: stores_def)
  show ?case
    using put [OF put [OF put [OF visit_setting.IH]]] by (simp add: onSettingInfo_def timed_def DASHBOARD_CACHE_TTL_def Let_def)
next
  case (visit_refresh h log)
  then show ?case by (simp add: refreshDashboard_def dc.run_forget [OF _ drops_clear(1)])
next
  case (visit_carousel h log takes key succeeds)
  then show ?case by (auto simp: updateDashboardCarouselSetting_def Let_def intro: dc.run_forget [OF _ drops_clear(2)])
next
  case (visit_entrance h log takes)
  then show ?case by (simp add: dc.run_forget [OF _ drops_clear(2)])
qed (auto simp: net_storage io_storage setting_storage refreshOptionsOnHover_def dc.run_empty)

lemma find_timed: "find (\<lambda>(_, k', _, _). k' = k) (map timed log) = map_option timed (find (\<lambda>(_, k', _). k' = k) log)"
  by (induction log) (auto simp: timed_def split: prod.splits)

lemma visited_fresh:
  assumes "visited h log" "getDashboardCache t k (storage h) = Some v"
  shows "\<exists>t0. find (\<lambda>(_, k', _). k' = k) log = Some (t0, k, v) \<and> t < t0 + DASHBOARD_CACHE_TTL k"
  using dc.run_fresh [OF visited_run [OF assms(1)] assms(2)] by (auto simp: find_timed timed_def)

lemma setting_fresh:
  assumes "visited h log" "cachedSetting now k h = Some v"
  shows "\<exists>t0. find (\<lambda>(_, k', _). k' = k) log = Some (t0, k, Setting v) \<and> now < t0 + DASHBOARD_CACHE_TTL k"
  using visited_fresh [OF assms(1), of now k] assms(2) by (simp add: cachedSetting_def split: option.splits cached.splits)

lemma options_fresh:
  assumes "visited h log" "cachedOptions now k h = Some os"
  shows "\<exists>t0. find (\<lambda>(_, k', _). k' = k) log = Some (t0, k, Options os) \<and> now < t0 + DASHBOARD_CACHE_TTL k"
  using visited_fresh [OF assms(1), of now k] assms(2) by (simp add: cachedOptions_def split: option.splits cached.splits)

lemma setting_takes:
  assumes "loadSettingInfo now h = Some h'"
  shows "cachedSetting now ''safeStatus'' h = Some (isSafety h')"
    "cachedSetting now ''memoCarouselSetting'' h = Some (memoCarouselSetting h')"
    "cachedSetting now ''simpleNodeCarouselSetting'' h = Some (simpleNodeCarouselSetting h')"
  using assms by (auto simp: loadSettingInfo_def split: option.splits)

text \<open>C26. Nothing the page takes from its cache is stale: each of the two lists of options and of the three
  settings (the security entrance, the memo and the node carousel) is the value that the page stored last under
  its own key, less than an hour ago for the options and less than ten minutes ago for the settings.\<close>

theorem dashboard_fresh:
  assumes "visited h log"
  shows "(onLoadNetworkOptions now force h = Some h' \<longrightarrow>
      (\<exists>t0. find (\<lambda>(_, k, _). k = ''netOptions'') log = Some (t0, ''netOptions'', Options (netOptions h')) \<and> now < t0 + 3600000)) \<and>
    (onLoadIOOptions now force h = Some h' \<longrightarrow>
      (\<exists>t0. find (\<lambda>(_, k, _). k = ''ioOptions'') log = Some (t0, ''ioOptions'', Options (ioOptions h')) \<and> now < t0 + 3600000)) \<and>
    (loadSettingInfo now h = Some h' \<longrightarrow>
      (\<exists>t0. find (\<lambda>(_, k, _). k = ''safeStatus'') log = Some (t0, ''safeStatus'', Setting (isSafety h')) \<and> now < t0 + 600000) \<and>
      (\<exists>t0. find (\<lambda>(_, k, _). k = ''memoCarouselSetting'') log = Some (t0, ''memoCarouselSetting'', Setting (memoCarouselSetting h')) \<and> now < t0 + 600000) \<and>
      (\<exists>t0. find (\<lambda>(_, k, _). k = ''simpleNodeCarouselSetting'') log = Some (t0, ''simpleNodeCarouselSetting'', Setting (simpleNodeCarouselSetting h')) \<and> now < t0 + 600000))"
proof (intro conjI impI)
  note ttl = DASHBOARD_CACHE_TTL_def
  show "\<exists>t0. find (\<lambda>(_, k, _). k = ''netOptions'') log = Some (t0, ''netOptions'', Options (netOptions h')) \<and> now < t0 + 3600000"
    if "onLoadNetworkOptions now force h = Some h'"
    using that options_fresh [OF assms, of now "''netOptions''"]
    by (auto simp: onLoadNetworkOptions_def applyDefaultNetOption_def ttl Let_def split: if_splits option.splits)
  show "\<exists>t0. find (\<lambda>(_, k, _). k = ''ioOptions'') log = Some (t0, ''ioOptions'', Options (ioOptions h')) \<and> now < t0 + 3600000"
    if "onLoadIOOptions now force h = Some h'"
    using that options_fresh [OF assms, of now "''ioOptions''"]
    by (auto simp: onLoadIOOptions_def applyDefaultIOOption_def ttl Let_def split: if_splits option.splits)
  assume t: "loadSettingInfo now h = Some h'"
  show "\<exists>t0. find (\<lambda>(_, k, _). k = ''safeStatus'') log = Some (t0, ''safeStatus'', Setting (isSafety h')) \<and> now < t0 + 600000"
    using setting_fresh [OF assms setting_takes(1) [OF t]] by (simp add: ttl)
  show "\<exists>t0. find (\<lambda>(_, k, _). k = ''memoCarouselSetting'') log = Some (t0, ''memoCarouselSetting'', Setting (memoCarouselSetting h')) \<and> now < t0 + 600000"
    using setting_fresh [OF assms setting_takes(2) [OF t]] by (simp add: ttl)
  show "\<exists>t0. find (\<lambda>(_, k, _). k = ''simpleNodeCarouselSetting'') log = Some (t0, ''simpleNodeCarouselSetting'', Setting (simpleNodeCarouselSetting h')) \<and> now < t0 + 600000"
    using setting_fresh [OF assms setting_takes(3) [OF t]] by (simp add: ttl)
qed

definition freshHome :: home where
  "freshHome = \<lparr>storage = Absent, netOptions = [], netOptionsFromCache = False, ioOptions = [], ioOptionsFromCache = False,
     netOption = [], ioOption = [], defaultNetwork = [], defaultIO = [], isSafety = [], memoCarouselSetting = [],
     simpleNodeCarouselSetting = [], carouselSettingReady = False, hasRefreshedOptionsOnHover = False\<rparr>"

definition cachedHome :: home where
  "cachedHome = onNetworkOptions (\<lambda>_. True) 5 [''eth0''] freshHome"

theorem dashboard_fresh_witness:
  "\<exists>h'. onLoadNetworkOptions 9 False cachedHome = Some h' \<and>
     (\<exists>t0. find (\<lambda>(_, k, _). k = ''netOptions'') [(5 :: int, ''netOptions'', Options [''eth0''])] =
        Some (t0, ''netOptions'', Options (netOptions h')) \<and> 9 < t0 + 3600000)"
proof -
  have v: "visited cachedHome [(5, ''netOptions'', Options [''eth0''])]"
    unfolding cachedHome_def by (intro visit_net visit_first) (simp add: freshHome_def)
  have "onLoadNetworkOptions 9 False cachedHome \<noteq> None"
    by (simp add: cachedHome_def freshHome_def onNetworkOptions_def onLoadNetworkOptions_def cachedOptions_def applyDefaultNetOption_def
        setDashboardCache_def setItem_def getDashboardCache_def readCache_def DASHBOARD_CACHE_TTL_def Let_def)
  then obtain h' where h': "onLoadNetworkOptions 9 False cachedHome = Some h'" by blast
  then show ?thesis using dashboard_fresh [OF v, of 9 False h'] by (intro exI [of _ h']) blast
qed

text \<open>Saving a carousel setting never writes the setting: when the request fails, the page raises an
  error and keeps the value that was not saved.\<close>

theorem carousel_no_rollback:
  "(fst (updateDashboardCarouselSetting takes key succeeds h) = Raised \<longleftrightarrow> carouselSettingReady h \<and> \<not> succeeds) \<and>
   memoCarouselSetting (snd (updateDashboardCarouselSetting takes key succeeds h)) = memoCarouselSetting h \<and>
   simpleNodeCarouselSetting (snd (updateDashboardCarouselSetting takes key succeeds h)) = simpleNodeCarouselSetting h"
  by (simp add: updateDashboardCarouselSetting_def Let_def)

end
