(* ===== verification/File_Utils.thy ===== *)
theory File_Utils
  imports JS_Number "HOL-Library.Multiset"
begin

text \<open>
  Files: their icons, types and editor languages and the file name in a link (\<open>utils/file.ts\<close>, with the table
  of languages in \<open>global/mimetype.ts\<close>), and the sizes of directories (\<open>views/host/file-management/size-cache.ts\<close>).
  The browser's URL parser and \<open>decodeURIComponent\<close> are parameters; what is shown of file names holds
  for every decoder.
\<close>

section \<open>Icons, types and languages\<close>

definition icons :: "(string \<times> string) list" where
  "icons =
    [(''.zip'', ''p-file-zip''), (''.gz'', ''p-file-zip''), (''.tar.bz2'', ''p-file-zip''), (''.bz2'', ''p-file-zip''),
     (''.xz'', ''p-file-zip''), (''.tar.xz'', ''p-file-zip''), (''.tar'', ''p-file-zip''), (''.tar.gz'', ''p-file-zip''),
     (''.war'', ''p-file-zip''), (''.tgz'', ''p-file-zip''), (''.7z'', ''p-file-zip''), (''.rar'', ''p-file-zip''),
     (''.mp3'', ''p-file-mp3''), (''.svg'', ''p-file-svg''), (''.txt'', ''p-file-txt''), (''.html'', ''p-file-html''),
     (''.word'', ''p-file-word''), (''.ppt'', ''p-file-ppt''), (''.jpg'', ''p-file-jpg''), (''.jpeg'', ''p-file-jpg''),
     (''.png'', ''p-file-png''), (''.xlsx'', ''p-file-excel''), (''.doc'', ''p-file-word''), (''.xls'', ''p-file-excel''),
     (''.docx'', ''p-file-word''), (''.pdf'', ''p-file-pdf''), (''.bmp'', ''p-file-png''), (''.gif'', ''p-file-png''),
     (''.tiff'', ''p-file-png''), (''.ico'', ''p-file-png''), (''.webp'', ''p-file-png''), (''.mp4'', ''p-file-video''),
     (''.webm'', ''p-file-video''), (''.mov'', ''p-file-video''), (''.wmv'', ''p-file-video''), (''.mkv'', ''p-file-video''),
     (''.avi'', ''p-file-video''), (''.wma'', ''p-file-video''), (''.flv'', ''p-file-video''), (''.wav'', ''p-file-mp3''),
     (''.wma'', ''p-file-mp3''), (''.ape'', ''p-file-mp3''), (''.acc'', ''p-file-mp3''), (''.ogg'', ''p-file-mp3''),
     (''.flac'', ''p-file-mp3'')]"

definition fileTypes :: "(string \<times> string list) list" where
  "fileTypes =
    [(''image'', [''.jpg'', ''.jpeg'', ''.png'', ''.bmp'', ''.gif'', ''.tiff'', ''.ico'', ''.svg'', ''.webp'']),
     (''compress'', [''.zip'', ''.rar'', ''.gz'', ''.war'', ''.tgz'', ''.7z'', ''.tar.gz'', ''.tar'', ''.bz2'', ''.xz'', ''.tar.bz2'', ''.tar.xz'']),
     (''video'', [''.mp4'', ''.webm'', ''.mov'', ''.wmv'', ''.mkv'', ''.avi'', ''.wma'', ''.flv'']),
     (''audio'', [''.mp3'', ''.wav'', ''.wma'', ''.ape'', ''.acc'', ''.ogg'', ''.flac'']),
     (''pdf'', [''.pdf'']),
     (''word'', [''.doc'', ''.docx'']),
     (''excel'', [''.xls'', ''.xlsx'']),
     (''text'', [''.iso'', ''.tiff'', ''.exe'', ''.so'', ''.bz'', ''.dmg'', ''.apk'', ''.pptx'', ''.ppt'', ''.xlsb''])]"

text \<open>Of two entries with the same key, the later one counts.\<close>

definition getIcon :: "string \<Rightarrow> string" where
  "getIcon extension = (case map_of (rev icons) extension of Some i \<Rightarrow> i | None \<Rightarrow> ''p-file-normal'')"

definition getFileType :: "string \<Rightarrow> string" where
  "getFileType extension =
     fold (\<lambda>(key, extensions) t. if toLowerCase extension \<in> set extensions then key else t) fileTypes ''text''"

definition isConvertible :: "string \<Rightarrow> string \<Rightarrow> bool" where
  "isConvertible extension mimeType =
     (getFileType extension \<in> {''image'', ''video'', ''audio''} \<and>
      list_ex (\<lambda>p. prefix p mimeType) [''image/'', ''audio/'', ''video/''])"

definition isSensitiveLinuxPath :: "string \<Rightarrow> bool" where
  "isSensitiveLinuxPath path =
     (path \<in> set [''/'', ''/bin'', ''/sbin'', ''/usr/bin'', ''/usr/sbin'', ''/usr/local/bin'', ''/etc'', ''/lib'', ''/lib64'', ''/usr/lib'', ''/home'', ''/tmp'', ''/var'', ''/dev'', ''/proc'', ''/sys''])"

definition Languages :: "(string \<times> string list) list" where
  "Languages =
    [(''plaintext'', [''txt'']), (''json'', [''json'']), (''vue'', [''vue'']), (''typescript'', [''ts'']), (''lua'', [''lua'']),
     (''markdown'', [''md'']), (''dockerfile'', [''dockerfile'']), (''yaml'', [''yml'', ''yaml'']), (''xml'', [''xml'']), (''php'', [''php'']),
     (''sql'', [''sql'']), (''go'', [''go'']), (''html'', [''html'']), (''javascript'', [''js'']), (''java'', [''java'']),
     (''kotlin'', [''kt'']), (''python'', [''py'']), (''redis'', [''redis'']), (''shell'', [''sh'']), (''css'', [''css'']),
     (''ini'', [''ini''])]"

definition editorLanguages :: "string \<rightharpoonup> string" where
  "editorLanguages = map_of (rev (concat (map (\<lambda>(label, exts). map (\<lambda>ext. (toLowerCase ext, label)) exts) Languages)))"

definition normalizeEditorExtension :: "string \<Rightarrow> string" where
  "normalizeEditorExtension v =
     (let trimmed = toLowerCase (trim v)
      in if trimmed = [] then [] else if hd trimmed = CHR ''.'' then tl trimmed else trimmed)"

definition isSpecialEditorFileName :: "string \<Rightarrow> bool" where
  "isSpecialEditorFileName v = (toLowerCase (trim v) = ''dockerfile'')"

definition resolveEditorLanguage :: "string \<Rightarrow> string \<Rightarrow> string \<Rightarrow> string" where
  "resolveEditorLanguage path extension name =
     (if isSpecialEditorFileName name then ''dockerfile''
      else
        (let fileName = last (splitOn (CHR ''/'') path);
             candidates = filter (\<lambda>e. e \<noteq> []) (map normalizeEditorExtension [extension, fileName])
         in case List.find (\<lambda>e. editorLanguages e \<noteq> None) candidates of
              Some e \<Rightarrow> the (editorLanguages e)
            | None \<Rightarrow> if isSpecialEditorFileName fileName then ''dockerfile'' else ''yaml''))"


section \<open>The file name in a link\<close>

definition isControl :: "nat \<Rightarrow> bool" where
  "isControl c \<longleftrightarrow> c \<le> 31 \<or> c = 127"

definition isQuote :: "nat \<Rightarrow> bool" where
  "isQuote c \<longleftrightarrow> c = 39 \<or> c = 34"

text \<open>\<open>replace (/^['"]|['"]$/g, '')\<close>: one quote at each end.\<close>

definition stripQuotes :: "jstr \<Rightarrow> jstr" where
  "stripQuotes s =
     (let t = (if s \<noteq> [] \<and> isQuote (hd s) then tl s else s)
      in if t \<noteq> [] \<and> isQuote (last t) then butlast t else t)"

text \<open>The last piece of a split at slashes and backslashes.\<close>

definition lastPiece :: "jstr \<Rightarrow> jstr" where
  "lastPiece s = rev (takeWhile (\<lambda>c. c \<noteq> 47 \<and> c \<noteq> 92) (rev s))"

definition normalizeUrlFilename :: "(jstr \<Rightarrow> jstr option) \<Rightarrow> jstr \<Rightarrow> jstr" where
  "normalizeUrlFilename decode v =
     (let stripped = stripQuotes (trimU v);
          decoded = (case decode stripped of Some d \<Rightarrow> d | None \<Rightarrow> stripped)
      in trimU (lastPiece (filter (\<lambda>c. \<not> isControl c) decoded)))"

text \<open>\<open>/(?:^|;)\s*filename\s*=\s*(?:"([^"]*)"|([^;]*))/i\<close>, with the star of the extended form or without: the
  places where a match may begin, the text after the equals sign, and the two groups.\<close>

fun starts :: "jstr \<Rightarrow> jstr list" where
  "starts [] = []"
| "starts (c # s) = (if c = 59 then s # starts s else starts s)"

definition lowerAscii :: "nat \<Rightarrow> nat" where
  "lowerAscii c = (if 65 \<le> c \<and> c \<le> 90 then c + 32 else c)"

definition afterName :: "jstr \<Rightarrow> jstr \<Rightarrow> jstr option" where
  "afterName name s =
     (let t = dropWhile isSpaceU s; u = dropWhile isSpaceU (drop (length name) t)
      in if map lowerAscii (take (length name) t) = name \<and> u \<noteq> [] \<and> hd u = 61 then Some (dropWhile isSpaceU (tl u)) else None)"

definition groups :: "jstr \<Rightarrow> jstr option \<times> jstr option" where
  "groups s =
     (if s \<noteq> [] \<and> hd s = 34 \<and> 34 \<in> set (tl s) then (Some (takeWhile (\<lambda>c. c \<noteq> 34) (tl s)), None)
      else (None, Some (takeWhile (\<lambda>c. c \<noteq> 59) s)))"

definition matchName :: "jstr \<Rightarrow> jstr \<Rightarrow> (jstr option \<times> jstr option) option" where
  "matchName name s = map_option groups (List.find (\<lambda>_. True) (List.map_filter (afterName name) (s # starts s)))"

text \<open>\<open>/^[^']*'[^']*'(.*)$/\<close>: what follows the second quote mark, if it has no line end.\<close>

definition afterCharset :: "jstr \<Rightarrow> jstr option" where
  "afterCharset s =
     (let t = dropWhile (\<lambda>c. c \<noteq> 39) s; u = dropWhile (\<lambda>c. c \<noteq> 39) (tl t)
      in if t = [] \<or> u = [] \<or> list_ex (\<lambda>c. c \<in> {10, 13, 8232, 8233}) (tl u) then None else Some (tl u))"

definition orElse :: "jstr option \<Rightarrow> jstr option \<Rightarrow> jstr option" where
  "orElse a b = (case a of Some v \<Rightarrow> if v \<noteq> [] then Some v else b | None \<Rightarrow> b)"

definition getFilenameFromContentDisposition :: "(jstr \<Rightarrow> jstr option) \<Rightarrow> jstr \<Rightarrow> jstr" where
  "getFilenameFromContentDisposition decode d =
     (let extended = (case matchName (units ''filename*'') d of None \<Rightarrow> None | Some (a, b) \<Rightarrow> orElse a (map_option trimU b))
      in case orElse extended None of
           Some ext \<Rightarrow> normalizeUrlFilename decode (case orElse (afterCharset ext) None of Some e \<Rightarrow> e | None \<Rightarrow> ext)
         | None \<Rightarrow>
             (let plain = (case matchName (units ''filename'') d of None \<Rightarrow> None | Some (a, b) \<Rightarrow> orElse a b)
              in normalizeUrlFilename decode (case plain of Some p \<Rightarrow> p | None \<Rightarrow> [])))"

text \<open>The parsed link: its path and its parameters in order.\<close>

definition lowerKey :: "jstr \<Rightarrow> jstr" where
  "lowerKey k = map lowerAscii k"

definition fromLast :: "nat \<Rightarrow> jstr \<Rightarrow> jstr" where
  "fromLast c s = rev (takeWhile (\<lambda>x. x \<noteq> c) (rev s))"

definition dispositionName :: "(jstr \<Rightarrow> jstr option) \<Rightarrow> (jstr \<times> jstr) list \<Rightarrow> jstr \<Rightarrow> jstr" where
  "dispositionName decode params key =
     (case List.find (\<lambda>(k, v). lowerKey k = key) params of
        Some (k, v) \<Rightarrow> if v \<noteq> [] then getFilenameFromContentDisposition decode v else []
      | None \<Rightarrow> [])"

text \<open>\<open>replace (/[?#].*$/, '')\<close>.\<close>

fun cutQuery :: "jstr \<Rightarrow> jstr" where
  "cutQuery [] = []"
| "cutQuery (c # s) = (if (c = 63 \<or> c = 35) \<and> \<not> list_ex (\<lambda>x. x \<in> {10, 13, 8232, 8233}) s then [] else c # cutQuery s)"

definition getFilenameFromUrl ::
  "(jstr \<Rightarrow> jstr option) \<Rightarrow> (jstr \<Rightarrow> (jstr \<times> (jstr \<times> jstr) list) option) \<Rightarrow> jstr \<Rightarrow> jstr"
where
  "getFilenameFromUrl decode parseURL v =
     (let normalizedValue = trimU v
      in case parseURL normalizedValue of
           Some (pathname, params) \<Rightarrow>
             (case List.find (\<lambda>n. n \<noteq> []) (map (dispositionName decode params)
                [units ''response-content-disposition'', units ''rscd'', units ''content-disposition'']) of
                Some n \<Rightarrow> n
              | None \<Rightarrow> normalizeUrlFilename decode (fromLast 47 pathname))
         | None \<Rightarrow>
             normalizeUrlFilename decode (fromLast 47 (cutQuery normalizedValue)))"


section \<open>Sizes of directories\<close>

record FileSizeItem =
  path :: string
  fsize :: int
  isDir :: bool
  dirSize :: "int option"

definition updateDirSizeCache :: "(string \<rightharpoonup> int) \<Rightarrow> (string \<times> int) list \<Rightarrow> (string \<rightharpoonup> int)" where
  "updateDirSizeCache cache items = fold (\<lambda>(p, s) m. m(p \<mapsto> s)) items cache"

definition mergeDirSizeCache :: "FileSizeItem list \<Rightarrow> (string \<rightharpoonup> int) \<Rightarrow> FileSizeItem list" where
  "mergeDirSizeCache items cache =
     (if cache = Map.empty then items
      else map (\<lambda>item. if \<not> isDir item \<or> cache (path item) = None then item else item\<lparr>dirSize := cache (path item)\<rparr>) items)"

definition displaySize :: "FileSizeItem \<Rightarrow> int" where
  "displaySize item = (case dirSize item of Some d \<Rightarrow> if isDir item then d else fsize item | None \<Rightarrow> fsize item)"

text \<open>The sort of the language is stable.\<close>

definition sortFilesByDisplaySize :: "FileSizeItem list \<Rightarrow> string option \<Rightarrow> FileSizeItem list" where
  "sortFilesByDisplaySize items order =
     (if order = Some ''ascending'' then sort_key displaySize items
      else if order = Some ''descending'' then sort_key (\<lambda>item. - displaySize item) items
      else items)"


section \<open>Properties\<close>

lemma trimU_sub: "set (trimU s) \<subseteq> set s"
  unfolding trimU_def by (auto dest!: set_dropWhileD)

definition clean :: "jstr \<Rightarrow> bool" where
  "clean n \<longleftrightarrow> set n \<inter> ({47, 92} \<union> Collect isControl) = {}"

lemma filename_clean: "clean (normalizeUrlFilename decode v)"
proof -
  let ?d = "filter (\<lambda>c. \<not> isControl c) (case decode (stripQuotes (trimU v)) of Some d \<Rightarrow> d | None \<Rightarrow> stripQuotes (trimU v))"
  have "set (lastPiece ?d) \<inter> ({47, 92} \<union> Collect isControl) = {}"
    by (auto simp: lastPiece_def dest!: set_takeWhileD)
  moreover have "normalizeUrlFilename decode v = trimU (lastPiece ?d)" by (simp add: normalizeUrlFilename_def Let_def)
  ultimately show ?thesis using trimU_sub [of "lastPiece ?d"] unfolding clean_def by auto
qed

lemma disposition_filename: "\<exists>x. getFilenameFromContentDisposition decode d = normalizeUrlFilename decode x"
  unfolding getFilenameFromContentDisposition_def Let_def
  by (cases "orElse (case matchName (units ''filename*'') d of None \<Rightarrow> None | Some (a, b) \<Rightarrow> orElse a (map_option trimU b)) None") auto

lemma disposition_clean: "clean (dispositionName decode params key)"
proof -
  have "clean []" by (simp add: clean_def)
  moreover have "clean (getFilenameFromContentDisposition decode d)" for d using disposition_filename filename_clean by metis
  ultimately show ?thesis unfolding dispositionName_def by (simp split: option.split prod.split)
qed

lemma find_in: "List.find P xs = Some x \<Longrightarrow> x \<in> set xs"
  by (induction xs) (auto split: if_splits)

text \<open>C27. The file name taken from a link has no slash, no backslash and no control character, whatever the link
  and its parameters hold, quoted, encoded or in a disposition header: it is a single component of
  a path, though it may be one or two dots.\<close>

theorem filename_in_directory:
  "set (getFilenameFromUrl decode parseURL v) \<inter> ({47, 92, 127} \<union> {0..31}) = {}"
proof -
  have "clean (getFilenameFromUrl decode parseURL v)"
  proof (cases "parseURL (trimU v)")
    case None
    then show ?thesis using filename_clean by (simp add: getFilenameFromUrl_def Let_def)
  next
    case (Some u)
    obtain pathname params where u: "u = (pathname, params)" by (cases u)
    define names where "names = map (dispositionName decode params)
      [units ''response-content-disposition'', units ''rscd'', units ''content-disposition'']"
    have "\<forall>n \<in> set names. clean n" unfolding names_def using disposition_clean by simp
    moreover have "getFilenameFromUrl decode parseURL v =
        (case List.find (\<lambda>n. n \<noteq> []) names of Some n \<Rightarrow> n | None \<Rightarrow> normalizeUrlFilename decode (fromLast 47 pathname))"
      unfolding getFilenameFromUrl_def Let_def Some u names_def by (simp only: option.case prod.case)
    ultimately show ?thesis using filename_clean by (auto simp del: find.simps split: option.split dest!: find_in)
  qed
  moreover have "{47, 92, 127} \<union> {0..31} = {47, 92} \<union> Collect isControl" by (auto simp: isControl_def)
  ultimately show ?thesis by (simp only: clean_def)
qed

text \<open>Sorting files by the shown size gives the same files, in the order of the shown size, equal ones in
  the order they had; the shown size of a directory is the cached one where there is one.\<close>

theorem sorted_files:
  "mset (sortFilesByDisplaySize items order) = mset items \<and>
   filter (\<lambda>x. displaySize x = k) (sortFilesByDisplaySize items order) = filter (\<lambda>x. displaySize x = k) items \<and>
   sorted (map displaySize (sortFilesByDisplaySize items (Some ''ascending''))) \<and>
   sorted (rev (map displaySize (sortFilesByDisplaySize items (Some ''descending'')))) \<and>
   map displaySize (mergeDirSizeCache items cache) =
     map (\<lambda>x. if isDir x then (case cache (path x) of Some s \<Rightarrow> s | None \<Rightarrow> displaySize x) else displaySize x) items"
proof -
  have stable: "filter (\<lambda>x. displaySize x = k) (sort_key (\<lambda>x. - displaySize x) items) = filter (\<lambda>x. displaySize x = k) items"
    using sort_key_stable [of "\<lambda>x. - displaySize x" "- k" items] by simp
  have "sorted (map (\<lambda>x. - displaySize x) xs) \<longleftrightarrow> sorted (rev (map displaySize xs))" for xs
    by (induction xs) (auto simp: sorted_append)
  then have "sorted (rev (map displaySize (sort_key (\<lambda>x. - displaySize x) items)))" using sorted_sort_key by blast
  moreover have "map displaySize (mergeDirSizeCache items cache) =
     map (\<lambda>x. if isDir x then (case cache (path x) of Some s \<Rightarrow> s | None \<Rightarrow> displaySize x) else displaySize x) items"
    by (auto simp: mergeDirSizeCache_def displaySize_def split: option.splits)
  ultimately show ?thesis using stable by (simp add: sortFilesByDisplaySize_def sort_key_stable)
qed

text \<open>Every extension with the icon of an image has the type of an image but \<open>.tiff\<close>, which a later entry of
  the table makes a text.\<close>

theorem image_types:
  "{e \<in> set (concat (map snd fileTypes)). getIcon e \<in> {''p-file-png'', ''p-file-jpg'', ''p-file-svg''} \<and> getFileType e \<noteq> ''image''} =
   {''.tiff''}"
proof -
  have "filter (\<lambda>e. getIcon e \<in> {''p-file-png'', ''p-file-jpg'', ''p-file-svg''} \<and> getFileType e \<noteq> ''image'') (concat (map snd fileTypes)) =
      [''.tiff'', ''.tiff'']" by code_simp
  then have "set (filter (\<lambda>e. getIcon e \<in> {''p-file-png'', ''p-file-jpg'', ''p-file-svg''} \<and> getFileType e \<noteq> ''image'') (concat (map snd fileTypes))) =
      {''.tiff''}" by simp
  then show ?thesis unfolding set_filter .
qed

end
