(* ===== verification/Stepper.thy ===== *)
theory Stepper
  imports Prelude
begin

text \<open>
  The stepper behind the wizards of the panel (\<open>components/fu/steps/Stepper.ts\<close>, started as in
  \<open>components/fu/steps/FuHorizontalSteps.ts\<close>). \<open>active\<close> waits twice for a hook, so calls overlap: a call in flight is
  a record in the state, and each answer of a hook is a step of its own, in any order.
\<close>

section \<open>The stepper\<close>

text \<open>Of the options only the hooks and the number of steps matter to where the stepper goes. A hook is
  the step's own, the stepper's, or missing.\<close>

record Step =
  ownBeforeLeave :: bool
  ownBeforeActive :: bool

datatype hook = StepHook int bool | StepperHook int bool | NoHook

datatype phase = Leaving | Activating

record call =
  target :: int
  forward :: bool
  phase :: phase
  asked :: hook

record Stepper =
  steps :: "Step list"
  index :: int
  activeSet :: "int set"
  beforeLeave :: bool
  beforeActive :: bool
  inFlight :: "call list"

definition startStepper :: "Step list \<Rightarrow> bool \<Rightarrow> bool \<Rightarrow> Stepper" where
  "startStepper ss leave act =
     \<lparr>steps = ss, index = 0, activeSet = {0}, beforeLeave = leave, beforeActive = act, inFlight = []\<rparr>"

definition isFirst :: "int \<Rightarrow> Stepper \<Rightarrow> bool" where
  "isFirst i s = (i = 0)"

definition isLast :: "int \<Rightarrow> Stepper \<Rightarrow> bool" where
  "isLast i s = (i = int (length (steps s)) - 1)"

definition isActive :: "int \<Rightarrow> Stepper \<Rightarrow> bool" where
  "isActive i s = (i \<in> activeSet s)"

definition isCurrent :: "int \<Rightarrow> Stepper \<Rightarrow> bool" where
  "isCurrent i s = (index s = i)"

definition getStep :: "int \<Rightarrow> Stepper \<Rightarrow> Step option" where
  "getStep i s = (if 0 \<le> i \<and> i < int (length (steps s)) then Some (steps s ! nat i) else None)"

definition executeBeforeLeave :: "int \<Rightarrow> bool \<Rightarrow> Stepper \<Rightarrow> hook" where
  "executeBeforeLeave i fwd s =
     (if (case getStep i s of Some st \<Rightarrow> ownBeforeLeave st | None \<Rightarrow> False) then StepHook i fwd
      else if beforeLeave s then StepperHook i fwd else NoHook)"

definition executeBeforeActive :: "int \<Rightarrow> bool \<Rightarrow> Stepper \<Rightarrow> hook" where
  "executeBeforeActive i fwd s =
     (if (case getStep i s of Some st \<Rightarrow> ownBeforeActive st | None \<Rightarrow> False) then StepHook i fwd
      else if beforeActive s then StepperHook i fwd else NoHook)"

text \<open>\<open>active\<close> up to its first wait, and what follows an answer: \<open>Some False\<close> is the answer false, \<open>Some True\<close> any
  other answer, \<open>None\<close> an exception.\<close>

definition active :: "int \<Rightarrow> Stepper \<Rightarrow> Stepper" where
  "active i s =
     (if 0 \<le> i \<and> i < int (length (steps s)) \<and> index s \<noteq> i
      then (let fwd = i > index s
            in s\<lparr>inFlight := inFlight s @
                 [\<lparr>target = i, forward = fwd, phase = Leaving, asked = executeBeforeLeave (index s) fwd s\<rparr>]\<rparr>)
      else s)"

definition without :: "nat \<Rightarrow> 'a list \<Rightarrow> 'a list" where
  "without k xs = take k xs @ drop (Suc k) xs"

definition resume :: "nat \<Rightarrow> bool option \<Rightarrow> Stepper \<Rightarrow> Stepper" where
  "resume k answer s =
     (let c = inFlight s ! k
      in if answer \<noteq> Some True then s\<lparr>inFlight := without k (inFlight s)\<rparr>
         else case phase c of
           Leaving \<Rightarrow> s\<lparr>inFlight := (inFlight s)[k := c\<lparr>phase := Activating,
             asked := executeBeforeActive (target c) (forward c) s\<rparr>]\<rparr>
         | Activating \<Rightarrow>
             s\<lparr>index := target c, activeSet := insert (target c) (activeSet s), inFlight := without k (inFlight s)\<rparr>)"

definition next_step :: "Stepper \<Rightarrow> Stepper" where
  "next_step s = (if \<not> isLast (index s) s then active (index s + 1) s else s)"

definition prev_step :: "Stepper \<Rightarrow> Stepper" where
  "prev_step s = (if \<not> isFirst (index s) s then active (index s - 1) s else s)"

text \<open>A missing hook does not refuse.\<close>

inductive stepper_step :: "Stepper \<Rightarrow> Stepper \<Rightarrow> bool" where
  call_active: "stepper_step s (active i s)"
| call_next: "stepper_step s (next_step s)"
| call_prev: "stepper_step s (prev_step s)"
| answered: "k < length (inFlight s) \<Longrightarrow> asked (inFlight s ! k) = NoHook \<longrightarrow> answer = Some True \<Longrightarrow>
    stepper_step s (resume k answer s)"

inductive stepper_reach :: "Stepper \<Rightarrow> bool" where
  reach_start: "ss \<noteq> [] \<Longrightarrow> stepper_reach (startStepper ss leave act)"
| reach_next: "stepper_reach s \<Longrightarrow> stepper_step s s' \<Longrightarrow> stepper_reach s'"

inductive_cases stepper_stepE: "stepper_step s s'"


section \<open>Where it can be\<close>

definition inRange :: "Stepper \<Rightarrow> int \<Rightarrow> bool" where
  "inRange s i \<longleftrightarrow> 0 \<le> i \<and> i < int (length (steps s))"

definition wellStepped :: "Stepper \<Rightarrow> bool" where
  "wellStepped s \<longleftrightarrow> index s \<in> activeSet s \<and> (\<forall>i \<in> activeSet s. inRange s i) \<and> (\<forall>c \<in> set (inFlight s). inRange s (target c))"

lemma without_set: "set (without k xs) \<subseteq> set xs"
  using set_take_subset [of k xs] set_drop_subset [of "Suc k" xs] by (auto simp: without_def)

lemma active_well: "wellStepped s \<Longrightarrow> wellStepped (active i s)"
  by (auto simp: active_def wellStepped_def inRange_def Let_def)

lemma resume_well:
  assumes "wellStepped s" "k < length (inFlight s)"
  shows "wellStepped (resume k answer s)"
proof -
  let ?c = "inFlight s ! k"
  have c: "inRange s (target ?c)" using assms by (auto simp: wellStepped_def)
  have w: "\<forall>x \<in> set (without k (inFlight s)). inRange s (target x)" using assms(1) without_set by (fastforce simp: wellStepped_def)
  have u: "\<forall>x \<in> set ((inFlight s)[k := y]). inRange s (target x)" if "target y = target ?c" for y
    using assms(1) c that set_update_subset_insert [of "inFlight s" k y] by (fastforce simp: wellStepped_def)
  let ?y = "?c\<lparr>phase := Activating, asked := executeBeforeActive (target ?c) (forward ?c) s\<rparr>"
  have "\<forall>x \<in> set ((inFlight s)[k := ?y]). inRange s (target x)" by (rule u) simp
  then show ?thesis
    using assms(1) c w by (cases "phase ?c") (auto simp: resume_def wellStepped_def inRange_def Let_def)
qed

lemma stepper_well: "stepper_step s s' \<Longrightarrow> wellStepped s \<Longrightarrow> wellStepped s'"
  by (erule stepper_stepE) (auto simp: active_well resume_well next_step_def prev_step_def)

lemma reach_well: "stepper_reach s \<Longrightarrow> wellStepped s"
proof (induction rule: stepper_reach.induct)
  case (reach_start ss leave act)
  then show ?case by (simp add: startStepper_def wellStepped_def inRange_def)
qed (rule stepper_well)


section \<open>Properties\<close>

text \<open>C39. However calls and answers of hooks interleave, the stepper stays on one of its steps, that step and
  every step offered for a jump was entered before, and the first and the last step are where going
  back and forth stop.\<close>

theorem stepper_in_range:
  assumes "stepper_reach s"
  shows "0 \<le> index s \<and> index s < int (length (steps s)) \<and> isActive (index s) s \<and>
    activeSet s \<subseteq> {0..<int (length (steps s))} \<and>
    (prev_step s = s \<longleftrightarrow> index s = 0) \<and> (next_step s = s \<longleftrightarrow> index s = int (length (steps s)) - 1)"
proof -
  note w = reach_well [OF assms, unfolded wellStepped_def inRange_def]
  have grow: "active i s \<noteq> s" if "0 \<le> i" "i < int (length (steps s))" "index s \<noteq> i" for i
  proof
    assume "active i s = s"
    then have "length (inFlight (active i s)) = length (inFlight s)" by simp
    then show False using that by (simp add: active_def Let_def)
  qed
  have r: "0 \<le> index s" "index s < int (length (steps s))" using w by auto
  moreover have "isActive (index s) s" "activeSet s \<subseteq> {0..<int (length (steps s))}" using w by (auto simp: isActive_def)
  moreover have "prev_step s = s \<longleftrightarrow> index s = 0" using r grow [of "index s - 1"] by (auto simp: prev_step_def isFirst_def)
  moreover have "next_step s = s \<longleftrightarrow> index s = int (length (steps s)) - 1"
    using r grow [of "index s + 1"] by (auto simp: next_step_def isLast_def)
  ultimately show ?thesis by blast
qed

definition plainStep :: Step where
  "plainStep = \<lparr>ownBeforeLeave = False, ownBeforeActive = False\<rparr>"

definition movedStepper :: Stepper where
  "movedStepper = resume 0 (Some True) (resume 0 (Some True) (next_step (startStepper [plainStep, plainStep] False False)))"

theorem stepper_in_range_witness:
  "index movedStepper = 1 \<and> isActive (index movedStepper) movedStepper \<and> next_step movedStepper = movedStepper"
proof -
  have "stepper_reach movedStepper"
    unfolding movedStepper_def
    by (intro reach_next [OF _ answered] reach_next [OF _ call_next] reach_start)
      (simp_all add: next_step_def active_def resume_def startStepper_def isLast_def Let_def)
  moreover have "index movedStepper = 1" "length (steps movedStepper) = 2"
    by (simp_all add: movedStepper_def next_step_def active_def resume_def startStepper_def isLast_def without_def Let_def)
  ultimately show ?thesis using stepper_in_range [of movedStepper] by simp
qed

end
