(* ===== verification/Table_Columns.thy ===== *)
theory Table_Columns
  imports Permissions "HOL-Library.Multiset"
begin

text \<open>
  The columns of tables: which of the columns in a page are shown and in which order
  (\<open>components/table/Table.ts\<close>, \<open>components/table/shared.ts\<close>, \<open>components/shared/vnode.ts\<close>), and the buttons of the
  operations column (\<open>components/table/shared.ts\<close>). Nodes of the page are records of what the code reads
  of them; a cloned node is the node with the two properties it is given. The local storage holds
  what the table wrote, a text that does not parse or another value.
\<close>

section \<open>Nodes\<close>

datatype vtype = Tag string | Component "string option" "string option"

datatype fixedness = FixedBool bool | FixedText string

record VNode =
  vtype :: vtype
  vkey :: string
  columnKey :: string
  vprop :: string
  vlabel :: string
  ctype :: string
  vfixed :: "fixedness option"
  vfix :: "fixedness option"

datatype node = Falsy | Many "node list" | Fragment "node list" | CommentNode | TextNode | Plain VNode

fun flattenVNodes :: "node list \<Rightarrow> VNode list" where
  "flattenVNodes [] = []"
| "flattenVNodes (n # ns) =
     (case n of
        Falsy \<Rightarrow> []
      | Many ms \<Rightarrow> flattenVNodes ms
      | Fragment ms \<Rightarrow> flattenVNodes ms
      | CommentNode \<Rightarrow> []
      | TextNode \<Rightarrow> []
      | Plain v \<Rightarrow> [v]) @ flattenVNodes ns"

definition isElTableColumnVNode :: "VNode \<Rightarrow> bool" where
  "isElTableColumnVNode v =
     (case vtype v of
        Tag t \<Rightarrow> t = ''el-table-column''
      | Component n n' \<Rightarrow> n = Some ''ElTableColumn'' \<or> n' = Some ''ElTableColumn'')"

definition orText :: "string \<Rightarrow> string \<Rightarrow> string" where
  "orText a b = (if a \<noteq> [] then a else b)"

definition getTableColumnKey :: "VNode \<Rightarrow> string" where
  "getTableColumnKey v = orText (columnKey v) (orText (vprop v) (orText (vkey v) (vlabel v)))"

definition buildColumnKey :: "VNode \<Rightarrow> nat \<Rightarrow> string" where
  "buildColumnKey v index = orText (getTableColumnKey v) (''column-'' @ decimal index)"


section \<open>Configurations\<close>

record FuTableColumnConfig =
  ckey :: string
  clabel :: string
  cprop :: string
  cshow :: "bool option"
  cfixed :: "fixedness option"

definition buildColumnConfig :: "nat \<Rightarrow> VNode \<Rightarrow> FuTableColumnConfig" where
  "buildColumnConfig index v =
     \<lparr>ckey = buildColumnKey v index, clabel = orText (vlabel v) (orText (vprop v) (''column-'' @ decimal index)),
      cprop = vprop v, cshow = Some True, cfixed = (if vfixed v = None then vfix v else vfixed v)\<rparr>"

definition isConfigurableColumn :: "VNode \<Rightarrow> bool" where
  "isConfigurableColumn v =
     (if \<not> isElTableColumnVNode v then False
      else if ctype v \<in> {''selection'', ''index'', ''expand''} then False
      else vlabel v \<noteq> [] \<or> vprop v \<noteq> [])"

definition indexed :: "'a list \<Rightarrow> (nat \<times> 'a) list" where
  "indexed xs = zip [0..<length xs] xs"

datatype stored = Absent | Broken | Other | Stored "FuTableColumnConfig list"

record table =
  localKey :: string
  columns :: "FuTableColumnConfig list option"
  storageLoaded :: bool
  storedColumns :: "FuTableColumnConfig list"
  storage :: "string \<Rightarrow> stored"

definition FU_TABLE_STORAGE_PREFIX :: string where
  "FU_TABLE_STORAGE_PREFIX = ''FU-T-''"

definition slotColumns :: "VNode list \<Rightarrow> FuTableColumnConfig list" where
  "slotColumns vs = map (\<lambda>(i, v). buildColumnConfig i v) (indexed (filter isConfigurableColumn vs))"

definition ensureStoredColumns :: "table \<Rightarrow> table" where
  "ensureStoredColumns t =
     (if storageLoaded t \<or> localKey t = [] then t\<lparr>storageLoaded := True\<rparr>
      else (let t1 = t\<lparr>storageLoaded := True\<rparr>
            in case storage t (FU_TABLE_STORAGE_PREFIX @ localKey t) of
                 Absent \<Rightarrow> t1
               | Broken \<Rightarrow> t1\<lparr>storedColumns := []\<rparr>
               | Other \<Rightarrow> t1
               | Stored cs \<Rightarrow> t1\<lparr>storedColumns := cs\<rparr>))"

text \<open>\<open>new Map (...)\<close> of the columns and of their places: a later entry of a key replaces an earlier one.\<close>

definition byKey :: "FuTableColumnConfig list \<Rightarrow> string \<rightharpoonup> FuTableColumnConfig" where
  "byKey cs = map_of (rev (map (\<lambda>c. (ckey c, c)) cs))"

definition orderOf :: "FuTableColumnConfig list \<Rightarrow> string \<rightharpoonup> nat" where
  "orderOf cs = map_of (rev (map (\<lambda>(i, c). (ckey c, i)) (indexed cs)))"

definition sortByOrder :: "FuTableColumnConfig list \<Rightarrow> (nat \<times> FuTableColumnConfig) list \<Rightarrow> FuTableColumnConfig list" where
  "sortByOrder source ics =
     map snd (sort_key (\<lambda>(i, c). case orderOf source (ckey c) of Some n \<Rightarrow> n | None \<Rightarrow> i) ics)"

definition mergeShow :: "FuTableColumnConfig list \<Rightarrow> FuTableColumnConfig \<Rightarrow> FuTableColumnConfig" where
  "mergeShow source c =
     c\<lparr>cshow := Some (case byKey source (ckey c) of None \<Rightarrow> True | Some s \<Rightarrow> (case cshow s of None \<Rightarrow> True | Some b \<Rightarrow> b))\<rparr>"

definition mergeFixed :: "FuTableColumnConfig list \<Rightarrow> FuTableColumnConfig \<Rightarrow> FuTableColumnConfig" where
  "mergeFixed source c =
     c\<lparr>cfixed := (case byKey source (ckey c) of None \<Rightarrow> cfixed c | Some s \<Rightarrow> (case cfixed s of None \<Rightarrow> cfixed c | Some b \<Rightarrow> Some b))\<rparr>"

definition mergedColumns :: "FuTableColumnConfig list \<Rightarrow> FuTableColumnConfig list \<Rightarrow> FuTableColumnConfig list" where
  "mergedColumns source fresh = sortByOrder source (indexed (map (\<lambda>c. mergeFixed source (mergeShow source c)) fresh))"

text \<open>The merged columns are new objects, never the ones in the array, so that the array is replaced unless
  both are empty.\<close>

definition updateArrayInPlace :: "'a list \<Rightarrow> 'a list \<Rightarrow> 'a list" where
  "updateArrayInPlace target fresh = (if target = [] \<and> fresh = [] then target else fresh)"

definition syncColumns :: "FuTableColumnConfig list \<Rightarrow> table \<Rightarrow> table" where
  "syncColumns fresh t =
     (case columns t of
        None \<Rightarrow> t
      | Some current \<Rightarrow>
          (let t1 = ensureStoredColumns t;
               source = (if current \<noteq> [] then current else storedColumns t1)
           in t1\<lparr>columns := Some (updateArrayInPlace current (mergedColumns source fresh))\<rparr>))"

definition resolvedColumns :: "VNode list \<Rightarrow> table \<Rightarrow> FuTableColumnConfig list" where
  "resolvedColumns vs t =
     (case columns t of
        Some (c # cs) \<Rightarrow> c # cs
      | _ \<Rightarrow>
          if storedColumns t \<noteq> []
          then sortByOrder (storedColumns t) (indexed (map (mergeShow (storedColumns t)) (slotColumns vs)))
          else slotColumns vs)"

text \<open>The watcher that writes the columns after a change, and the checkbox of a column in
  \<open>components/table/TableColumnSelect.vue\<close>; whether the storage takes the text is a parameter.\<close>

definition persist :: "bool \<Rightarrow> table \<Rightarrow> table" where
  "persist takes t =
     (case columns t of
        None \<Rightarrow> t
      | Some cs \<Rightarrow>
          if localKey t = [] \<or> \<not> takes then t
          else t\<lparr>storage := (storage t)(FU_TABLE_STORAGE_PREFIX @ localKey t := Stored cs)\<rparr>)"

definition isFixedColumn :: "FuTableColumnConfig \<Rightarrow> bool" where
  "isFixedColumn c \<longleftrightarrow> cfixed c \<notin> {None, Some (FixedBool False), Some (FixedText [])}"

definition toggleColumn :: "nat \<Rightarrow> table \<Rightarrow> table" where
  "toggleColumn i t =
     (case columns t of
        None \<Rightarrow> t
      | Some cs \<Rightarrow>
          if i < length cs \<and> \<not> isFixedColumn (cs ! i)
          then t\<lparr>columns := Some (cs[i := (cs ! i)\<lparr>cshow := Some (cshow (cs ! i) \<noteq> Some True)\<rparr>])\<rparr>
          else t)"

text \<open>What the table renders: a child of the page, or a column cloned with a key and a fixed side.\<close>

datatype rendered = Child VNode | Cloned VNode string "fixedness option"

definition orUndefined :: "fixedness option \<Rightarrow> fixedness option" where
  "orUndefined f = (if f \<in> {None, Some (FixedBool False), Some (FixedText [])} then None else f)"

definition columnNodeMap :: "VNode list \<Rightarrow> string \<rightharpoonup> VNode" where
  "columnNodeMap vs = map_of (rev (map (\<lambda>(i, v). (buildColumnKey v i, v)) (indexed (filter isConfigurableColumn vs))))"

definition orderedConfigurableChildren :: "VNode list \<Rightarrow> table \<Rightarrow> rendered list" where
  "orderedConfigurableChildren vs t =
     List.map_filter (\<lambda>c. map_option (\<lambda>v. Cloned v (ckey c) (if vfixed v = None then orUndefined (vfix v) else vfixed v)) (columnNodeMap vs (ckey c)))
       (filter (\<lambda>c. cshow c \<noteq> Some False) (resolvedColumns vs t))"

fun placeColumns :: "rendered list \<Rightarrow> bool \<Rightarrow> VNode list \<Rightarrow> rendered list" where
  "placeColumns cols inserted [] = []"
| "placeColumns cols inserted (v # vs) =
     (if isConfigurableColumn v
      then (if \<not> inserted then cols else []) @ placeColumns cols True vs
      else Child v # placeColumns cols inserted vs)"

definition renderedChildren :: "VNode list \<Rightarrow> table \<Rightarrow> rendered list" where
  "renderedChildren vs t =
     (if slotColumns vs = [] then map Child vs
      else placeColumns (orderedConfigurableChildren vs t) False vs)"


text \<open>A table in a page with the columns \<open>vs\<close>: it is mounted with an empty array and any storage, and then the user
  shows and hides columns, the watcher writes them, and the columns are merged again.\<close>

definition mounted :: "string \<Rightarrow> (string \<Rightarrow> stored) \<Rightarrow> table" where
  "mounted lk st = \<lparr>localKey = lk, columns = Some [], storageLoaded = False, storedColumns = [], storage = st\<rparr>"

inductive table_reach :: "VNode list \<Rightarrow> table \<Rightarrow> bool" for vs where
  reach_mount: "table_reach vs (syncColumns (slotColumns vs) (mounted lk st))"
| reach_toggle: "table_reach vs t \<Longrightarrow> table_reach vs (toggleColumn i t)"
| reach_persist: "table_reach vs t \<Longrightarrow> table_reach vs (persist takes t)"
| reach_sync: "table_reach vs t \<Longrightarrow> table_reach vs (syncColumns (slotColumns vs) t)"


section \<open>Merging is stable\<close>

text \<open>A configuration of columns: one entry for each of them, in any order, with its own label.\<close>

definition sameColumn :: "FuTableColumnConfig \<Rightarrow> FuTableColumnConfig \<Rightarrow> bool" where
  "sameColumn c s \<longleftrightarrow> ckey s = ckey c \<and> clabel s = clabel c \<and> cprop s = cprop c \<and> cshow s \<noteq> None \<and> (cfixed s = None \<longrightarrow> cfixed c = None)"

definition configures :: "FuTableColumnConfig list \<Rightarrow> FuTableColumnConfig list \<Rightarrow> bool" where
  "configures fresh source \<longleftrightarrow>
     mset (map ckey source) = mset (map ckey fresh) \<and> (\<forall>s \<in> set source. \<exists>c \<in> set fresh. sameColumn c s)"

lemma map_snd_indexed [simp]: "map snd (indexed xs) = xs" "length (indexed xs) = length xs"
  by (simp_all add: indexed_def)

lemma mset_sortByOrder: "mset (sortByOrder source ics) = mset (map snd ics)"
  by (simp add: sortByOrder_def)

lemma merged_key [simp]: "ckey (mergeFixed source (mergeShow source c)) = ckey c"
  by (simp add: mergeFixed_def mergeShow_def)

lemma merged_same: "sameColumn c (mergeFixed source (mergeShow source c))"
  by (auto simp: sameColumn_def mergeFixed_def mergeShow_def split: option.splits)

lemma mset_merged: "mset (mergedColumns source fresh) = mset (map (\<lambda>c. mergeFixed source (mergeShow source c)) fresh)"
  by (simp add: mergedColumns_def mset_sortByOrder)

lemma merged_configures: "configures fresh (mergedColumns source fresh)"
proof -
  have "mset (map ckey (mergedColumns source fresh)) = image_mset ckey (mset (mergedColumns source fresh))" by simp
  then have "mset (map ckey (mergedColumns source fresh)) = mset (map ckey fresh)"
    by (simp only: mset_merged) (simp add: multiset.map_comp comp_def flip: mset_map)
  moreover have "set (mergedColumns source fresh) = (\<lambda>c. mergeFixed source (mergeShow source c)) ` set fresh"
    using mset_eq_setD [OF mset_merged] by simp
  ultimately show ?thesis using merged_same by (auto simp: configures_def)
qed

lemma byKey_nth:
  assumes "distinct (map ckey cs)" "s \<in> set cs"
  shows "byKey cs (ckey s) = Some s"
proof -
  have "distinct (map fst (rev (map (\<lambda>c. (ckey c, c)) cs)))" using assms(1) by (simp add: rev_map [symmetric] comp_def)
  then show ?thesis unfolding byKey_def by (rule map_of_is_SomeI) (use assms(2) in auto)
qed

lemma orderOf_nth:
  assumes "distinct (map ckey cs)" "i < length cs"
  shows "orderOf cs (ckey (cs ! i)) = Some i"
proof -
  have f: "map fst (map (\<lambda>(i, c). (ckey c, i)) (indexed cs)) = map ckey cs"
    by (simp add: indexed_def comp_def case_prod_beta flip: map_map [of ckey snd, unfolded comp_def])
  have "distinct (map fst (rev (map (\<lambda>(i, c). (ckey c, i)) (indexed cs))))"
    using assms(1) by (simp only: rev_map [symmetric] distinct_rev f)
  moreover have "(ckey (cs ! i), i) \<in> set (rev (map (\<lambda>(i, c). (ckey c, i)) (indexed cs)))"
    using assms(2) by (force simp: indexed_def set_zip)
  ultimately show ?thesis unfolding orderOf_def by (rule map_of_is_SomeI)
qed

lemma sorted_upt_unique:
  assumes "sorted xs" "mset xs = mset [0..<n]"
  shows "xs = [0..<n]"
  using assms by (metis sorted_list_of_multiset_mset sorted_sort_id sorted_upt)

lemma sortByOrder_source:
  assumes d: "distinct (map ckey source)" and L: "mset L = mset source"
  shows "sortByOrder source (indexed L) = source"
proof -
  let ?pos = "\<lambda>c. the (orderOf source (ckey c))"
  let ?K = "\<lambda>(i, c). case orderOf source (ckey c) of Some n \<Rightarrow> n | None \<Rightarrow> i"
  let ?R = "sort_key ?K (indexed L)"
  have pos: "?pos c < length source \<and> source ! ?pos c = c \<and> orderOf source (ckey c) \<noteq> None" if "c \<in> set source" for c
    using that orderOf_nth [OF d] by (auto simp: in_set_conv_nth)
  have "mset (map snd ?R) = mset (map snd (indexed L))" by (simp only: mset_map mset_sort)
  then have R: "mset (map snd ?R) = mset source" by (simp only: map_snd_indexed L)
  then have setR: "set (map snd ?R) = set source" by (rule mset_eq_setD)
  have in_source: "snd p \<in> set source" if "p \<in> set ?R" for p
    using imageI [OF that, of snd] setR by (simp only: list.set_map)
  have K: "?K p = ?pos (snd p)" if "p \<in> set ?R" for p
    using pos [OF in_source [OF that]] by (auto simp: case_prod_beta)
  have "map ?K ?R = map (\<lambda>p. ?pos (snd p)) ?R" by (rule map_cong [OF refl K])
  then have "map ?K ?R = map ?pos (map snd ?R)" by (simp only: map_map comp_def)
  then have "sorted (map ?pos (map snd ?R))" using sorted_sort_key [of ?K "indexed L"] by (simp only:)
  moreover have "mset (map ?pos (map snd ?R)) = mset (map ?pos source)"
    using arg_cong [OF R, of "image_mset ?pos"] by (simp only: mset_map)
  moreover have "map ?pos source = [0..<length source]"
    using orderOf_nth [OF d] by (intro nth_equalityI) simp_all
  ultimately have "map ?pos (map snd ?R) = [0..<length source]" by (simp only: sorted_upt_unique)
  then have A: "map ((!) source) (map ?pos (map snd ?R)) = map ((!) source) [0..<length source]" by (rule arg_cong)
  have "map ((!) source) (map ?pos xs) = xs" if "set xs \<subseteq> set source" for xs
    using that pos by (induction xs) auto
  then have B: "map ((!) source) (map ?pos (map snd ?R)) = map snd ?R" using equalityD1 [OF setR] .
  from trans [OF B [symmetric] A] show ?thesis unfolding sortByOrder_def map_nth .
qed

text \<open>Merging with the columns of the page a configuration of them gives the configuration back.\<close>

lemma merged_id:
  assumes "configures fresh source" "distinct (map ckey fresh)"
  shows "mergedColumns source fresh = source"
proof -
  let ?f = "\<lambda>c. mergeFixed source (mergeShow source c)"
  have keys: "mset (map ckey source) = mset (map ckey fresh)" using assms(1) by (simp add: configures_def)
  then have ds: "distinct (map ckey source)" using assms(2) mset_eq_imp_distinct_iff by blast
  have found: "?f c \<in> set source" if c: "c \<in> set fresh" for c
  proof -
    have "ckey c \<in> set (map ckey source)" using c mset_eq_setD [OF keys] by simp
    then obtain s where s: "s \<in> set source" "ckey s = ckey c" by auto
    then obtain c' where "c' \<in> set fresh" "sameColumn c' s" using assms(1) by (auto simp: configures_def)
    moreover from this s c have "c' = c" using assms(2) by (metis sameColumn_def distinct_map inj_onD)
    ultimately have "?f c = s"
      using byKey_nth [OF ds s(1)] s(2) by (auto simp: mergeFixed_def mergeShow_def sameColumn_def split: option.splits)
    then show ?thesis using s by simp
  qed
  have "map ckey (map ?f fresh) = map ckey fresh" by simp
  then have "distinct (map ?f fresh)" using assms(2) by (metis distinct_map)
  moreover have "set (map ?f fresh) = set source"
  proof
    show "set (map ?f fresh) \<subseteq> set source" using found by auto
    show "set source \<subseteq> set (map ?f fresh)"
    proof
      fix s assume s: "s \<in> set source"
      then have "ckey s \<in> set (map ckey fresh)" using mset_eq_setD [OF keys] by force
      then obtain c where c: "c \<in> set fresh" "ckey s = ckey c" by auto
      then have "?f c = s" using found [OF c(1)] s ds by (metis merged_key distinct_map inj_onD)
      then show "s \<in> set (map ?f fresh)" using c by force
    qed
  qed
  moreover have "distinct source" using ds by (simp add: distinct_map)
  ultimately have "mset (map ?f fresh) = mset source" by (simp only: set_eq_iff_mset_eq_distinct [symmetric])
  then show ?thesis unfolding mergedColumns_def using sortByOrder_source [OF ds] by blast
qed

section \<open>What the table keeps and shows\<close>

lemma toggle_configures:
  assumes "configures fresh cs" "i < length cs"
  shows "configures fresh (cs[i := (cs ! i)\<lparr>cshow := Some b\<rparr>])"
proof -
  have "map ckey (cs[i := (cs ! i)\<lparr>cshow := Some b\<rparr>]) = map ckey cs"
    using assms(2) by (simp add: map_update list_update_same_conv)
  moreover have "\<exists>c \<in> set fresh. sameColumn c s" if "s \<in> set (cs[i := (cs ! i)\<lparr>cshow := Some b\<rparr>])" for s
  proof (cases "s \<in> set cs")
    case True
    then show ?thesis using assms(1) by (simp add: configures_def)
  next
    case False
    then have "s = (cs ! i)\<lparr>cshow := Some b\<rparr>" using that set_update_subset_insert by fastforce
    moreover obtain c where "c \<in> set fresh" "sameColumn c (cs ! i)"
      using assms(1) nth_mem [OF assms(2)] unfolding configures_def by blast
    ultimately show ?thesis by (auto simp: sameColumn_def)
  qed
  ultimately show ?thesis using assms(1) by (simp add: configures_def)
qed

lemma ensure_columns [simp]: "columns (ensureStoredColumns t) = columns t"
  by (simp add: ensureStoredColumns_def Let_def split: stored.splits)

lemma sync_columns:
  "columns (syncColumns fresh t) =
     map_option (\<lambda>cs. mergedColumns (if cs \<noteq> [] then cs else storedColumns (ensureStoredColumns t)) fresh) (columns t)"
  by (auto simp: syncColumns_def updateArrayInPlace_def Let_def split: option.splits)

lemma reach_configures: "table_reach vs t \<Longrightarrow> \<exists>cs. columns t = Some cs \<and> configures (slotColumns vs) cs"
proof (induction rule: table_reach.induct)
  case (reach_toggle t i)
  then show ?case by (auto simp: toggleColumn_def intro: toggle_configures)
next
  case (reach_persist t takes)
  then show ?case by (auto simp: persist_def)
next
  case (reach_sync t)
  then obtain cs where "columns t = Some cs" by blast
  then show ?case using merged_configures by (simp add: sync_columns)
qed (auto simp: sync_columns mounted_def merged_configures)

lemma merged_Nil [simp]: "mergedColumns source [] = []"
  by (simp add: mergedColumns_def sortByOrder_def indexed_def)

lemma configures_Nil: "configures fresh [] \<Longrightarrow> fresh = []"
  by (simp add: configures_def)

text \<open>C11. Whatever the user chose, merging the same columns again changes nothing, and a table that is mounted
  later with what was written shows the same columns in the same order, hidden ones hidden, as long
  as no two columns of the page have one key.\<close>

theorem columns_reload:
  assumes "table_reach vs t" "distinct (map ckey (slotColumns vs))" "localKey t \<noteq> []"
  shows "columns (syncColumns (slotColumns vs) t) = columns t \<and>
    columns (syncColumns (slotColumns vs) (mounted (localKey t) (storage (persist True t)))) = columns t"
proof -
  obtain cs where cs: "columns t = Some cs" "configures (slotColumns vs) cs" using reach_configures [OF assms(1)] by blast
  have "mergedColumns cs (slotColumns vs) = cs" using merged_id cs(2) assms(2) .
  moreover have "storedColumns (ensureStoredColumns (mounted (localKey t) (storage (persist True t)))) = cs"
    using assms(3) cs(1) by (simp add: ensureStoredColumns_def mounted_def persist_def Let_def)
  ultimately show ?thesis
    using configures_Nil [of "slotColumns vs"] cs by (cases "cs = []") (auto simp: sync_columns mounted_def)
qed


text \<open>A page with a name and a status column; the user hides the second.\<close>

definition plainColumn :: "string \<Rightarrow> VNode" where
  "plainColumn p = \<lparr>vtype = Tag ''el-table-column'', vkey = [], columnKey = [], vprop = p, vlabel = [], ctype = [], vfixed = None, vfix = None\<rparr>"

definition hiddenTable :: table where
  "hiddenTable = toggleColumn 1 (syncColumns (slotColumns [plainColumn ''name'', plainColumn ''status'']) (mounted ''users'' (\<lambda>_. Absent)))"

lemma hiddenTable_reach: "table_reach [plainColumn ''name'', plainColumn ''status''] hiddenTable"
  unfolding hiddenTable_def by (intro table_reach.intros)

lemma plain_slots:
  "map ckey (slotColumns [plainColumn ''name'', plainColumn ''status'']) = [''name'', ''status'']" "localKey hiddenTable = ''users''"
  "map_option (map cshow) (columns hiddenTable) = Some [Some True, Some False]"
  by code_simp+

theorem columns_reload_witness:
  "map_option (map cshow)
     (columns (syncColumns (slotColumns [plainColumn ''name'', plainColumn ''status'']) (mounted ''users'' (storage (persist True hiddenTable))))) =
   Some [Some True, Some False]"
  using columns_reload [OF hiddenTable_reach] plain_slots by simp

text \<open>What is rendered: the children that are no columns to configure, and the nodes of the cloned columns.\<close>

definition childNodes :: "rendered list \<Rightarrow> VNode list" where
  "childNodes = List.map_filter (\<lambda>r. case r of Child v \<Rightarrow> Some v | Cloned _ _ _ \<Rightarrow> None)"

definition columnNodes :: "rendered list \<Rightarrow> VNode list" where
  "columnNodes = List.map_filter (\<lambda>r. case r of Child _ \<Rightarrow> None | Cloned v _ _ \<Rightarrow> Some v)"

lemma nodes_simps [simp]:
  "childNodes [] = []" "childNodes (Child v # rs) = v # childNodes rs" "childNodes (Cloned v k f # rs) = childNodes rs"
  "columnNodes [] = []" "columnNodes (Child v # rs) = columnNodes rs" "columnNodes (Cloned v k f # rs) = v # columnNodes rs"
  "childNodes (rs @ rs') = childNodes rs @ childNodes rs'" "columnNodes (rs @ rs') = columnNodes rs @ columnNodes rs'"
  by (simp_all add: childNodes_def columnNodes_def map_filter_simps List.map_filter_def)

lemma nodes_children [simp]: "childNodes (map Child vs) = vs" "columnNodes (map Child vs) = []"
  by (induction vs) simp_all

lemma place_nodes:
  assumes "childNodes cols = []"
  shows "childNodes (placeColumns cols b vs) = filter (\<lambda>v. \<not> isConfigurableColumn v) vs"
    and "columnNodes (placeColumns cols b vs) = (if b \<or> \<not> list_ex isConfigurableColumn vs then [] else columnNodes cols)"
  using assms by (induction vs arbitrary: b) auto

text \<open>The place of a column never becomes its key: a column to configure has a label or a property.\<close>

lemma configurable_key: "isConfigurableColumn v \<Longrightarrow> buildColumnKey v i = getTableColumnKey v"
  by (auto simp: isConfigurableColumn_def buildColumnKey_def getTableColumnKey_def orText_def split: if_splits)

lemma configurable_nth: "i < length (filter isConfigurableColumn vs) \<Longrightarrow>
   buildColumnKey (filter isConfigurableColumn vs ! i) i = getTableColumnKey (filter isConfigurableColumn vs ! i)"
  using nth_mem [of i "filter isConfigurableColumn vs"] by (intro configurable_key) auto

lemma slot_keys: "map ckey (slotColumns vs) = map getTableColumnKey (filter isConfigurableColumn vs)"
  by (rule nth_equalityI) (simp_all add: slotColumns_def indexed_def buildColumnConfig_def configurable_nth)

lemma columnNodeMap_slot:
  assumes "distinct (map ckey (slotColumns vs))" "k \<in> set (map ckey (slotColumns vs))"
  shows "\<exists>v. columnNodeMap vs k = Some v \<and> v \<in> set vs \<and> getTableColumnKey v = k"
proof -
  let ?cs = "filter isConfigurableColumn vs"
  have eq: "map (\<lambda>(i, v). (buildColumnKey v i, v)) (indexed ?cs) = map (\<lambda>v. (getTableColumnKey v, v)) ?cs"
    by (rule nth_equalityI) (simp_all add: indexed_def configurable_nth)
  obtain v where v: "v \<in> set ?cs" "getTableColumnKey v = k" using assms(2) slot_keys by auto
  have "distinct (map fst (rev (map (\<lambda>v. (getTableColumnKey v, v)) ?cs)))"
    using assms(1) by (simp add: slot_keys rev_map [symmetric] comp_def)
  then have "columnNodeMap vs k = Some v"
    unfolding columnNodeMap_def eq by (rule map_of_is_SomeI) (use v in force)
  then show ?thesis using v by auto
qed

lemma ordered_nodes:
  assumes "\<forall>c \<in> set cs. \<exists>v. columnNodeMap vs (ckey c) = Some v \<and> v \<in> set vs \<and> getTableColumnKey v = ckey c"
  shows "childNodes (List.map_filter (\<lambda>c. map_option (\<lambda>v. Cloned v (ckey c) (f v)) (columnNodeMap vs (ckey c))) cs) = [] \<and>
    map getTableColumnKey (columnNodes (List.map_filter (\<lambda>c. map_option (\<lambda>v. Cloned v (ckey c) (f v)) (columnNodeMap vs (ckey c))) cs)) =
      map ckey cs \<and>
    set (columnNodes (List.map_filter (\<lambda>c. map_option (\<lambda>v. Cloned v (ckey c) (f v)) (columnNodeMap vs (ckey c))) cs)) \<subseteq> set vs"
  using assms by (induction cs) (auto simp: map_filter_simps)

text \<open>C24. A table renders every child that is no column to configure, in its order, and of the others exactly those
  that are not hidden, once each, in the order of the configuration.\<close>

theorem table_renders:
  assumes "table_reach vs t" "distinct (map ckey (slotColumns vs))"
  shows "\<exists>cs. columns t = Some cs \<and> mset (map ckey cs) = mset (map ckey (slotColumns vs)) \<and>
    childNodes (renderedChildren vs t) = filter (\<lambda>v. \<not> isConfigurableColumn v) vs \<and>
    map getTableColumnKey (columnNodes (renderedChildren vs t)) = map ckey (filter (\<lambda>c. cshow c \<noteq> Some False) cs) \<and>
    set (columnNodes (renderedChildren vs t)) \<subseteq> set vs"
proof -
  obtain cs where cs: "columns t = Some cs" "configures (slotColumns vs) cs" using reach_configures [OF assms(1)] by blast
  then have keys: "mset (map ckey cs) = mset (map ckey (slotColumns vs))" by (simp add: configures_def)
  show ?thesis
  proof (cases "cs = []")
    case True
    then have "slotColumns vs = []" using configures_Nil cs(2) by blast
    moreover from this have "filter isConfigurableColumn vs = []" using slot_keys [of vs] by simp
    then have "filter (\<lambda>v. \<not> isConfigurableColumn v) vs = vs" by (simp add: filter_empty_conv)
    ultimately show ?thesis using cs(1) keys True by (simp add: renderedChildren_def)
  next
    case False
    then have ne: "slotColumns vs \<noteq> []" using keys by auto
    then have "filter isConfigurableColumn vs \<noteq> []" using slot_keys [of vs] by auto
    then have some: "list_ex isConfigurableColumn vs" by (auto simp: list_ex_iff filter_empty_conv)
    have "resolvedColumns vs t = cs" using False cs(1) by (auto simp: resolvedColumns_def neq_Nil_conv)
    moreover have "ckey c \<in> set (map ckey (slotColumns vs))" if "c \<in> set cs" for c
      using that mset_eq_setD [OF keys] by (metis image_eqI list.set_map)
    then have "\<forall>c \<in> set (filter (\<lambda>c. cshow c \<noteq> Some False) cs).
        \<exists>v. columnNodeMap vs (ckey c) = Some v \<and> v \<in> set vs \<and> getTableColumnKey v = ckey c"
      using columnNodeMap_slot [OF assms(2)] by auto
    ultimately show ?thesis
      using ordered_nodes [of "filter (\<lambda>c. cshow c \<noteq> Some False) cs" vs] cs(1) keys ne some
      by (simp add: renderedChildren_def place_nodes orderedConfigurableChildren_def)
  qed
qed

theorem table_renders_witness:
  "columnNodes (renderedChildren [plainColumn ''name'', plainColumn ''status''] hiddenTable) = [plainColumn ''name''] \<and>
   distinct (map ckey (slotColumns [plainColumn ''name'', plainColumn ''status'']))"
proof -
  let ?vs = "[plainColumn ''name'', plainColumn ''status'']"
  have d: "distinct (map ckey (slotColumns ?vs))" using plain_slots by simp
  have "map_option (\<lambda>cs. map ckey (filter (\<lambda>c. cshow c \<noteq> Some False) cs)) (columns hiddenTable) = Some [''name'']" by code_simp
  then have "map getTableColumnKey (columnNodes (renderedChildren ?vs hiddenTable)) = [''name''] \<and>
      set (columnNodes (renderedChildren ?vs hiddenTable)) \<subseteq> set ?vs"
    using table_renders [OF hiddenTable_reach d] by auto
  then show ?thesis using d by (auto simp: map_eq_Cons_conv getTableColumnKey_def plainColumn_def orText_def)
qed

text \<open>The bare attribute \<open>fix\<close> that pages write is the empty text: such a column is not held, neither at its side
  nor against being hidden.\<close>

lemma bare_fix:
  "\<not> isFixedColumn (buildColumnConfig i (v\<lparr>vfixed := None, vfix := Some (FixedText [])\<rparr>)) \<and> orUndefined (Some (FixedText [])) = None"
  by (simp add: isFixedColumn_def buildColumnConfig_def orUndefined_def)


section \<open>Buttons of a row\<close>

datatype 'r condition = Always bool | ByRow "'r \<Rightarrow> bool"

datatype opPermission = NoPermission | RoutePermission | Needs PermissionValue

record 'r FuTableOperationButton =
  bdisabled :: "'r condition option"
  bpermission :: opPermission
  bnodeAdmin :: bool
  bshow :: "'r condition option"

definition resolveMaybeFn :: "'r condition \<Rightarrow> 'r \<Rightarrow> bool" where
  "resolveMaybeFn v row = (case v of Always b \<Rightarrow> b | ByRow f \<Rightarrow> f row)"

definition isOperationVisible :: "'r FuTableOperationButton \<Rightarrow> 'r \<Rightarrow> bool" where
  "isOperationVisible b row = resolveMaybeFn (case bshow b of None \<Rightarrow> Always True | Some v \<Rightarrow> v) row"

definition isOperationDisabled :: "route \<Rightarrow> 'r FuTableOperationButton \<Rightarrow> 'r \<Rightarrow> world \<Rightarrow> bool \<times> world" where
  "isOperationDisabled r b row w =
     (let a = (case bpermission b of
                 RoutePermission \<Rightarrow> hasManagePermissionAccess r PUndef (bnodeAdmin b) w
               | NoPermission \<Rightarrow> (True, w)
               | Needs p \<Rightarrow> hasPermissionAccess r p (bnodeAdmin b) w)
      in (\<not> fst a \<or> resolveMaybeFn (case bdisabled b of None \<Rightarrow> Always False | Some v \<Rightarrow> v) row, snd a))"

text \<open>C19. A button of a row can be pressed exactly when its own condition lets it and the user has the permission it
  names, or, where it names that of the page, may manage what the page shows; a node administrator
  passes where the button says so. Asking changes no later answer.\<close>

theorem operation_enabled:
  assumes "reachable w"
  shows "(\<not> fst (isOperationDisabled r b row w) \<longleftrightarrow>
      (bpermission b = NoPermission \<or> bnodeAdmin b \<and> isNodeAdmin (store w) \<or>
       (case bpermission b of
          RoutePermission \<Rightarrow> accessAllowed r (store w) (ManageMode, PUndef, False)
        | Needs p \<Rightarrow> accessAllowed r (store w) (ViewMode, p, False)
        | NoPermission \<Rightarrow> True)) \<and>
      bdisabled b \<noteq> Some (Always True) \<and> (\<forall>f. bdisabled b = Some (ByRow f) \<longrightarrow> \<not> f row)) \<and>
    store (snd (isOperationDisabled r b row w)) = store w"
  using assms
  by (auto simp: isOperationDisabled_def resolveMaybeFn_def hasManagePermissionAccess_def hasPermissionAccess_def access_spec
      accessAllowed_def Let_def ac.check_obs [where a = "(m, v, na)" for m v na, simplified] split: option.splits condition.splits opPermission.splits)


theorem operation_enabled_witness:
  "\<not> fst (isOperationDisabled settingRoute \<lparr>bdisabled = None, bpermission = Needs (PArr []), bnodeAdmin = False, bshow = None\<rparr> () workerWorld) \<and>
   fst (isOperationDisabled settingRoute \<lparr>bdisabled = Some (Always True), bpermission = NoPermission, bnodeAdmin = False, bshow = None\<rparr> () workerWorld)"
  using operation_enabled [OF reachable_worker, of settingRoute "\<lparr>bdisabled = None, bpermission = Needs (PArr []), bnodeAdmin = False, bshow = None\<rparr>" "()"]
    operation_enabled [OF reachable_worker, of settingRoute "\<lparr>bdisabled = Some (Always True), bpermission = NoPermission, bnodeAdmin = False, bshow = None\<rparr>" "()"]
  by (simp add: worker_store accessAllowed_def modeCodes_def toPermissionList_def Let_def)

end
