(* ===== verification/Footer_Navigation.thy ===== *)
theory Footer_Navigation
  imports Global_Store JS_Number
begin

text \<open>
  The links in the footer: their defaults, the checks on links that an enterprise sets itself and the merge
  of both (\<open>components/footer-navigation/model.ts\<close>), and the component that loads and opens them
  (\<open>components/footer-navigation/index.vue\<close>), as a step relation in which loads overlap. Texts are code units. The
  browser's \<open>TextEncoder\<close>, \<open>TextDecoder\<close> and URL parser are parameters; the theorems hold for all of them.
\<close>

section \<open>Links\<close>

datatype FooterNavigationKey = LearnMore | Forum | Documentation | Project

definition footerNavigationKeys :: "FooterNavigationKey list" where
  "footerNavigationKeys = [LearnMore, Forum, Documentation, Project]"

record FooterNavigationLinkSetting =
  visible :: bool
  url :: jstr

text \<open>A link as it is stored: \<open>None\<close> where a member is missing or has another type.\<close>

record custom_link =
  customVisible :: "bool option"
  customUrl :: "jstr option"

record FooterNavigationSetting =
  customized :: bool
  customLinks :: "(FooterNavigationKey \<rightharpoonup> custom_link) option"

definition endsWithU :: "nat \<Rightarrow> jstr \<Rightarrow> bool" where
  "endsWithU c s \<longleftrightarrow> s \<noteq> [] \<and> last s = c"

definition createDefaultFooterNavigationLinks :: "bool \<Rightarrow> jstr \<Rightarrow> FooterNavigationKey \<Rightarrow> FooterNavigationLinkSetting" where
  "createDefaultFooterNavigationLinks intl docs key =
     \<lparr>visible = True, url =
        (case key of
           LearnMore \<Rightarrow> if intl then units ''https://1panel.pro/pricing'' else units ''https://1panel.cn/versions.html''
         | Forum \<Rightarrow> if intl then units ''https://github.com/1Panel-dev/1Panel/discussions'' else units ''https://bbs.fit2cloud.com/c/1p/7''
         | Documentation \<Rightarrow> if endsWithU 47 docs then docs else docs @ [47]
         | Project \<Rightarrow> units ''https://github.com/1Panel-dev/1Panel'')\<rparr>"

definition isControlUnit :: "nat \<Rightarrow> bool" where
  "isControlUnit c \<longleftrightarrow> c \<le> 31 \<or> 127 \<le> c \<and> c \<le> 159"

definition containsControlCharacter :: "jstr \<Rightarrow> bool" where
  "containsControlCharacter s = list_ex isControlUnit s"

text \<open>\<open>schemeAuthorityPattern\<close>: a letter, letters, digits, plus, dot and minus, then the separator; its group.\<close>

definition isLetterU :: "nat \<Rightarrow> bool" where
  "isLetterU c \<longleftrightarrow> 65 \<le> c \<and> c \<le> 90 \<or> 97 \<le> c \<and> c \<le> 122"

definition isSchemeUnit :: "nat \<Rightarrow> bool" where
  "isSchemeUnit c \<longleftrightarrow> isLetterU c \<or> isDigitU c \<or> c \<in> {43, 46, 45}"

definition schemeAuthority :: "jstr \<Rightarrow> jstr option" where
  "schemeAuthority s =
     (let rest = dropWhile isSchemeUnit s
      in if s \<noteq> [] \<and> isLetterU (hd s) \<and> take 3 rest = [58, 47, 47]
         then Some (takeWhile (\<lambda>c. c \<notin> {47, 63, 35}) (drop 3 rest)) else None)"

definition hexUnit :: "nat \<Rightarrow> nat option" where
  "hexUnit c =
     (if isDigitU c then Some (c - 48)
      else if 65 \<le> c \<and> c \<le> 70 then Some (c - 55)
      else if 97 \<le> c \<and> c \<le> 102 then Some (c - 87)
      else None)"

text \<open>The loop of \<open>decodePercentEscapes\<close>: \<open>seg\<close> is the segment since the last escape, and \<open>encode\<close> its bytes.\<close>

fun percentBytes :: "(jstr \<Rightarrow> nat list) \<Rightarrow> jstr \<Rightarrow> jstr \<Rightarrow> nat list option" where
  "percentBytes encode seg [] = Some (encode seg)"
| "percentBytes encode seg (c # s) =
     (if c \<noteq> 37 then percentBytes encode (seg @ [c]) s
      else (case s of
              a # b # rest \<Rightarrow>
                (case (hexUnit a, hexUnit b) of
                   (Some x, Some y) \<Rightarrow> map_option (\<lambda>bs. encode seg @ (16 * x + y) # bs) (percentBytes encode [] rest)
                 | _ \<Rightarrow> None)
            | _ \<Rightarrow> None))"

definition decodePercentEscapes :: "(jstr \<Rightarrow> nat list) \<Rightarrow> (nat list \<Rightarrow> jstr) \<Rightarrow> jstr \<Rightarrow> jstr option" where
  "decodePercentEscapes encode decode v =
     (if 37 \<notin> set v then Some v else map_option decode (percentBytes encode [] v))"

record parsed_url =
  protocol :: jstr
  hostname :: jstr
  uport :: jstr
  username :: jstr
  password :: jstr

definition validPort :: "jsnum \<Rightarrow> bool" where
  "validPort n = (case n of Fin q \<Rightarrow> of_int \<lfloor>q\<rfloor> = q \<and> 1 \<le> q \<and> q \<le> 65535 | _ \<Rightarrow> False)"

definition isSafeExternalUrl ::
  "(jstr \<Rightarrow> nat list) \<Rightarrow> (nat list \<Rightarrow> jstr) \<Rightarrow> (jstr \<Rightarrow> parsed_url option) \<Rightarrow> jstr option \<Rightarrow> bool" where
  "isSafeExternalUrl encode decode parseURL value =
     (case value of
        None \<Rightarrow> False
      | Some v \<Rightarrow>
          if containsControlCharacter v then False
          else (let n = trimU v
                in if 92 \<in> set n then False
                   else case schemeAuthority n of
                     None \<Rightarrow> False
                   | Some authority \<Rightarrow>
                       if authority = [] \<or> endsWithU 58 authority \<or> 64 \<in> set authority \<or> 37 \<in> set authority then False
                       else case decodePercentEscapes encode decode n of
                         None \<Rightarrow> False
                       | Some d \<Rightarrow>
                           if containsControlCharacter d then False
                           else case parseURL n of
                             None \<Rightarrow> False
                           | Some u \<Rightarrow>
                               protocol u \<in> {units ''http:'', units ''https:''} \<and> hostname u \<noteq> [] \<and> username u = [] \<and> password u = [] \<and>
                               (uport u = [] \<or> validPort (toNumber (uport u)))))"

definition mergeFooterNavigationLinks ::
  "(jstr option \<Rightarrow> bool) \<Rightarrow> FooterNavigationSetting option \<Rightarrow> (FooterNavigationKey \<Rightarrow> FooterNavigationLinkSetting) \<Rightarrow>
   FooterNavigationKey \<Rightarrow> FooterNavigationLinkSetting" where
  "mergeFooterNavigationLinks safe setting defaults =
     (case setting of
        None \<Rightarrow> defaults
      | Some s \<Rightarrow>
          (case customLinks s of
             None \<Rightarrow> defaults
           | Some links \<Rightarrow>
               if \<not> customized s then defaults
               else (\<lambda>key.
                 (let c = links key; cv = Option.bind c customVisible; cu = Option.bind c customUrl
                  in \<lparr>visible = (case cv of Some b \<Rightarrow> b | None \<Rightarrow> visible (defaults key)),
                      url = (if safe cu then the cu else url (defaults key))\<rparr>))))"


section \<open>The component\<close>

record footer =
  gs :: GlobalState
  setting :: "FooterNavigationSetting option"
  loadGeneration :: nat
  inFlight :: "nat list"
  opened :: "jstr list"
  mounted :: bool

definition links :: "(jstr option \<Rightarrow> bool) \<Rightarrow> footer \<Rightarrow> FooterNavigationKey \<Rightarrow> FooterNavigationLinkSetting" where
  "links safe f =
     mergeFooterNavigationLinks safe (setting f) (createDefaultFooterNavigationLinks (isIntl (gs f)) (units (docsUrl (gs f))))"

definition labels :: "FooterNavigationKey \<Rightarrow> string" where
  "labels key = (case key of LearnMore \<Rightarrow> ''license.knowMorePro'' | Forum \<Rightarrow> ''setting.forum''
     | Documentation \<Rightarrow> ''setting.doc2'' | Project \<Rightarrow> ''setting.project'')"

definition visibleLinks :: "(jstr option \<Rightarrow> bool) \<Rightarrow> footer \<Rightarrow> (FooterNavigationKey \<times> string \<times> jstr) list" where
  "visibleLinks safe f =
     map (\<lambda>key. (key, labels key, url (links safe f key)))
       (filter (\<lambda>key. if isFxplay (gs f) \<and> key \<noteq> Documentation then False else visible (links safe f key)) footerNavigationKeys)"

definition loadSetting :: "footer \<Rightarrow> footer" where
  "loadSetting f =
     (let f1 = f\<lparr>loadGeneration := loadGeneration f + 1\<rparr>
      in if \<not> isEE (gs f1) then f1\<lparr>setting := None\<rparr> else f1\<lparr>inFlight := inFlight f1 @ [loadGeneration f1]\<rparr>)"

text \<open>What follows the answer to a load; a failed request gives no setting.\<close>

definition onSetting :: "nat \<Rightarrow> FooterNavigationSetting option \<Rightarrow> footer \<Rightarrow> footer" where
  "onSetting generation res f =
     (let f1 = f\<lparr>inFlight := remove1 generation (inFlight f)\<rparr>
      in if generation \<noteq> loadGeneration f1 \<or> \<not> isEE (gs f1) then f1 else f1\<lparr>setting := res\<rparr>)"

definition openLink :: "(jstr option \<Rightarrow> bool) \<Rightarrow> jstr \<Rightarrow> footer \<Rightarrow> footer" where
  "openLink safe u f = (if \<not> safe (Some u) then f else f\<lparr>opened := opened f @ [u]\<rparr>)"

text \<open>The watcher on the edition runs with the change of the store that it watches.\<close>

definition onStore :: "GlobalState \<Rightarrow> footer \<Rightarrow> footer" where
  "onStore s f = (let f1 = f\<lparr>gs := s\<rparr> in if mounted f \<and> isEE s \<noteq> isEE (gs f) then loadSetting f1 else f1)"

definition onBeforeUnmount :: "footer \<Rightarrow> footer" where
  "onBeforeUnmount f = f\<lparr>loadGeneration := loadGeneration f + 1, mounted := False\<rparr>"

definition startFooter :: "GlobalState \<Rightarrow> footer" where
  "startFooter s = loadSetting \<lparr>gs = s, setting = None, loadGeneration = 0, inFlight = [], opened = [], mounted = True\<rparr>"

text \<open>The runs of the component, with the answers so far, the latest first.\<close>

inductive footer_run ::
  "(jstr option \<Rightarrow> bool) \<Rightarrow> footer \<Rightarrow> (nat \<times> FooterNavigationSetting option) list \<Rightarrow> bool" for safe where
  run_start: "footer_run safe (startFooter s) []"
| run_store: "footer_run safe f past \<Longrightarrow> footer_run safe (onStore s f) past"
| run_refresh: "footer_run safe f past \<Longrightarrow> mounted f \<Longrightarrow> footer_run safe (loadSetting f) past"
| run_answer: "footer_run safe f past \<Longrightarrow> g \<in> set (inFlight f) \<Longrightarrow> footer_run safe (onSetting g res f) ((g, res) # past)"
| run_click: "footer_run safe f past \<Longrightarrow> (key, label, u) \<in> set (visibleLinks safe f) \<Longrightarrow> footer_run safe (openLink safe u f) past"
| run_unmount: "footer_run safe f past \<Longrightarrow> footer_run safe (onBeforeUnmount f) past"


section \<open>What the footer shows and opens\<close>

definition loadInv :: "footer \<Rightarrow> (nat \<times> FooterNavigationSetting option) list \<Rightarrow> bool" where
  "loadInv f past \<longleftrightarrow>
     (\<forall>g \<in> set (inFlight f) \<union> fst ` set past. g \<le> loadGeneration f) \<and> distinct (inFlight f) \<and>
     (mounted f \<longrightarrow>
        (\<not> isEE (gs f) \<longrightarrow> setting f = None) \<and>
        (isEE (gs f) \<longrightarrow> loadGeneration f \<in> set (inFlight f) \<or> map_of past (loadGeneration f) = Some (setting f)))"

lemma bounds_Suc: "(\<forall>g \<in> A. g \<le> n) \<Longrightarrow> Suc n \<notin> A \<and> (\<forall>g \<in> A. g \<le> Suc n)" for n :: nat
  by force

lemma load_inv:
  assumes "\<forall>g \<in> set (inFlight f) \<union> fst ` set past. g \<le> loadGeneration f" "distinct (inFlight f)"
  shows "loadInv (loadSetting f) past"
  using bounds_Suc [OF assms(1)] assms(2) by (simp add: loadInv_def loadSetting_def Let_def)

lemma onSetting_inv:
  assumes "loadInv f past" "g \<in> set (inFlight f)"
  shows "loadInv (onSetting g res f) ((g, res) # past)"
  using assms by (auto simp: loadInv_def onSetting_def Let_def set_remove1_eq distinct_remove1)

lemma run_inv: "footer_run safe f past \<Longrightarrow> loadInv f past"
proof (induction rule: footer_run.induct)
  case (run_start s)
  show ?case unfolding startFooter_def by (rule load_inv) simp_all
next
  case (run_store f past s)
  show ?case
  proof (cases "mounted f \<and> isEE s \<noteq> isEE (gs f)")
    case True
    then have "onStore s f = loadSetting (f\<lparr>gs := s\<rparr>)" by (simp add: onStore_def Let_def)
    then show ?thesis using run_store by (metis load_inv loadInv_def footer.select_convs footer.surjective footer.update_convs(1))
  next
    case False
    then show ?thesis using run_store by (auto simp: onStore_def loadInv_def Let_def)
  qed
next
  case (run_refresh f past)
  then show ?case by (intro load_inv) (auto simp: loadInv_def)
next
  case (run_answer f past g res)
  then show ?case using onSetting_inv by blast
next
  case (run_click f past key label u)
  then show ?case by (auto simp: openLink_def loadInv_def)
next
  case (run_unmount f past)
  then show ?case by (simp add: onBeforeUnmount_def loadInv_def le_SucI)
qed

text \<open>C22. Loads may overlap and answers come in any order: outside the enterprise edition the footer has no setting,
  and in it, once no answer is missing, it has the setting that the latest load was answered with.\<close>

theorem footer_current:
  assumes "footer_run safe f past" "mounted f"
  shows "(\<not> isEE (gs f) \<longrightarrow> setting f = None) \<and>
    (isEE (gs f) \<and> inFlight f = [] \<longrightarrow> map_of past (loadGeneration f) = Some (setting f))"
  using run_inv [OF assms(1)] assms(2) by (auto simp: loadInv_def)

text \<open>Every escape of a text is a percent sign with two hexadecimal digits.\<close>

definition wellEscaped :: "jstr \<Rightarrow> bool" where
  "wellEscaped s \<longleftrightarrow> (\<forall>i < length s. s ! i = 37 \<longrightarrow> i + 2 < length s \<and> hexUnit (s ! (i + 1)) \<noteq> None \<and> hexUnit (s ! (i + 2)) \<noteq> None)"

lemma hexUnit_percent [simp]: "hexUnit 37 = None"
  by (simp add: hexUnit_def isDigitU_def)

lemma wellEscaped_Nil [simp]: "wellEscaped []"
  by (simp add: wellEscaped_def)

lemma wellEscaped_Cons:
  "wellEscaped (c # s) \<longleftrightarrow> (c = 37 \<longrightarrow> 2 \<le> length s \<and> hexUnit (s ! 0) \<noteq> None \<and> hexUnit (s ! 1) \<noteq> None) \<and> wellEscaped s"
  by (auto simp: wellEscaped_def All_less_Suc2 eval_nat_numeral)

lemma percentBytes_escaped: "percentBytes encode seg s = None \<longleftrightarrow> \<not> wellEscaped s"
proof (induction encode seg s rule: percentBytes.induct)
  case (2 encode seg c s)
  show ?case
  proof (cases "c = 37")
    case True
    show ?thesis
    proof (cases "\<exists>a b rest x y. s = a # b # rest \<and> hexUnit a = Some x \<and> hexUnit b = Some y")
      case True
      then obtain a b rest x y where s: "s = a # b # rest" "hexUnit a = Some x" "hexUnit b = Some y" by blast
      then have "a \<noteq> 37" "b \<noteq> 37" by auto
      then show ?thesis using 2(2) s \<open>c = 37\<close> by (auto simp: wellEscaped_Cons)
    next
      case False
      then show ?thesis using True by (auto simp: wellEscaped_Cons neq_Nil_conv split: list.splits option.splits)
    qed
  next
    case False
    then show ?thesis using 2(1) by (simp add: wellEscaped_Cons)
  qed
qed simp

lemma wellEscaped_none: "37 \<notin> set s \<Longrightarrow> wellEscaped s"
  by (induction s) (auto simp: wellEscaped_Cons)

lemma decode_escaped: "decodePercentEscapes encode decode s = None \<longleftrightarrow> \<not> wellEscaped s"
  by (simp add: decodePercentEscapes_def percentBytes_escaped wellEscaped_none)

lemma schemeAuthority_split:
  assumes "schemeAuthority s = Some a"
  shows "\<exists>scheme rest. s = scheme @ [58, 47, 47] @ a @ rest \<and> scheme \<noteq> [] \<and> list_all isSchemeUnit scheme \<and>
    (rest = [] \<or> hd rest \<in> {47, 63, 35}) \<and> set a \<inter> {47, 63, 35} = {}"
proof -
  let ?rest = "dropWhile isSchemeUnit s" and ?P = "\<lambda>c. c \<notin> {47 :: nat, 63, 35}"
  from assms have r: "s \<noteq> []" "isLetterU (hd s)" "take 3 ?rest = [58, 47, 47]" and a: "a = takeWhile ?P (drop 3 ?rest)"
    by (auto simp: schemeAuthority_def Let_def split: if_splits)
  have "s = takeWhile isSchemeUnit s @ [58, 47, 47] @ a @ dropWhile ?P (drop 3 ?rest)"
    using r(3) unfolding a by (metis append_take_drop_id takeWhile_dropWhile_id)
  moreover have "takeWhile isSchemeUnit s \<noteq> []" using r(1,2) by (cases s) (auto simp: isSchemeUnit_def)
  moreover have "list_all isSchemeUnit (takeWhile isSchemeUnit s)" by (auto simp: list_all_iff dest: set_takeWhileD)
  moreover have "dropWhile ?P (drop 3 ?rest) = [] \<or> hd (dropWhile ?P (drop 3 ?rest)) \<in> {47, 63, 35}"
    using hd_dropWhile [of ?P "drop 3 ?rest"] by blast
  moreover have "set a \<inter> {47, 63, 35} = {}" unfolding a by (auto dest: set_takeWhileD)
  ultimately show ?thesis by blast
qed

text \<open>What a link that passes looks like, for every decoder and URL parser.\<close>

lemma safe_text:
  assumes "isSafeExternalUrl encode decode parseURL (Some v)"
  shows "\<not> list_ex isControlUnit v \<and> 92 \<notin> set (trimU v) \<and> wellEscaped (trimU v) \<and>
    (\<exists>scheme authority rest. trimU v = scheme @ [58, 47, 47] @ authority @ rest \<and> scheme \<noteq> [] \<and> list_all isSchemeUnit scheme \<and>
       authority \<noteq> [] \<and> last authority \<noteq> 58 \<and> set authority \<inter> {64, 37, 47, 63, 35} = {} \<and> (rest = [] \<or> hd rest \<in> {47, 63, 35})) \<and>
    (\<exists>u. parseURL (trimU v) = Some u \<and> protocol u \<in> {units ''http:'', units ''https:''} \<and> username u = [] \<and> password u = [])"
proof -
  obtain a where a: "schemeAuthority (trimU v) = Some a" "a \<noteq> []" "last a \<noteq> 58" "64 \<notin> set a" "37 \<notin> set a"
    using assms by (auto simp: isSafeExternalUrl_def Let_def endsWithU_def split: if_splits option.splits)
  moreover have "wellEscaped (trimU v)"
    using assms decode_escaped [of encode decode "trimU v"] by (auto simp: isSafeExternalUrl_def Let_def split: if_splits option.splits)
  moreover have "\<not> list_ex isControlUnit v" "92 \<notin> set (trimU v)"
    "\<exists>u. parseURL (trimU v) = Some u \<and> protocol u \<in> {units ''http:'', units ''https:''} \<and> username u = [] \<and> password u = []"
    using assms by (auto simp: isSafeExternalUrl_def containsControlCharacter_def Let_def split: if_splits option.splits)
  ultimately show ?thesis using schemeAuthority_split [OF a(1)] by auto
qed

lemma run_opened: "footer_run safe f past \<Longrightarrow> u \<in> set (opened f) \<Longrightarrow> safe (Some u)"
proof (induction rule: footer_run.induct)
  case (run_click f past key label v)
  then show ?case by (auto simp: openLink_def split: if_splits)
qed (auto simp: startFooter_def loadSetting_def onStore_def onSetting_def onBeforeUnmount_def Let_def split: if_splits)

text \<open>C18. Whatever an enterprise stores as links, every link the footer opens has no control character, backslash or
  broken escape, a scheme and an authority without user and escapes, and is for the browser a link
  by HTTP without user and password.\<close>

theorem footer_opens_safe:
  assumes "footer_run (isSafeExternalUrl encode decode parseURL) f past" "v \<in> set (opened f)"
  shows "\<not> list_ex isControlUnit v \<and> 92 \<notin> set (trimU v) \<and>
    (\<forall>i < length (trimU v). trimU v ! i = 37 \<longrightarrow>
       i + 2 < length (trimU v) \<and> hexUnit (trimU v ! (i + 1)) \<noteq> None \<and> hexUnit (trimU v ! (i + 2)) \<noteq> None) \<and>
    (\<exists>scheme authority rest. trimU v = scheme @ [58, 47, 47] @ authority @ rest \<and> scheme \<noteq> [] \<and> list_all isSchemeUnit scheme \<and>
       authority \<noteq> [] \<and> last authority \<noteq> 58 \<and> set authority \<inter> {64, 37, 47, 63, 35} = {} \<and> (rest = [] \<or> hd rest \<in> {47, 63, 35})) \<and>
    (\<exists>u. parseURL (trimU v) = Some u \<and> protocol u \<in> {units ''http:'', units ''https:''} \<and> username u = [] \<and> password u = [])"
  using safe_text [OF run_opened [OF assms]] unfolding wellEscaped_def .

text \<open>A community panel opens the link to its project.\<close>

definition httpsOnly :: "jstr \<Rightarrow> parsed_url option" where
  "httpsOnly s = (if take 8 s = units ''https://''
     then Some \<lparr>protocol = units ''https:'', hostname = drop 8 s, uport = [], username = [], password = []\<rparr> else None)"

definition projectFooter :: footer where
  "projectFooter = openLink (isSafeExternalUrl id id httpsOnly) (units ''https://github.com/1Panel-dev/1Panel'') (startFooter (initialState ''en''))"

lemma project_safe: "isSafeExternalUrl id id httpsOnly (Some (units ''https://github.com/1Panel-dev/1Panel''))"
proof -
  let ?u = "units ''https://github.com/1Panel-dev/1Panel''"
  have "trimU ?u = ?u" by (simp add: units_def trimU_def isSpaceU_def)
  moreover have "schemeAuthority ?u = Some (units ''github.com'')"
    by (simp add: units_def schemeAuthority_def isSchemeUnit_def isLetterU_def isDigitU_def Let_def)
  moreover have "\<not> containsControlCharacter ?u" "{92, 37} \<inter> set ?u = {}"
    by (simp_all add: units_def containsControlCharacter_def isControlUnit_def)
  moreover have "endsWithU 58 (units ''github.com'') = False" "{64, 37} \<inter> set (units ''github.com'') = {}" "units ''github.com'' \<noteq> []"
    by (simp_all add: units_def endsWithU_def)
  moreover have "httpsOnly ?u = Some \<lparr>protocol = units ''https:'', hostname = drop 8 ?u, uport = [], username = [], password = []\<rparr>" "drop 8 ?u \<noteq> []"
    by (simp_all add: units_def httpsOnly_def)
  ultimately show ?thesis by (simp add: isSafeExternalUrl_def decodePercentEscapes_def Let_def)
qed

lemma projectFooter_run: "footer_run (isSafeExternalUrl id id httpsOnly) projectFooter []"
  unfolding projectFooter_def
proof (rule run_click [OF run_start])
  show "(Project, ''setting.project'', units ''https://github.com/1Panel-dev/1Panel'') \<in>
      set (visibleLinks (isSafeExternalUrl id id httpsOnly) (startFooter (initialState ''en'')))"
    by (simp add: visibleLinks_def links_def mergeFooterNavigationLinks_def startFooter_def loadSetting_def initialState_def isEE_def
        createDefaultFooterNavigationLinks_def footerNavigationKeys_def labels_def Let_def)
qed

theorem footer_opens_safe_witness:
  "opened projectFooter = [units ''https://github.com/1Panel-dev/1Panel''] \<and>
   \<not> list_ex isControlUnit (units ''https://github.com/1Panel-dev/1Panel'')"
proof -
  have o: "opened projectFooter = [units ''https://github.com/1Panel-dev/1Panel'']"
    using project_safe by (simp add: projectFooter_def openLink_def startFooter_def loadSetting_def initialState_def isEE_def Let_def)
  then show ?thesis using footer_opens_safe [OF projectFooter_run, of "units ''https://github.com/1Panel-dev/1Panel''"] by simp
qed

text \<open>A licensed panel loads twice, and the answer to the second load comes first.\<close>

definition hiddenForum :: FooterNavigationSetting where
  "hiddenForum = \<lparr>customized = True, customLinks = Some [Forum \<mapsto> \<lparr>customVisible = Some False, customUrl = None\<rparr>]\<rparr>"

definition licensedFooter :: footer where
  "licensedFooter = onSetting 1 None (onSetting 2 (Some hiddenForum)
     (loadSetting (startFooter ((initialState ''en'')\<lparr>isEnterprise := True, isEnterpriseLicensed := True\<rparr>))))"

theorem footer_current_witness: "isEE (gs licensedFooter) \<and> setting licensedFooter = Some hiddenForum"
proof -
  have fields: "mounted licensedFooter" "isEE (gs licensedFooter)" "inFlight licensedFooter = []" "loadGeneration licensedFooter = 2"
    by (simp_all add: licensedFooter_def onSetting_def startFooter_def loadSetting_def isEE_def Let_def)
  have "footer_run (\<lambda>_. False) licensedFooter [(1, None), (2, Some hiddenForum)]"
    unfolding licensedFooter_def
    by (intro run_answer run_refresh run_start) (simp_all add: onSetting_def startFooter_def loadSetting_def isEE_def Let_def)
  then show ?thesis using footer_current [of "\<lambda>_. False" licensedFooter] fields by fastforce
qed

end
