(* ===== verification/Plugin_Channel.thy ===== *)
theory Plugin_Channel
  imports Prelude
begin

text \<open>
  The plugin of a messaging channel of an agent
  (\<open>views/ai/agents/agent/config/tabs/channels/openclaw/useAgentPluginChannel.ts\<close>). Its functions wait for the
  server, so calls overlap: a call in flight is a request in the state, and each answer is a step
  of its own, in any order. An answer is \<open>None\<close> where the request fails, and holds the status that the
  server sends, if it sends one.
\<close>

section \<open>The composable\<close>

record AgentPluginStatus =
  pinstalled :: bool
  pcurrentVersion :: string
  platestVersion :: string
  pupgradable :: bool

datatype operation = Install | Upgrade | Uninstall

text \<open>What a call waits for: a status, with the load that waits for it, if one does; the value \<open>false\<close> that the
  same call gives without an agent; the latest version, for the load of that number; an operation
  with its task.\<close>

datatype request =
    CheckStatus nat bool "nat option"
  | NoAgent "nat option"
  | CheckLatest nat nat
  | Operate operation nat string

record channel =
  agentId :: nat
  loading :: bool
  installed :: bool
  installing :: bool
  upgrading :: bool
  uninstalling :: bool
  currentVersion :: string
  latestVersion :: string
  upgradable :: bool
  loadVersion :: nat
  pending :: "request list"

definition initialChannel :: channel where
  "initialChannel = \<lparr>agentId = 0, loading = False, installed = False, installing = False, upgrading = False,
     uninstalling = False, currentVersion = [], latestVersion = [], upgradable = False, loadVersion = 0, pending = []\<rparr>"

text \<open>What a call gives its caller.\<close>

datatype result = Waits | Gives bool | Task string | Nothing | Rejects

definition await :: "request \<Rightarrow> channel \<Rightarrow> channel" where
  "await r c = c\<lparr>pending := pending c @ [r]\<rparr>"

definition applyPluginStatus :: "AgentPluginStatus option \<Rightarrow> channel \<Rightarrow> channel" where
  "applyPluginStatus status c =
     (case status of
        None \<Rightarrow> c\<lparr>installed := False, currentVersion := [], latestVersion := [], upgradable := False\<rparr>
      | Some s \<Rightarrow> c\<lparr>installed := pinstalled s, currentVersion := pcurrentVersion s, latestVersion := platestVersion s,
                    upgradable := pupgradable s\<rparr>)"

definition checkPluginStatus :: "nat option \<Rightarrow> bool \<Rightarrow> channel \<Rightarrow> channel" where
  "checkPluginStatus load checkLatest c =
     await (if agentId c = 0 then NoAgent load else CheckStatus (agentId c) checkLatest load) c"

definition checkPluginLatestVersion :: "nat \<Rightarrow> channel \<Rightarrow> channel" where
  "checkPluginLatestVersion version c = (if agentId c = 0 then c else await (CheckLatest (agentId c) version) c)"

definition loadPlugin :: "nat \<Rightarrow> channel \<Rightarrow> channel" where
  "loadPlugin i c =
     (let c1 = c\<lparr>loadVersion := loadVersion c + 1, agentId := i, loading := True, latestVersion := [], upgradable := False\<rparr>
      in checkPluginStatus (Some (loadVersion c1)) False c1)"

text \<open>The rest of a load after its check: the check of the latest version, which nobody waits for, and the
  \<open>finally\<close> block.\<close>

definition loaded :: "nat option \<Rightarrow> bool \<Rightarrow> channel \<Rightarrow> channel" where
  "loaded load isInstalled c =
     (case load of
        None \<Rightarrow> c
      | Some version \<Rightarrow> (if isInstalled then checkPluginLatestVersion version c else c)\<lparr>loading := False\<rparr>)"

definition installPlugin :: "string \<Rightarrow> channel \<Rightarrow> result \<times> channel" where
  "installPlugin taskID c =
     (if agentId c = 0 then (Task [], c) else (Waits, await (Operate Install (agentId c) taskID) (c\<lparr>installing := True\<rparr>)))"

definition upgradePlugin :: "string \<Rightarrow> channel \<Rightarrow> result \<times> channel" where
  "upgradePlugin taskID c =
     (if agentId c = 0 then (Task [], c) else (Waits, await (Operate Upgrade (agentId c) taskID) (c\<lparr>upgrading := True\<rparr>)))"

definition uninstallPlugin :: "string \<Rightarrow> channel \<Rightarrow> result \<times> channel" where
  "uninstallPlugin taskID c =
     (if agentId c = 0 then (Task [], c) else (Waits, await (Operate Uninstall (agentId c) taskID) (c\<lparr>uninstalling := True\<rparr>)))"

text \<open>What follows the answers: to the check of a status, to the check of the latest version, to an operation.\<close>

definition onStatus :: "nat option \<Rightarrow> AgentPluginStatus option option \<Rightarrow> channel \<Rightarrow> result \<times> channel" where
  "onStatus load res c =
     (case res of
        None \<Rightarrow> (Rejects, if load = None then c else c\<lparr>loading := False\<rparr>)
      | Some status \<Rightarrow>
          (let b = (case status of None \<Rightarrow> False | Some s \<Rightarrow> pinstalled s)
           in (Gives b, loaded load b (applyPluginStatus status c))))"

definition onLatestVersion :: "nat \<Rightarrow> AgentPluginStatus option option \<Rightarrow> channel \<Rightarrow> result \<times> channel" where
  "onLatestVersion version res c =
     (Nothing, case res of
        None \<Rightarrow> c
      | Some status \<Rightarrow> if version \<noteq> loadVersion c then c else applyPluginStatus status c)"

definition onOperated :: "operation \<Rightarrow> string \<Rightarrow> 'a option \<Rightarrow> channel \<Rightarrow> result \<times> channel" where
  "onOperated oper taskID res c =
     (if res = None then Rejects else Task taskID,
      case oper of
        Install \<Rightarrow> c\<lparr>installing := False\<rparr>
      | Upgrade \<Rightarrow> c\<lparr>upgrading := False\<rparr>
      | Uninstall \<Rightarrow> c\<lparr>uninstalling := False\<rparr>)"

definition resume :: "request \<Rightarrow> AgentPluginStatus option option \<Rightarrow> channel \<Rightarrow> result \<times> channel" where
  "resume r res c =
     (case r of
        NoAgent load \<Rightarrow> (Gives False, loaded load False c)
      | CheckStatus _ _ load \<Rightarrow> onStatus load res c
      | CheckLatest _ version \<Rightarrow> onLatestVersion version res c
      | Operate oper _ taskID \<Rightarrow> onOperated oper taskID res c)"

definition answer :: "nat \<Rightarrow> AgentPluginStatus option option \<Rightarrow> channel \<Rightarrow> result \<times> channel" where
  "answer i res c = resume (pending c ! i) res (c\<lparr>pending := take i (pending c) @ drop (Suc i) (pending c)\<rparr>)"

inductive channel_step :: "channel \<Rightarrow> channel \<Rightarrow> bool" where
  step_load: "channel_step c (loadPlugin i c)"
| step_check: "channel_step c (checkPluginStatus None latest c)"
| step_install: "channel_step c (snd (installPlugin t c))"
| step_upgrade: "channel_step c (snd (upgradePlugin t c))"
| step_uninstall: "channel_step c (snd (uninstallPlugin t c))"
| step_answer: "i < length (pending c) \<Longrightarrow> channel_step c (snd (answer i res c))"

inductive channel_reach :: "channel \<Rightarrow> bool" where
  reach_initial: "channel_reach initialChannel"
| reach_step: "channel_reach c \<Longrightarrow> channel_step c c' \<Longrightarrow> channel_reach c'"

inductive_cases channel_stepE: "channel_step c c'"


section \<open>What overlapping calls do\<close>

definition shown :: "channel \<Rightarrow> bool \<times> string \<times> string \<times> bool" where
  "shown c = (installed c, currentVersion c, latestVersion c, upgradable c)"

fun isLoad :: "request \<Rightarrow> bool" where
  "isLoad (CheckStatus _ _ load) \<longleftrightarrow> load \<noteq> None"
| "isLoad (NoAgent load) \<longleftrightarrow> load \<noteq> None"
| "isLoad _ \<longleftrightarrow> False"

fun isOperation :: "operation \<Rightarrow> request \<Rightarrow> bool" where
  "isOperation oper (Operate oper' _ _) \<longleftrightarrow> oper = oper'"
| "isOperation _ _ \<longleftrightarrow> False"

text \<open>A request belongs to the channel when it asks for its agent or for the load of an earlier one.\<close>

fun timely :: "nat \<Rightarrow> nat \<Rightarrow> request \<Rightarrow> bool" where
  "timely version agent (CheckStatus a _ (Some v)) \<longleftrightarrow> v < version \<or> v = version \<and> a = agent"
| "timely version agent (CheckLatest a v) \<longleftrightarrow> v < version \<or> v = version \<and> a = agent"
| "timely version agent (NoAgent (Some v)) \<longleftrightarrow> v \<le> version"
| "timely version agent _ \<longleftrightarrow> True"

definition busyInv :: "channel \<Rightarrow> request list \<Rightarrow> bool" where
  "busyInv c rs \<longleftrightarrow>
     (loading c \<longrightarrow> list_ex isLoad rs) \<and> (installing c \<longrightarrow> list_ex (isOperation Install) rs) \<and>
     (upgrading c \<longrightarrow> list_ex (isOperation Upgrade) rs) \<and> (uninstalling c \<longrightarrow> list_ex (isOperation Uninstall) rs)"

definition channelInv :: "channel \<Rightarrow> bool" where
  "channelInv c \<longleftrightarrow> busyInv c (pending c) \<and> list_all (timely (loadVersion c) (agentId c)) (pending c)"

lemma timely_next: "timely v a r \<Longrightarrow> timely (Suc v) b r"
  by (induction v a r rule: timely.induct) auto

lemma take_drop_mid:
  assumes "i < length xs"
  shows "list_ex P xs \<longleftrightarrow> P (xs ! i) \<or> list_ex P (take i xs @ drop (Suc i) xs)"
    and "list_all P xs \<longleftrightarrow> P (xs ! i) \<and> list_all P (take i xs @ drop (Suc i) xs)"
proof -
  have "xs = take i xs @ xs ! i # drop (Suc i) xs" using id_take_nth_drop [OF assms] .
  then have "set xs = insert (xs ! i) (set (take i xs @ drop (Suc i) xs))"
    by (metis Un_insert_right list.set(2) set_append)
  then show "list_ex P xs \<longleftrightarrow> P (xs ! i) \<or> list_ex P (take i xs @ drop (Suc i) xs)"
    and "list_all P xs \<longleftrightarrow> P (xs ! i) \<and> list_all P (take i xs @ drop (Suc i) xs)"
    by (auto simp: list_ex_iff list_all_iff)
qed

lemmas channel_defs = await_def checkPluginStatus_def checkPluginLatestVersion_def loadPlugin_def loaded_def
  installPlugin_def upgradePlugin_def uninstallPlugin_def onStatus_def onLatestVersion_def onOperated_def applyPluginStatus_def Let_def

lemma resume_inv:
  assumes "busyInv c (r # pending c)" "list_all (timely (loadVersion c) (agentId c)) (r # pending c)"
  shows "channelInv (snd (resume r res c))"
  using assms
  by (cases r; cases res)
    (auto simp: resume_def channelInv_def busyInv_def channel_defs split: option.splits operation.splits)

lemma step_inv: "channel_step c c' \<Longrightarrow> channelInv c \<Longrightarrow> channelInv c'"
proof (induction rule: channel_step.induct)
  case (step_answer i c res)
  let ?rest = "c\<lparr>pending := take i (pending c) @ drop (Suc i) (pending c)\<rparr>"
  from step_answer have "busyInv ?rest (pending c ! i # pending ?rest)"
    "list_all (timely (loadVersion ?rest) (agentId ?rest)) (pending c ! i # pending ?rest)"
    by (auto simp: channelInv_def busyInv_def take_drop_mid [OF step_answer(1)])
  then show ?case unfolding answer_def by (rule resume_inv)
qed (auto simp: channelInv_def busyInv_def channel_defs list_all_iff intro: timely_next)

lemma reach_inv: "channel_reach c \<Longrightarrow> channelInv c"
proof (induction rule: channel_reach.induct)
  case reach_initial
  show ?case by (simp add: channelInv_def busyInv_def initialChannel_def)
qed (rule step_inv)

text \<open>C23. However calls and answers overlap: no busy flag stays set once every answer has come, and an answer about
  the latest version changes what is shown only when it is about the agent that is shown.\<close>

theorem plugin_channel:
  assumes "channel_reach c"
  shows "(pending c = [] \<longrightarrow> \<not> loading c \<and> \<not> installing c \<and> \<not> upgrading c \<and> \<not> uninstalling c) \<and>
    (i < length (pending c) \<and> pending c ! i = CheckLatest a v \<and> shown (snd (answer i res c)) \<noteq> shown c \<longrightarrow> a = agentId c)"
proof -
  have inv: "channelInv c" using reach_inv assms .
  moreover have "a = agentId c"
    if "i < length (pending c)" "pending c ! i = CheckLatest a v" "shown (snd (answer i res c)) \<noteq> shown c"
  proof -
    have "timely (loadVersion c) (agentId c) (CheckLatest a v)"
      using inv that(1,2) by (metis channelInv_def list_all_length)
    moreover have "v = loadVersion c"
      using that by (auto simp: answer_def resume_def onLatestVersion_def shown_def split: option.splits if_splits)
    ultimately show ?thesis by simp
  qed
  ultimately show ?thesis by (auto simp: channelInv_def busyInv_def)
qed

text \<open>A plugin that is loaded and answered as installed: the check of the latest version is in flight.\<close>

definition webStatus :: AgentPluginStatus where
  "webStatus = \<lparr>pinstalled = True, pcurrentVersion = ''1.0'', platestVersion = ''1.1'', pupgradable = True\<rparr>"

definition loadedChannel :: channel where
  "loadedChannel = snd (answer 0 (Some (Some (webStatus\<lparr>platestVersion := []\<rparr>))) (loadPlugin 7 initialChannel))"

theorem plugin_channel_witness:
  "pending loadedChannel = [CheckLatest 7 1] \<and> shown (snd (answer 0 (Some (Some webStatus)) loadedChannel)) \<noteq> shown loadedChannel \<and>
   agentId loadedChannel = 7"
proof -
  have p: "pending loadedChannel = [CheckLatest 7 1]"
    "shown (snd (answer 0 (Some (Some webStatus)) loadedChannel)) \<noteq> shown loadedChannel"
    by (simp_all add: loadedChannel_def webStatus_def answer_def resume_def shown_def initialChannel_def channel_defs)
  have "channel_step (loadPlugin 7 initialChannel) loadedChannel"
    unfolding loadedChannel_def by (rule step_answer) (simp add: channel_defs initialChannel_def)
  then have "channel_reach loadedChannel" by (blast intro: channel_reach.intros channel_step.intros)
  from plugin_channel [OF this, of 0 7 1 "Some (Some webStatus)"] p show ?thesis by simp
qed








end
