(* ===== verification/Spec2Isabelle.thy ===== *)
theory Spec2Isabelle
  imports Form_Rules_Correct Permission_Directive Router_Guard Process_Store Cronjob_Spec Sizes
    Custom_Webhook_Correct Secret_Field Table_Selection Validate Versions
    Sidebar Navigation Http_Client Base64_Url Firewall_Address
    White_List Docker_Guard Runtime_Environment Dashboard_Cache File_Utils Stepper
    Table_Columns Footer_Navigation Plugin_Channel
begin

text \<open>
  Verification of the core logic of the 1Panel web front end. The panel is a single-page
  application under \<open>src/frontend/src\<close>: Pinia stores keep the state, the router's guards decide on
  every navigation, permission checks decide on routes, menus and controls, form rules decide on
  input, and helpers turn stored configuration into forms and back. The Go services behind the
  API (\<open>src/core\<close>, \<open>src/agent\<close>) are reached over HTTP only; what they answer is an argument here.

  \<^bold>\<open>Parts and how they interact.\<close>
  The global store (\<open>store/modules/global.ts\<close>) holds login, node, licence and permissions; with the
  module variables of \<open>utils/permission-codes.ts\<close> and \<open>utils/page-state-cache.ts\<close> it is the record
  \<open>world\<close>. The checks of \<open>utils/rbac.ts\<close> and \<open>utils/permission.ts\<close> read it, and write the code cache
  while they read. The directive \<open>v-permission\<close> and the router guard call these checks; the guard
  also clears the store and the terminal sessions, loads the licence, cancels pending requests
  and drives the tabs. The route table is what the guard is run on and what the sidebar is built
  from, by the same checks. The HTTP client reads the store for the headers of a request, and
  ends the session in it when an answer says so. The other parts are independent of each other:
  the process store with its web socket, the form rules with the validation helpers, the firewall
  pages, whose white list of ports and container guard build on one set of address and port
  checks, cron schedules, sizes, the custom webhook, the selection of table rows, versions and
  allowed origins, the environments of runtimes, the start page with its cache, the file
  helpers, the stepper of the wizards, the columns of tables, whose buttons ask the same permission
  checks, the links of the footer, which follow the edition in the global store, and the plugins
  of agents.

  \<^bold>\<open>Theories.\<close>
  \<^item> \<open>Prelude\<close>: array and string operations of the language (\<open>findIndex\<close>, \<open>splice\<close>, \<open>split\<close>, \<open>trim\<close>,
    \<open>replaceAll\<close>, decimal and hexadecimal numerals) with their lemmas; the locale \<open>keyed_edit\<close>.
  \<^item> \<open>Reg_Exp\<close>: regular expressions, their languages and a matcher by derivatives, proved correct
    (\<open>matchRe_iff\<close>). \<open>JS_Number\<close>: \<open>Number (s)\<close>. \<open>Json_Text\<close>: \<open>JSON.parse\<close>.
  \<^item> \<open>Form_Rules\<close> (\<open>global/form-rules.ts\<close>): one definition per validator and the \<open>Rules\<close> table.
    \<open>Form_Rules_Correct\<close>: what ports, addresses, passwords and names pass, by definitions without
    patterns; the required rules that a blank text passes; locales \<open>pattern_rule\<close> and \<open>required_rule\<close>.
  \<^item> \<open>Validate\<close> (\<open>utils/validate.ts\<close>, \<open>views/setting/safe/allowips/index.vue\<close>): equivalence with the
    form rules, which networks pass, times split and put together.
  \<^item> \<open>Global_Store\<close>: state, getters, actions, the refinement of the cached permission check to the
    specification \<open>allowed\<close>, and the reachable states.
  \<^item> \<open>Permissions\<close> (\<open>utils/rbac.ts\<close>, \<open>utils/permission.ts\<close>, \<open>composables/useMenuManagePermission.ts\<close>):
    each check answers by a specification on the store alone. The locale \<open>stable_check\<close> is the
    contract of a check that writes the cache; it is interpreted on five checks.
  \<^item> \<open>Permission_Directive\<close> (\<open>directives/modules/permission.ts\<close>): disabling and enabling an element
    over any number of updates, with only the directive writing it in between: a refusal taken back
    leaves no trace but the loss of a disabled mark the element had itself; a disabled element is inert.
  \<^item> \<open>Tabs_Store\<close> (\<open>store/modules/tabs.ts\<close>, \<open>utils/tab-cache.ts\<close>) and \<open>Terminal_Sessions\<close>
    (\<open>store/modules/terminal-session.ts\<close>): uniqueness of paths, cache names and keys, and the effect
    of each operation.
  \<^item> \<open>Router_Guard\<close> (\<open>routers/index.ts\<close>, \<open>utils/router.ts\<close>, \<open>utils/xpack.ts\<close>, \<open>api/helper/axios-cancel.ts\<close>):
    the guards on the record \<open>panel\<close> of all stores; who gets where, with the three pages that the guard
    lets through unchecked, and what the guard leaves of a guest's state.
  \<^item> \<open>Route_Table\<close> (\<open>routers/router.ts\<close>, \<open>routers/modules\<close>): every route record that the panel ships, and the
    pages they make; what the guard does on each of them, and that their links lead somewhere.
  \<^item> \<open>Navigation\<close>: the router's loop of guards and redirects, by the locale \<open>router\<close> on any table whose
    redirects are placed, interpreted on the shipped one; every navigation ends.
  \<^item> \<open>Sidebar\<close> (\<open>layout/components/Sidebar/index.vue\<close>, \<open>store/modules/menu.ts\<close>): the menu from the table and
    from the stored settings, whose entries may be shared or cyclic; the locale \<open>menu_check\<close> is the
    contract of a check that prunes a menu, interpreted on both checks in use.
  \<^item> \<open>Http_Client\<close> (\<open>api/index.ts\<close>, \<open>api/helper/check-status.ts\<close>, \<open>utils/auth-response.ts\<close>, \<open>utils/stream-auth.ts\<close>,
    \<open>utils/node.ts\<close>, \<open>utils/operate-node.ts\<close>, cookies of \<open>utils/auth.ts\<close>): the interceptors of requests, responses
    and errors. \<open>Base64_Url\<close> (\<open>utils/auth.ts\<close>, \<open>utils/base64.ts\<close>): bytes as text for passkeys.
  \<^item> \<open>Firewall_Address\<close> (\<open>views/host/firewall/utils/validation.ts\<close>): the grammars of addresses, networks and
    port ranges. On them rest \<open>White_List\<close> (\<open>views/host/firewall/setting/white-list\<close>: the ports that are never
    blocked, read and written, and the drawer that edits them as a step relation) and \<open>Docker_Guard\<close>
    (\<open>views/host/firewall/docker/model.ts\<close>, \<open>docker/import/index.vue\<close>: which policies are accepted from a file).
  \<^item> \<open>Runtime_Environment\<close> (\<open>utils/runtime-environment.ts\<close>, \<open>views/website/runtime/components/environment/index.vue\<close>): the
    reader of environment texts ends, and reads back what a printer with escapes writes.
  \<^item> \<open>Dashboard_Cache\<close> (\<open>utils/dashboardCache.ts\<close>, parts of \<open>views/home/index.vue\<close>): the locale \<open>expiring_cache\<close> is
    the contract of a store with expiry; interpreted on the cache it gives that the page shows
    nothing stale.
  \<^item> \<open>File_Utils\<close> (\<open>utils/file.ts\<close>, \<open>global/mimetype.ts\<close>, \<open>views/host/file-management/size-cache.ts\<close>): file names taken
    from links are single components of a path, files are sorted by the size shown.
  \<^item> \<open>Table_Columns\<close> (\<open>components/table/Table.ts\<close>, \<open>components/table/shared.ts\<close>, \<open>components/shared/vnode.ts\<close>): the chosen
    columns come back, what is rendered, and when a button of a row can be pressed.
  \<^item> \<open>Footer_Navigation\<close> (\<open>components/footer-navigation\<close>) and \<open>Plugin_Channel\<close>
    (\<open>useAgentPluginChannel.ts\<close> of the agent channels): requests that overlap, guarded by a counter in the footer
    and, for one of its two requests, in the channel, where the other one can show the status of an
    agent left behind; the links the footer opens are safe.
  \<^item> \<open>Stepper\<close> (\<open>components/fu/steps/Stepper.ts\<close>): overlapping moves between the steps of a wizard.
  \<^item> \<open>Process_Store\<close> (\<open>store/modules/process.ts\<close>): a step relation over calls, socket events and
    timers in any order; one outstanding request; one pending when the socket
    closes stalls every later connection; a run in which a late close event drops the socket in use.
  \<^item> \<open>Cronjob_Spec\<close> (\<open>views/cronjob/cronjob/helper.ts\<close>): schedules printed and read back.
  \<^item> \<open>Sizes\<close> (\<open>utils/size.ts\<close>): the tables of units against each other and against the true size.
  \<^item> \<open>Custom_Webhook\<close>, \<open>Custom_Webhook_Correct\<close> (\<open>views/setting/alert/setting/drawer/custom-webhook.ts\<close>):
    secrets, as stored or by name, are not sent back unedited, the scan of templates is exact, presets validate.
    \<open>Secret_Field\<close> (\<open>secret-field.ts\<close> beside it): keeping a secret undoes its edits.
  \<^item> \<open>Table_Selection\<close> (\<open>components/table/complex/useTableSelection.ts\<close>, handlers of \<open>ComplexTable.vue\<close>): in every
    session of clicks, keys, reports of the table and page changes, the table shows what is selected.
  \<^item> \<open>Versions\<close> (\<open>utils/version.ts\<close>, \<open>utils/agent.ts\<close>): versions are ordered, origins are stable.

  \<^bold>\<open>Conventions.\<close>
  Optional fields are \<open>option\<close>; an empty string stands for a missing one where the code treats both
  alike. Errors are values: \<open>Reject\<close> with its message key, \<open>Inl\<close>, \<open>None\<close>, or a constructor that names
  the exception. Message texts are their translation keys. Asynchronous functions that only await
  an answer take it as an argument, a rejected promise being \<open>None\<close>; where the code can be
  interleaved (the process store, the stepper, the footer, the plugin channel, the drawer of the white
  list) each resumption is a
  step of its own. Strings of the validators
  are lists of UTF-16 code units; those of the stores have units below 256. Numbers are exact:
  integers, naturals or rationals, which agree with doubles up to 2 to the 53. Loops are
  structural recursions or functions with a measure. Fuel is used twice. \<open>readTree\<close> follows the
  references of a menu as \<open>JSON.stringify\<close> does, with one unit per object: a longer chain is a cycle,
  on which the code raises. \<open>navigate\<close> runs the guards with eight rounds, which \<open>navigation_ends\<close> shows
  to be enough.

  \<^bold>\<open>Parameters and their hypotheses.\<close>
  The browser's URL parser (\<open>originLaws\<close>: an origin parses to itself), the table component
  (\<open>tableLaws\<close>: toggling a row changes its membership), fresh ids (\<open>inj uuid\<close>), the resolution of
  routes, translations, API answers, random bytes, the parsed content of an imported file, the
  text of a number, \<open>decodeURIComponent\<close>, \<open>TextEncoder\<close>, \<open>TextDecoder\<close> and whether the local storage takes a text are arguments. How nested records make
  pages, with joined paths and merged meta data, is the router package's documented behaviour and
  written out in \<open>Route_Table\<close>. Each property with a hypothesis on a parameter has a witness on a
  concrete instance.

  \<^bold>\<open>Not modelled.\<close>
  Most views, templates, styles, translations, API modules and their types: they have no
  logic beyond calls and bindings. Favicon, theme and persistence: effects of the browser or of a
  plugin. The date formats of \<open>utils/date.ts\<close> but \<open>loadZero\<close>: they depend on the time zone of the
  browser. \<open>computeSize2\<close> and \<open>computeCPU\<close>: their quotients are rounded doubles. The text of the
  process socket's URL. The links of shared files in \<open>utils/file.ts\<close>: they are put together by the URL
  objects of the browser. \<open>encryptPassword\<close>: it calls two cryptography packages. The charts of the
  start page. The Go services.

  \<^bold>\<open>Left for later.\<close>
  The merge of extension routes and the checks inside the larger views, which would follow
  the pattern of \<open>White_List\<close>: rules, then the drawer as a step relation.
\<close>

end
